(* ===== verification/Js_Prelude.thy ===== *)
theory Js_Prelude
  imports Complex_Main "HOL-Library.Sublist"
begin

text \<open>
  The part of the JavaScript language and standard library the modelled sources use: strings and
  their case folding, trimming and decimal conversion, the special values of the number type,
  \<open>parseInt\<close> and \<open>BigInt\<close>, and the insertion-ordered \<open>Map\<close>. The later theories import it.

  Conventions. A JavaScript string is a \<^typ>\<open>string\<close>, one \<^typ>\<open>char\<close> per code unit, so the
  model covers strings whose code units are below 256; case folding and trimming are exact on that
  range. A \<open>bigint\<close> is an \<^typ>\<open>int\<close>. A value of type \<open>string | null | undefined\<close> that the
  code only tests for truth is a \<^typ>\<open>string\<close> with the empty string for all three falsy values.
  An exception is its message.
\<close>

named_theorems js_eval \<open>evaluation of the JavaScript primitives on concrete values\<close>
named_theorems map_laws \<open>laws of the insertion-ordered map\<close>

type_synonym hex = string
type_synonym exn = string
type_synonym env = "string \<Rightarrow> string option"

section \<open>Strings\<close>

text \<open>\<open>toLowerCase\<close> on one code unit: \<open>A\<close>..\<open>Z\<close> and the Latin-1 capitals gain 32, which sets
  bit 5; every other code unit below 256 is its own lower case.\<close>

fun lower_char :: "char \<Rightarrow> char" where
  "lower_char (Char b0 b1 b2 b3 b4 b5 b6 b7) =
     (let n = (of_char (Char b0 b1 b2 b3 b4 b5 b6 b7) :: nat) in
      if (65 \<le> n \<and> n \<le> 90) \<or> (192 \<le> n \<and> n \<le> 222 \<and> n \<noteq> 215)
      then Char b0 b1 b2 b3 b4 True b6 b7
      else Char b0 b1 b2 b3 b4 b5 b6 b7)"

definition toLowerCase :: "string \<Rightarrow> string" where
  "toLowerCase s = map lower_char s"

text \<open>White space and line terminators below 256, as \<open>trim\<close> and \<open>parseInt\<close> strip them.\<close>

definition js_space :: "char \<Rightarrow> bool" where
  "js_space c = ((of_char c :: nat) \<in> {9, 10, 11, 12, 13, 32, 160})"

definition trimStart :: "string \<Rightarrow> string" where
  "trimStart s = dropWhile js_space s"

definition js_trim :: "string \<Rightarrow> string" where
  "js_trim s = rev (dropWhile js_space (rev (trimStart s)))"

text \<open>The operator \<open>a || b\<close> on strings.\<close>

definition str_or :: "string \<Rightarrow> string \<Rightarrow> string" where
  "str_or a b = (if a = '''' then b else a)"

lemma lower_char_idem [simp]: "lower_char (lower_char c) = lower_char c"
proof (cases c)
  case (Char b0 b1 b2 b3 b4 b5 b6 b7)
  then show ?thesis
    by (cases b0; cases b1; cases b2; cases b3; cases b4; cases b5; cases b6; cases b7; simp)
qed

lemma toLowerCase_idem [simp]: "toLowerCase (toLowerCase s) = toLowerCase s"
  by (simp add: toLowerCase_def comp_def)

lemma toLowerCase_Nil_iff [simp]: "toLowerCase s = [] \<longleftrightarrow> s = []"
  by (simp add: toLowerCase_def)

lemma length_toLowerCase [simp]: "length (toLowerCase s) = length s"
  by (simp add: toLowerCase_def)

lemma toLowerCase_append [simp]: "toLowerCase (s @ t) = toLowerCase s @ toLowerCase t"
  by (simp add: toLowerCase_def)

lemmas [js_eval] = toLowerCase_def js_space_def trimStart_def js_trim_def str_or_def

section \<open>Decimal text\<close>

fun dec_nat :: "nat \<Rightarrow> string" where
  "dec_nat n = (if n < 10 then [''0123456789'' ! n]
                else dec_nat (n div 10) @ [''0123456789'' ! (n mod 10)])"

declare dec_nat.simps [simp del]

text \<open>\<open>toString()\<close> of a \<open>bigint\<close>.\<close>

definition dec_int :: "int \<Rightarrow> string" where
  "dec_int i = (if i < 0 then CHR ''-'' # dec_nat (nat (- i)) else dec_nat (nat i))"

definition is_digit :: "char \<Rightarrow> bool" where
  "is_digit c = (48 \<le> (of_char c :: nat) \<and> (of_char c :: nat) \<le> 57)"

definition digit_val :: "char \<Rightarrow> nat" where
  "digit_val c = of_char c - 48"

definition undec :: "string \<Rightarrow> nat" where
  "undec s = foldl (\<lambda>a c. 10 * a + digit_val c) 0 s"

lemma digit_char:
  assumes "n < 10"
  shows "is_digit (''0123456789'' ! n)" and "digit_val (''0123456789'' ! n) = n"
proof -
  have "n = 0 \<or> n = 1 \<or> n = 2 \<or> n = 3 \<or> n = 4 \<or> n = 5 \<or> n = 6 \<or> n = 7 \<or> n = 8 \<or> n = 9"
    using assms by arith
  then show "is_digit (''0123456789'' ! n)" and "digit_val (''0123456789'' ! n) = n"
    by (auto simp: is_digit_def digit_val_def)
qed

lemma dec_nat_digits: "\<forall>c \<in> set (dec_nat n). is_digit c"
proof (induction n rule: dec_nat.induct)
  case (1 n)
  then show ?case
    by (subst dec_nat.simps) (auto simp: digit_char)
qed

lemma dec_nat_not_Nil [simp]: "dec_nat n \<noteq> []"
  by (subst dec_nat.simps) simp

lemma undec_dec_nat [simp]: "undec (dec_nat n) = n"
proof (induction n rule: dec_nat.induct)
  case (1 n)
  show ?case
  proof (cases "n < 10")
    case True
    then show ?thesis by (simp add: dec_nat.simps [of n] undec_def digit_char)
  next
    case False
    with 1 have "undec (dec_nat (n div 10)) = n div 10" by simp
    then show ?thesis using False
      by (subst dec_nat.simps) (simp add: undec_def digit_char)
  qed
qed

lemma dec_nat_inject [simp]: "dec_nat m = dec_nat n \<longleftrightarrow> m = n"
  by (metis undec_dec_nat)

lemma is_digit_not_minus [simp]: "\<not> is_digit (CHR ''-'')"
  by (simp add: is_digit_def)

lemma dec_nat_no_minus: "CHR ''-'' # s \<noteq> dec_nat n"
  using dec_nat_digits [of n] by (metis is_digit_not_minus list.set_intros(1))

lemma dec_int_inject [simp]: "dec_int i = dec_int j \<longleftrightarrow> i = j"
  using dec_nat_no_minus by (auto simp: dec_int_def split: if_splits) metis+

lemma dec_int_not_Nil [simp]: "dec_int i \<noteq> []"
  by (simp add: dec_int_def)

text \<open>\<open>BigInt(s)\<close> of a string: trimmed, empty is 0, a radix prefix or an optionally signed
  decimal; anything else throws (\<^const>\<open>None\<close>).\<close>

definition radix_digit :: "nat \<Rightarrow> char \<Rightarrow> nat option" where
  "radix_digit b c =
     (let n = of_char c :: nat;
          v = (if 48 \<le> n \<and> n \<le> 57 then Some (n - 48)
               else if 97 \<le> n \<and> n \<le> 102 then Some (n - 87)
               else if 65 \<le> n \<and> n \<le> 70 then Some (n - 55) else None)
      in case v of None \<Rightarrow> None | Some d \<Rightarrow> if d < b then Some d else None)"

fun radix_val :: "nat \<Rightarrow> nat \<Rightarrow> string \<Rightarrow> nat option" where
  "radix_val b acc [] = Some acc"
| "radix_val b acc (c # cs) =
     (case radix_digit b c of None \<Rightarrow> None | Some d \<Rightarrow> radix_val b (b * acc + d) cs)"

definition decimal_lit :: "string \<Rightarrow> nat option" where
  "decimal_lit s = (if s \<noteq> [] \<and> list_all is_digit s then Some (undec s) else None)"

definition BigInt_str :: "string \<Rightarrow> int option" where
  "BigInt_str s0 =
     (let s = js_trim s0 in
      if s = [] then Some 0
      else if take 2 s = ''0x'' \<or> take 2 s = ''0X''
        then (if drop 2 s = [] then None else map_option int (radix_val 16 0 (drop 2 s)))
      else if take 2 s = ''0o'' \<or> take 2 s = ''0O''
        then (if drop 2 s = [] then None else map_option int (radix_val 8 0 (drop 2 s)))
      else if take 2 s = ''0b'' \<or> take 2 s = ''0B''
        then (if drop 2 s = [] then None else map_option int (radix_val 2 0 (drop 2 s)))
      else if hd s = CHR ''-'' then map_option (\<lambda>n. - int n) (decimal_lit (tl s))
      else if hd s = CHR ''+'' then map_option int (decimal_lit (tl s))
      else map_option int (decimal_lit s))"

lemma digit_not_space: "is_digit c \<Longrightarrow> \<not> js_space c"
  by (auto simp: is_digit_def js_space_def)

lemma js_trim_no_space:
  assumes "\<forall>c \<in> set s. \<not> js_space c"
  shows "js_trim s = s"
proof -
  have "dropWhile js_space s = s" using assms by (cases s) auto
  moreover have "dropWhile js_space (rev s) = rev s"
    using assms by (cases "rev s") (auto dest: arg_cong [where f = set])
  ultimately show ?thesis by (simp add: js_trim_def trimStart_def)
qed

lemma decimal_lit_dec_nat [simp]: "decimal_lit (dec_nat n) = Some n"
  using dec_nat_digits [of n] by (simp add: decimal_lit_def list_all_iff)

lemma dec_nat_no_prefix:
  assumes "\<not> is_digit x"
  shows "take 2 (dec_nat n) \<noteq> [c, x]"
proof
  assume "take 2 (dec_nat n) = [c, x]"
  then have "x \<in> set (dec_nat n)"
    by (metis in_set_takeD list.set_intros(1,2))
  with dec_nat_digits [of n] assms show False by blast
qed

text \<open>Decimal text written with \<open>toString()\<close> reads back with \<open>BigInt\<close>.\<close>

lemma BigInt_dec_nat: "BigInt_str (dec_nat n) = Some (int n)"
proof -
  have trim: "js_trim (dec_nat n) = dec_nat n"
    using dec_nat_digits [of n] digit_not_space by (blast intro: js_trim_no_space)
  obtain c t where ct: "dec_nat n = c # t" by (cases "dec_nat n") auto
  then have c: "is_digit c" using dec_nat_digits [of n] by simp
  then have "hd (dec_nat n) \<noteq> CHR ''-''" "hd (dec_nat n) \<noteq> CHR ''+''"
    using ct by (auto simp: is_digit_def)
  moreover have "\<And>a x. \<not> is_digit x \<Longrightarrow> take 2 (dec_nat n) \<noteq> [a, x]"
    by (rule dec_nat_no_prefix)
  moreover have "\<not> is_digit (CHR ''x'')" "\<not> is_digit (CHR ''X'')" "\<not> is_digit (CHR ''o'')"
    "\<not> is_digit (CHR ''O'')" "\<not> is_digit (CHR ''b'')" "\<not> is_digit (CHR ''B'')"
    by (simp_all add: is_digit_def)
  ultimately show ?thesis
    unfolding BigInt_str_def Let_def trim by simp
qed

lemma BigInt_dec_int [simp]: "BigInt_str (dec_int i) = Some i"
proof (cases "i < 0")
  case True
  have "\<not> js_space (CHR ''-'')" by (simp add: js_space_def)
  then have "js_trim (dec_int i) = dec_int i"
    using True dec_nat_digits [of "nat (- i)"] digit_not_space
    by (auto intro!: js_trim_no_space simp: dec_int_def)
  then show ?thesis using True
    by (simp add: BigInt_str_def Let_def dec_int_def numeral_2_eq_2)
next
  case False
  then show ?thesis by (simp add: dec_int_def BigInt_dec_nat)
qed

section \<open>Numbers\<close>

text \<open>
  A value of type \<open>number\<close>: the three special values, an integer, or a finite non-integer.
  Integers are exact (the code only forms integers well below \<open>2\<^sup>5\<^sup>3\<close>); negative zero is not
  distinguished from zero.
\<close>

datatype jsnum = NaN | PosInf | NegInf | JInt int | JFrac rat

fun num_truthy :: "jsnum \<Rightarrow> bool" where
  "num_truthy NaN = False"
| "num_truthy (JInt i) = (i \<noteq> 0)"
| "num_truthy _ = True"

fun isFinite :: "jsnum \<Rightarrow> bool" where
  "isFinite (JInt i) = True"
| "isFinite (JFrac r) = True"
| "isFinite _ = False"

fun isSafeInteger :: "jsnum \<Rightarrow> bool" where
  "isSafeInteger (JInt i) = (\<bar>i\<bar> \<le> 9007199254740991)"
| "isSafeInteger _ = False"

fun fin_val :: "jsnum \<Rightarrow> rat" where
  "fin_val (JInt i) = of_int i"
| "fin_val (JFrac r) = r"
| "fin_val _ = 0"

text \<open>The operator \<open><\<close>: false as soon as an operand is \<^const>\<open>NaN\<close>.\<close>

fun num_less :: "jsnum \<Rightarrow> jsnum \<Rightarrow> bool" where
  "num_less NaN y = False"
| "num_less x NaN = False"
| "num_less x NegInf = False"
| "num_less PosInf y = False"
| "num_less NegInf y = True"
| "num_less x PosInf = True"
| "num_less (JInt i) (JInt j) = (i < j)"
| "num_less x y = (fin_val x < fin_val y)"

definition Math_max :: "jsnum \<Rightarrow> jsnum \<Rightarrow> jsnum" where
  "Math_max x y = (if x = NaN \<or> y = NaN then NaN else if num_less x y then y else x)"

definition num_or :: "jsnum \<Rightarrow> jsnum \<Rightarrow> jsnum" where
  "num_or a b = (if num_truthy a then a else b)"

text \<open>\<open>BigInt(n)\<close> of a number: a RangeError unless \<open>n\<close> is an integer.\<close>

fun BigInt_num :: "jsnum \<Rightarrow> exn + int" where
  "BigInt_num (JInt i) = Inr i"
| "BigInt_num _ = Inl ''RangeError''"

text \<open>\<open>parseInt(s, 10)\<close>: leading white space, an optional sign, the longest run of digits.\<close>

definition parseInt10 :: "string \<Rightarrow> jsnum" where
  "parseInt10 s =
     (let t = trimStart s;
          neg = (t \<noteq> [] \<and> hd t = CHR ''-'');
          u = (if t \<noteq> [] \<and> (hd t = CHR ''-'' \<or> hd t = CHR ''+'') then tl t else t);
          ds = takeWhile is_digit u
      in if ds = [] then NaN else JInt (if neg then - int (undec ds) else int (undec ds)))"

lemma Math_max_JInt [simp]: "Math_max (JInt i) (JInt j) = JInt (max i j)"
  by (simp add: Math_max_def max_def)

lemma Math_max_NaN [simp]: "Math_max NaN y = NaN" "Math_max x NaN = NaN"
  by (simp_all add: Math_max_def)

lemma not_less_NaN [simp]: "\<not> num_less x NaN"
  by (cases x) simp_all

lemma takeWhile_digits_dec [simp]: "takeWhile is_digit (dec_nat n) = dec_nat n"
  using dec_nat_digits [of n] by (simp add: takeWhile_eq_all_conv)

lemma dec_nat_hd: "is_digit (hd (dec_nat n))"
  using dec_nat_digits [of n] by (metis dec_nat_not_Nil list.set_sel(1))

lemma trimStart_dec_nat [simp]: "trimStart (dec_nat n) = dec_nat n"
  unfolding trimStart_def
  using dec_nat_hd [of n] digit_not_space
  by (metis dec_nat_not_Nil dropWhile.simps(2) list.collapse)

lemma parseInt_dec_nat: "parseInt10 (dec_nat n) = JInt (int n)"
proof -
  have "hd (dec_nat n) \<noteq> CHR ''-''" "hd (dec_nat n) \<noteq> CHR ''+''"
    using dec_nat_hd [of n] by (auto simp: is_digit_def)
  then show ?thesis by (simp add: parseInt10_def Let_def)
qed

lemma parseInt10_integer: "parseInt10 s = NaN \<or> (\<exists>i. parseInt10 s = JInt i)"
  by (simp add: parseInt10_def Let_def)

section \<open>Insertion-ordered maps\<close>

text \<open>
  The contract of \<open>Map\<close>: what \<open>get\<close> answers after \<open>set\<close> and \<open>delete\<close>, on well-formed
  maps. \<open>keys\<close> is the set of keys present.
\<close>

locale js_map_spec =
  fixes get :: "'m \<Rightarrow> 'k \<Rightarrow> 'v option"
    and upd :: "'k \<Rightarrow> 'v \<Rightarrow> 'm \<Rightarrow> 'm"
    and del :: "'k \<Rightarrow> 'm \<Rightarrow> 'm"
    and wf :: "'m \<Rightarrow> bool"
  assumes get_upd: "get (upd k v m) k' = (if k' = k then Some v else get m k')"
    and get_del: "get (del k m) k' = (if k' = k then None else get m k')"
    and wf_upd: "wf m \<Longrightarrow> wf (upd k v m)"
    and wf_del: "wf m \<Longrightarrow> wf (del k m)"
begin

lemma get_upd_same: "get (upd k v m) k = Some v"
  by (simp add: get_upd)

lemma get_del_same: "get (del k m) k = None"
  by (simp add: get_del)

lemma present_upd: "get (upd k v m) k' \<noteq> None \<longleftrightarrow> k' = k \<or> get m k' \<noteq> None"
  by (simp add: get_upd)

lemma get_foldr_upd_other:
  "k \<notin> fst ` set kvs \<Longrightarrow> get (foldr (\<lambda>(k, v). upd k v) kvs m) k = get m k"
  by (induction kvs) (auto simp: get_upd)

lemma wf_foldr_upd: "wf m \<Longrightarrow> wf (foldr (\<lambda>(k, v). upd k v) kvs m)"
  by (induction kvs) (auto simp: wf_upd)

end

type_synonym ('k, 'v) jsmap = "('k \<times> 'v) list"

definition map_get :: "('k, 'v) jsmap \<Rightarrow> 'k \<Rightarrow> 'v option" where
  "map_get m k = map_of m k"

fun map_set :: "'k \<Rightarrow> 'v \<Rightarrow> ('k, 'v) jsmap \<Rightarrow> ('k, 'v) jsmap" where
  "map_set k v [] = [(k, v)]"
| "map_set k v ((k', v') # m) = (if k' = k then (k, v) # m else (k', v') # map_set k v m)"

definition map_delete :: "'k \<Rightarrow> ('k, 'v) jsmap \<Rightarrow> ('k, 'v) jsmap" where
  "map_delete k m = filter (\<lambda>(k', v). k' \<noteq> k) m"

definition map_has :: "('k, 'v) jsmap \<Rightarrow> 'k \<Rightarrow> bool" where
  "map_has m k = (map_get m k \<noteq> None)"

definition map_values :: "('k, 'v) jsmap \<Rightarrow> 'v list" where
  "map_values m = map snd m"

definition map_wf :: "('k, 'v) jsmap \<Rightarrow> bool" where
  "map_wf m = distinct (map fst m)"

lemma map_get_set: "map_get (map_set k v m) k' = (if k' = k then Some v else map_get m k')"
  by (induction k v m rule: map_set.induct) (auto simp: map_get_def)

lemma map_get_delete: "map_get (map_delete k m) k' = (if k' = k then None else map_get m k')"
  by (induction m) (auto simp: map_get_def map_delete_def)

lemma keys_map_set: "set (map fst (map_set k v m)) = insert k (set (map fst m))"
  by (induction k v m rule: map_set.induct) auto

lemma map_wf_set: "map_wf m \<Longrightarrow> map_wf (map_set k v m)"
proof (induction k v m rule: map_set.induct)
  case (2 k v k' v' m)
  then show ?case using keys_map_set [of k v m] by (auto simp: map_wf_def)
qed (simp add: map_wf_def)

lemma map_wf_delete: "map_wf m \<Longrightarrow> map_wf (map_delete k m)"
  by (induction m) (auto simp: map_wf_def map_delete_def)

interpretation jm: js_map_spec map_get map_set map_delete map_wf
  by unfold_locales (auto simp: map_get_set map_get_delete map_wf_set map_wf_delete)

lemmas [map_laws] = map_get_set map_get_delete map_wf_set map_wf_delete map_has_def

text \<open>A property of every entry, kept by \<open>set\<close> and \<open>delete\<close>.\<close>

definition all_entries :: "('k \<Rightarrow> 'v \<Rightarrow> bool) \<Rightarrow> ('k, 'v) jsmap \<Rightarrow> bool" where
  "all_entries P m = list_all (\<lambda>(k, v). P k v) m"

lemma all_entries_Nil [simp]: "all_entries P []"
  by (simp add: all_entries_def)

lemma all_entries_set: "all_entries P m \<Longrightarrow> P k v \<Longrightarrow> all_entries P (map_set k v m)"
  by (induction k v m rule: map_set.induct) (auto simp: all_entries_def)

lemma all_entries_delete: "all_entries P m \<Longrightarrow> all_entries P (map_delete k m)"
  by (auto simp: all_entries_def map_delete_def list_all_iff)

lemma all_entriesD: "all_entries P m \<Longrightarrow> (k, v) \<in> set m \<Longrightarrow> P k v"
  by (auto simp: all_entries_def list_all_iff)

lemma all_entries_get: "all_entries P m \<Longrightarrow> map_get m k = Some v \<Longrightarrow> P k v"
  by (auto simp: map_get_def dest: map_of_SomeD all_entriesD)

end
