(* ===== verification/Effects.thy ===== *)
theory Effects
  imports Js_Prelude
begin

text \<open>
  Asynchronous code with injected dependencies as a state monad with exceptions. A computation
  takes the state and returns either the exception that escaped it or its result, with the new
  state. A dependency is an effect on the type \<open>'w\<close> of the outside world, which stays a type
  parameter: a theorem that holds for every \<open>'w\<close> and every effect holds for every behaviour of the
  chain, the daemon and the disk. Each call of a dependency is recorded, newest first, in the
  trace, so that ordering properties (``never pays before it read that nothing was paid'') are
  properties of the trace.

  The theory also holds the Hoare triples the safety proofs use and the locale that lifts a
  property of one handler call to any sequence of calls.
\<close>

named_theorems keeps_rules \<open>invariant preservation, one rule per construct\<close>

section \<open>The monad\<close>

type_synonym ('w, 'a) eff = "'w \<Rightarrow> (exn + 'a) \<times> 'w"
type_synonym ('s, 'a) io = "'s \<Rightarrow> (exn + 'a) \<times> 's"

record ('w, 'e) io_state =
  world :: 'w
  trace :: "'e list"

definition ret :: "'a \<Rightarrow> ('s, 'a) io" where
  "ret a s = (Inr a, s)"

definition throw :: "exn \<Rightarrow> ('s, 'a) io" where
  "throw e s = (Inl e, s)"

definition bnd :: "('s, 'a) io \<Rightarrow> ('a \<Rightarrow> ('s, 'b) io) \<Rightarrow> ('s, 'b) io" where
  "bnd m f s = (case m s of (Inl e, s') \<Rightarrow> (Inl e, s') | (Inr a, s') \<Rightarrow> f a s')"

text \<open>\<open>try { m } catch (e) { h e }\<close>, with the value of the whole statement the result.\<close>

definition try_catch :: "('s, 'a) io \<Rightarrow> (exn \<Rightarrow> ('s, 'a) io) \<Rightarrow> ('s, 'a) io" where
  "try_catch m h s = (case m s of (Inl e, s') \<Rightarrow> h e s' | (Inr a, s') \<Rightarrow> (Inr a, s'))"

text \<open>\<open>try\<close> with different continuations for the two ways it can end.\<close>

definition attempt :: "('s, 'a) io \<Rightarrow> (exn + 'a \<Rightarrow> ('s, 'b) io) \<Rightarrow> ('s, 'b) io" where
  "attempt m k s = (case m s of (r, s') \<Rightarrow> k r s')"

definition gets :: "('s \<Rightarrow> 'a) \<Rightarrow> ('s, 'a) io" where
  "gets f s = (Inr (f s), s)"

definition modify :: "('s \<Rightarrow> 's) \<Rightarrow> ('s, unit) io" where
  "modify f s = (Inr (), f s)"

definition lift_sum :: "exn + 'a \<Rightarrow> ('s, 'a) io" where
  "lift_sum r = (case r of Inl e \<Rightarrow> throw e | Inr a \<Rightarrow> ret a)"

definition lift_opt :: "exn \<Rightarrow> 'a option \<Rightarrow> ('s, 'a) io" where
  "lift_opt e r = (case r of None \<Rightarrow> throw e | Some a \<Rightarrow> ret a)"

text \<open>A recorded call of a dependency.\<close>

definition call ::
  "(exn + 'a \<Rightarrow> 'e) \<Rightarrow> ('w, 'a) eff \<Rightarrow> (('w, 'e, 'z) io_state_scheme, 'a) io" where
  "call mk f s = (case f (world s) of
      (r, w) \<Rightarrow> (r, s\<lparr>world := w, trace := mk r # trace s\<rparr>))"

text \<open>An unrecorded call: reading the clock, sleeping, nonce bookkeeping.\<close>

definition quiet :: "('w, 'a) eff \<Rightarrow> (('w, 'e, 'z) io_state_scheme, 'a) io" where
  "quiet f s = (case f (world s) of (r, w) \<Rightarrow> (r, s\<lparr>world := w\<rparr>))"

fun for_each :: "'a list \<Rightarrow> ('a \<Rightarrow> ('s, unit) io) \<Rightarrow> ('s, unit) io" where
  "for_each [] f = ret ()"
| "for_each (x # xs) f = bnd (f x) (\<lambda>_. for_each xs f)"

lemmas io_defs = ret_def throw_def bnd_def try_catch_def attempt_def gets_def modify_def
  lift_sum_def lift_opt_def call_def quiet_def

lemma bnd_ret [simp]: "bnd (ret a) f = f a"
  by (simp add: bnd_def ret_def fun_eq_iff)

lemma bnd_throw [simp]: "bnd (throw e) f = throw e"
  by (simp add: bnd_def throw_def fun_eq_iff)

lemma bnd_assoc: "bnd (bnd m f) g = bnd m (\<lambda>a. bnd (f a) g)"
  by (auto simp: bnd_def fun_eq_iff split: prod.splits sum.splits)

lemma bnd_Inr_E:
  assumes "bnd m f s = (Inr b, s')"
  obtains a s1 where "m s = (Inr a, s1)" and "f a s1 = (Inr b, s')"
  using assms by (auto simp: bnd_def split: prod.splits sum.splits)

section \<open>Hoare triples\<close>

text \<open>From a state in \<open>P\<close>, a normal result lands in \<open>Q\<close> and an escaping exception in \<open>E\<close>.\<close>

definition triple ::
  "('s \<Rightarrow> bool) \<Rightarrow> ('s, 'a) io \<Rightarrow> ('a \<Rightarrow> 's \<Rightarrow> bool) \<Rightarrow> (exn \<Rightarrow> 's \<Rightarrow> bool) \<Rightarrow> bool" where
  "triple P m Q E =
     (\<forall>s r s'. P s \<longrightarrow> m s = (r, s') \<longrightarrow> (case r of Inl e \<Rightarrow> E e s' | Inr a \<Rightarrow> Q a s'))"

abbreviation keeps :: "('s \<Rightarrow> bool) \<Rightarrow> ('s, 'a) io \<Rightarrow> bool" where
  "keeps I m \<equiv> triple I m (\<lambda>_. I) (\<lambda>_. I)"

lemma tripleI:
  "(\<And>s r s'. P s \<Longrightarrow> m s = (r, s') \<Longrightarrow> case r of Inl e \<Rightarrow> E e s' | Inr a \<Rightarrow> Q a s')
   \<Longrightarrow> triple P m Q E"
  by (simp add: triple_def)

lemma tripleD:
  "triple P m Q E \<Longrightarrow> P s \<Longrightarrow> m s = (r, s') \<Longrightarrow> case r of Inl e \<Rightarrow> E e s' | Inr a \<Rightarrow> Q a s'"
  by (simp add: triple_def)

lemma triple_result:
  "triple P m Q E \<Longrightarrow> P s \<Longrightarrow> m s = (Inr a, s') \<Longrightarrow> Q a s'"
  "triple P m Q E \<Longrightarrow> P s \<Longrightarrow> m s = (Inl e, s') \<Longrightarrow> E e s'"
  by (auto dest: tripleD)

lemma triple_conseq:
  "triple P' m Q' E' \<Longrightarrow> (\<And>s. P s \<Longrightarrow> P' s) \<Longrightarrow> (\<And>a s. Q' a s \<Longrightarrow> Q a s)
   \<Longrightarrow> (\<And>e s. E' e s \<Longrightarrow> E e s) \<Longrightarrow> triple P m Q E"
  by (auto intro!: tripleI dest!: tripleD split: sum.splits)

lemma triple_pre: "triple P' m Q E \<Longrightarrow> (\<And>s. P s \<Longrightarrow> P' s) \<Longrightarrow> triple P m Q E"
  by (rule triple_conseq)

lemma triple_ret: "(\<And>s. P s \<Longrightarrow> Q a s) \<Longrightarrow> triple P (ret a) Q E"
  by (simp add: triple_def ret_def)

lemma triple_throw: "(\<And>s. P s \<Longrightarrow> E e s) \<Longrightarrow> triple P (throw e) Q E"
  by (simp add: triple_def throw_def)

lemma triple_attempt:
  assumes m: "triple P m (\<lambda>a. R (Inr a)) (\<lambda>e. R (Inl e))"
    and k: "\<And>r. triple (R r) (k r) Q E"
  shows "triple P (attempt m k) Q E"
proof (rule tripleI)
  fix s r s'
  assume P: "P s" and run: "attempt m k s = (r, s')"
  obtain r1 s1 where ms: "m s = (r1, s1)" by fastforce
  have "R r1 s1" using tripleD [OF m P ms] by (cases r1) auto
  moreover have "k r1 s1 = (r, s')" using run ms by (simp add: attempt_def)
  ultimately show "case r of Inl e \<Rightarrow> E e s' | Inr a \<Rightarrow> Q a s'" by (rule tripleD [OF k])
qed

lemma bnd_attempt: "bnd m f = attempt m (\<lambda>r. case r of Inl e \<Rightarrow> throw e | Inr a \<Rightarrow> f a)"
  by (auto simp: bnd_def attempt_def throw_def fun_eq_iff split: prod.splits sum.splits)

lemma try_attempt: "try_catch m h = attempt m (\<lambda>r. case r of Inl e \<Rightarrow> h e | Inr a \<Rightarrow> ret a)"
  by (auto simp: try_catch_def attempt_def ret_def fun_eq_iff split: prod.splits sum.splits)

lemma triple_bnd:
  assumes "triple P m R E" and f: "\<And>a. triple (R a) (f a) Q E"
  shows "triple P (bnd m f) Q E"
  unfolding bnd_attempt
proof (rule triple_attempt)
  show "triple P m (\<lambda>a. case_sum E R (Inr a)) (\<lambda>e. case_sum E R (Inl e))"
    using assms(1) by simp
  show "triple (case_sum E R r) (case r of Inl e \<Rightarrow> throw e | Inr a \<Rightarrow> f a) Q E" for r
    using f by (cases r) (auto intro: triple_throw)
qed

lemma triple_try:
  assumes "triple P m Q R" and h: "\<And>e. triple (R e) (h e) Q E"
  shows "triple P (try_catch m h) Q E"
  unfolding try_attempt
proof (rule triple_attempt)
  show "triple P m (\<lambda>a. case_sum R Q (Inr a)) (\<lambda>e. case_sum R Q (Inl e))"
    using assms(1) by simp
  show "triple (case_sum R Q r) (case r of Inl e \<Rightarrow> h e | Inr a \<Rightarrow> ret a) Q E" for r
    using h by (cases r) (auto intro: triple_ret)
qed

lemma triple_gets: "(\<And>s. P s \<Longrightarrow> Q (f s) s) \<Longrightarrow> triple P (gets f) Q E"
  by (simp add: triple_def gets_def)

lemma triple_modify: "(\<And>s. P s \<Longrightarrow> Q () (f s)) \<Longrightarrow> triple P (modify f) Q E"
  by (simp add: triple_def modify_def)

lemma triple_lift_sum:
  "(\<And>s a. P s \<Longrightarrow> r = Inr a \<Longrightarrow> Q a s) \<Longrightarrow> (\<And>s e. P s \<Longrightarrow> r = Inl e \<Longrightarrow> E e s)
   \<Longrightarrow> triple P (lift_sum r) Q E"
  by (cases r) (auto simp: lift_sum_def intro: triple_ret triple_throw)

lemma triple_lift_opt:
  "(\<And>s a. P s \<Longrightarrow> r = Some a \<Longrightarrow> Q a s) \<Longrightarrow> (\<And>s. P s \<Longrightarrow> E e s)
   \<Longrightarrow> triple P (lift_opt e r) Q E"
  by (cases r) (auto simp: lift_opt_def intro: triple_ret triple_throw)

lemma triple_if:
  "(b \<Longrightarrow> triple P m Q E) \<Longrightarrow> (\<not> b \<Longrightarrow> triple P n Q E) \<Longrightarrow> triple P (if b then m else n) Q E"
  by simp

lemma triple_call:
  "(\<And>s w a. P s \<Longrightarrow> Q a (s\<lparr>world := w, trace := mk (Inr a) # trace s\<rparr>))
   \<Longrightarrow> (\<And>s w e. P s \<Longrightarrow> E e (s\<lparr>world := w, trace := mk (Inl e) # trace s\<rparr>))
   \<Longrightarrow> triple P (call mk f) Q E"
  by (auto simp: triple_def call_def split: prod.splits sum.splits)

lemma triple_quiet:
  "(\<And>s w a. P s \<Longrightarrow> Q a (s\<lparr>world := w\<rparr>)) \<Longrightarrow> (\<And>s w e. P s \<Longrightarrow> E e (s\<lparr>world := w\<rparr>))
   \<Longrightarrow> triple P (quiet f) Q E"
  by (auto simp: triple_def quiet_def split: prod.splits sum.splits)

lemma triple_true: "triple P m (\<lambda>_ _. True) (\<lambda>_ _. True)"
  by (auto simp: triple_def split: prod.splits sum.splits)

lemma triple_keeps:
  "keeps K m \<Longrightarrow> (\<And>s. K s \<Longrightarrow> I s) \<Longrightarrow> triple K m (\<lambda>_. K) (\<lambda>_. I)"
  by (rule triple_conseq)

text \<open>Add to a triple what holds of every run.\<close>

lemma triple_conj:
  assumes "triple P m Q E" and "triple (\<lambda>_. True) m R (\<lambda>_ _. True)"
  shows "triple P m (\<lambda>a s. Q a s \<and> R a s) E"
  using assms by (auto intro!: tripleI dest!: tripleD split: sum.splits)

text \<open>The invariant form of the rules, for \<open>intro\<close>.\<close>

lemma keeps_ret [keeps_rules]: "keeps I (ret a)"
  by (rule triple_ret)

lemma keeps_throw [keeps_rules]: "keeps I (throw e)"
  by (rule triple_throw)

lemma keeps_bnd [keeps_rules]: "keeps I m \<Longrightarrow> (\<And>a. keeps I (f a)) \<Longrightarrow> keeps I (bnd m f)"
  by (rule triple_bnd)

lemma keeps_attempt [keeps_rules]: "keeps I m \<Longrightarrow> (\<And>r. keeps I (k r)) \<Longrightarrow> keeps I (attempt m k)"
  by (rule triple_attempt)

lemma keeps_try [keeps_rules]: "keeps I m \<Longrightarrow> (\<And>e. keeps I (h e)) \<Longrightarrow> keeps I (try_catch m h)"
  by (rule triple_try)

lemma keeps_gets [keeps_rules]: "keeps I (gets f)"
  by (rule triple_gets)

lemma keeps_lift_sum [keeps_rules]: "keeps I (lift_sum r)"
  by (rule triple_lift_sum)

lemma keeps_lift_opt [keeps_rules]: "keeps I (lift_opt e r)"
  by (rule triple_lift_opt)

lemma keeps_if [keeps_rules]:
  "(b \<Longrightarrow> keeps I m) \<Longrightarrow> (\<not> b \<Longrightarrow> keeps I n) \<Longrightarrow> keeps I (if b then m else n)"
  by simp

lemma keeps_case_option [keeps_rules]:
  "keeps I m \<Longrightarrow> (\<And>x. keeps I (f x)) \<Longrightarrow> keeps I (case r of None \<Rightarrow> m | Some x \<Rightarrow> f x)"
  by (cases r) auto

lemma keeps_case_sum [keeps_rules]:
  "(\<And>e. keeps I (f e)) \<Longrightarrow> (\<And>a. keeps I (g a)) \<Longrightarrow> keeps I (case r of Inl e \<Rightarrow> f e | Inr a \<Rightarrow> g a)"
  by (cases r) auto

lemma keeps_for_each [keeps_rules]:
  "(\<And>x. x \<in> set xs \<Longrightarrow> keeps I (f x)) \<Longrightarrow> keeps I (for_each xs f)"
  by (induction xs) (auto intro!: keeps_rules)

section \<open>Results\<close>

text \<open>Every normal result of a computation, from any state.\<close>

definition yields :: "('s, 'a) io \<Rightarrow> ('a \<Rightarrow> bool) \<Rightarrow> bool" where
  "yields m Q = (\<forall>s a s'. m s = (Inr a, s') \<longrightarrow> Q a)"

lemma yields_ret: "Q a \<Longrightarrow> yields (ret a) Q"
  by (simp add: yields_def ret_def)

lemma yields_throw: "yields (throw e) Q"
  by (simp add: yields_def throw_def)

lemma yields_any: "yields m (\<lambda>_. True)"
  by (simp add: yields_def)

lemma yields_bnd: "yields m R \<Longrightarrow> (\<And>a. R a \<Longrightarrow> yields (f a) Q) \<Longrightarrow> yields (bnd m f) Q"
  unfolding yields_def by (blast elim: bnd_Inr_E)

lemma yields_bnd_any: "(\<And>a. yields (f a) Q) \<Longrightarrow> yields (bnd m f) Q"
  by (rule yields_bnd [OF yields_any])

lemma yields_mono: "yields m Q \<Longrightarrow> (\<And>a. Q a \<Longrightarrow> R a) \<Longrightarrow> yields m R"
  by (auto simp: yields_def)

lemma yields_if: "(c \<Longrightarrow> yields a Q) \<Longrightarrow> (\<not> c \<Longrightarrow> yields b Q) \<Longrightarrow> yields (if c then a else b) Q"
  by simp

section \<open>Sequences of handler calls\<close>

text \<open>
  A handler that keeps an invariant keeps it over every sequence of calls, whatever order and
  whatever inputs the polling loop feeds it.
\<close>

locale invariant_machine =
  fixes step :: "'i \<Rightarrow> 's \<Rightarrow> 's" and ok :: "'i \<Rightarrow> bool" and inv :: "'s \<Rightarrow> bool"
  assumes step_inv: "inv s \<Longrightarrow> ok i \<Longrightarrow> inv (step i s)"
begin

lemma run_inv: "list_all ok is \<Longrightarrow> inv s \<Longrightarrow> inv (fold step is s)"
  by (induction "is" arbitrary: s) (simp_all add: step_inv)

end

text \<open>The state a computation leaves behind, whether it returned or threw.\<close>

definition exec :: "('s, 'a) io \<Rightarrow> 's \<Rightarrow> 's" where
  "exec m s = snd (m s)"

lemma triple_exec: "triple P m (\<lambda>_. Q) (\<lambda>_. Q) \<Longrightarrow> P s \<Longrightarrow> Q (exec m s)"
  by (cases "m s") (auto simp: exec_def dest: tripleD split: sum.splits)

lemmas keeps_exec = triple_exec [where Q = I and P = I for I]

end
