(* ===== verification/Bridge_Events.thy ===== *)
theory Bridge_Events
  imports Effects
begin

text \<open>
  The pure front part of \<open>scripts/bridge-relayer-core.ts\<close>: the canonical withdrawal id, asset
  routing, withdrawal records, amounts, event decoding and the verification of a release receipt.
  The functions the code takes from the package viem (hashing, address checks, ABI log decoding)
  are the fields of a record that every definition using them takes as an argument.
\<close>

section \<open>Names, addresses, ids\<close>

definition ZERO_ADDRESS :: string where
  "ZERO_ADDRESS = ''0x0000000000000000000000000000000000000000''"

datatype BridgeEvent =
    BridgeReleaseETH string int hex
  | BridgeReleaseERC20 string string int hex
  | TimelockQueued int int
  | TimelockExecuted int
  | TimelockCancelled int

text \<open>
  What the code imports from viem. \<open>decodeBridge\<close> is \<open>decodeEventLog\<close> at \<open>ROUGE_BRIDGE_ABI\<close>,
  whose events are the five of \<^typ>\<open>BridgeEvent\<close>; \<open>decodeTransfer\<close> is \<open>decodeEventLog\<close> at the
  ERC20 \<open>Transfer\<close> event (from, to, value). \<^const>\<open>None\<close> is the exception the decoder throws on
  a log that is none of them.
\<close>

record viem =
  keccak256 :: "nat list \<Rightarrow> hex"
  stringToBytes :: "string \<Rightarrow> nat list"
  isAddress :: "string \<Rightarrow> bool"
  getAddress :: "string \<Rightarrow> exn + string"
  decodeBridge :: "hex \<Rightarrow> hex list \<Rightarrow> BridgeEvent option"
  decodeTransfer :: "hex \<Rightarrow> hex list \<Rightarrow> (string \<times> string \<times> int) option"

definition rougeBridgeId :: "viem \<Rightarrow> string \<Rightarrow> hex" where
  "rougeBridgeId v storedTxId = keccak256 v (stringToBytes v storedTxId)"

definition isEvmAddress :: "viem \<Rightarrow> string \<Rightarrow> bool" where
  "isEvmAddress v a = (a \<noteq> '''' \<and> isAddress v a)"

definition sameAddress :: "string \<Rightarrow> string \<Rightarrow> bool" where
  "sameAddress a b = (a \<noteq> '''' \<and> b \<noteq> '''' \<and> toLowerCase a = toLowerCase b)"

definition sameHex :: "string \<Rightarrow> string \<Rightarrow> bool" where
  "sameHex a b = (a \<noteq> '''' \<and> b \<noteq> '''' \<and> toLowerCase a = toLowerCase b)"

section \<open>Routing\<close>

datatype PayoutRoute = RXrge | REth | RUsdc | RBtc | RUnsupported

definition payoutRoute :: "string \<Rightarrow> PayoutRoute" where
  "payoutRoute tokenSymbol =
     (let t = toLowerCase (js_trim tokenSymbol) in
      if t = ''xrge'' then RXrge
      else if t = ''qeth'' then REth
      else if t = ''qusdc'' then RUsdc
      else if t = ''qbtc'' then RBtc
      else RUnsupported)"

datatype EvmAsset = Eth | Usdc

text \<open>The routes the EVM feed pays, as an asset (the guard \<open>route !== "Eth" && route !== "Usdc"\<close>
  that narrows a route to an \<open>EvmAsset\<close>).\<close>

fun evm_asset :: "PayoutRoute \<Rightarrow> EvmAsset option" where
  "evm_asset REth = Some Eth"
| "evm_asset RUsdc = Some Usdc"
| "evm_asset _ = None"

section \<open>Withdrawal records\<close>

record EthWithdrawal =
  w_txId :: string
  w_tx_id :: string
  w_evmAddress :: string
  w_evm_address :: string
  w_amountUnits :: "jsnum option"
  w_amount_units :: "jsnum option"
  w_tokenSymbol :: string
  w_token_symbol :: string

record NormalizedEvmWithdrawal =
  tx_id :: string
  evm_address :: string
  amount_units :: jsnum
  token_symbol :: string

definition opt_num_or :: "jsnum option \<Rightarrow> jsnum \<Rightarrow> jsnum" where
  "opt_num_or a b = (case a of None \<Rightarrow> b | Some n \<Rightarrow> num_or n b)"

definition normalizeEthWithdrawal :: "EthWithdrawal \<Rightarrow> NormalizedEvmWithdrawal" where
  "normalizeEthWithdrawal w =
     \<lparr>tx_id = str_or (w_txId w) (w_tx_id w),
      evm_address = str_or (w_evmAddress w) (w_evm_address w),
      amount_units = opt_num_or (w_amountUnits w) (opt_num_or (w_amount_units w) (JInt 0)),
      token_symbol = js_trim (str_or (w_tokenSymbol w) (w_token_symbol w))\<rparr>"

definition unitsToWei :: "jsnum \<Rightarrow> exn + int" where
  "unitsToWei amountUnits =
     (case BigInt_num amountUnits of Inl e \<Rightarrow> Inl e | Inr n \<Rightarrow> Inr (n * 10 ^ 12))"

definition owedAmount :: "EvmAsset \<Rightarrow> jsnum \<Rightarrow> exn + int" where
  "owedAmount asset amountUnits =
     (if asset = Eth then unitsToWei amountUnits else BigInt_num amountUnits)"

section \<open>Log decoding\<close>

record RawLog =
  log_address :: string
  log_data :: hex
  log_topics :: "hex list"
  log_txHash :: string
  log_blockNumber :: "int option"

record DecodedBridgeEvent =
  ev :: BridgeEvent
  ev_txHash :: string
  ev_blockNumber :: "int option"

fun decodeBridgeEvents :: "viem \<Rightarrow> RawLog list \<Rightarrow> string \<Rightarrow> DecodedBridgeEvent list" where
  "decodeBridgeEvents v [] bridgeAddress = []"
| "decodeBridgeEvents v (lg # logs) bridgeAddress =
     (if \<not> sameAddress (log_address lg) bridgeAddress then decodeBridgeEvents v logs bridgeAddress
      else case decodeBridge v (log_data lg) (log_topics lg) of
          None \<Rightarrow> decodeBridgeEvents v logs bridgeAddress
        | Some e \<Rightarrow> \<lparr>ev = e, ev_txHash = log_txHash lg, ev_blockNumber = log_blockNumber lg\<rparr>
                     # decodeBridgeEvents v logs bridgeAddress)"

record Erc20Transfer =
  xfer_from :: string
  xfer_to :: string
  xfer_value :: int
  xfer_txHash :: string

fun decodeErc20Transfers :: "viem \<Rightarrow> RawLog list \<Rightarrow> string \<Rightarrow> Erc20Transfer list" where
  "decodeErc20Transfers v [] tokenAddress = []"
| "decodeErc20Transfers v (lg # logs) tokenAddress =
     (if \<not> sameAddress (log_address lg) tokenAddress then decodeErc20Transfers v logs tokenAddress
      else case decodeTransfer v (log_data lg) (log_topics lg) of
          None \<Rightarrow> decodeErc20Transfers v logs tokenAddress
        | Some (f, t, x) \<Rightarrow> \<lparr>xfer_from = f, xfer_to = t, xfer_value = x, xfer_txHash = log_txHash lg\<rparr>
                            # decodeErc20Transfers v logs tokenAddress)"

section \<open>Release verification\<close>

record ExpectedRelease =
  asset :: EvmAsset
  recipient :: string
  amount :: int
  canonicalId :: hex
  bridgeAddress :: string
  usdcAddress :: string

datatype VerifyResult = VOk | VFail string

definition matches_eth :: "ExpectedRelease \<Rightarrow> DecodedBridgeEvent \<Rightarrow> bool" where
  "matches_eth er e =
     (case ev e of
        BridgeReleaseETH r a i \<Rightarrow>
          sameAddress r (recipient er) \<and> amount er \<le> a \<and> sameHex i (canonicalId er)
      | _ \<Rightarrow> False)"

definition matches_erc20 :: "ExpectedRelease \<Rightarrow> DecodedBridgeEvent \<Rightarrow> bool" where
  "matches_erc20 er e =
     (case ev e of
        BridgeReleaseERC20 r t a i \<Rightarrow>
          sameAddress r (recipient er) \<and> sameAddress t (usdcAddress er) \<and> amount er \<le> a \<and>
          sameHex i (canonicalId er)
      | _ \<Rightarrow> False)"

definition matches_transfer :: "ExpectedRelease \<Rightarrow> Erc20Transfer \<Rightarrow> bool" where
  "matches_transfer er t =
     (sameAddress (xfer_from t) (bridgeAddress er) \<and> sameAddress (xfer_to t) (recipient er) \<and>
      amount er \<le> xfer_value t)"

definition verifyReleaseLogs :: "viem \<Rightarrow> RawLog list \<Rightarrow> ExpectedRelease \<Rightarrow> VerifyResult" where
  "verifyReleaseLogs v logs er =
     (let events = decodeBridgeEvents v logs (bridgeAddress er) in
      if asset er = Eth then
        (case find (matches_eth er) events of
           Some _ \<Rightarrow> VOk
         | None \<Rightarrow> VFail ''no matching BridgeReleaseETH from RougeBridge'')
      else case find (matches_erc20 er) events of
          None \<Rightarrow> VFail ''no matching BridgeReleaseERC20(USDC) from RougeBridge''
        | Some _ \<Rightarrow>
            (case find (matches_transfer er) (decodeErc20Transfers v logs (usdcAddress er)) of
               None \<Rightarrow> VFail ''no matching USDC Transfer(from=RougeBridge,to=recipient) from USDC contract''
             | Some _ \<Rightarrow> VOk))"

section \<open>What verification means\<close>

lemma decodeBridgeEvents_mem:
  "(\<exists>d \<in> set (decodeBridgeEvents v logs b). P (ev d)) \<longleftrightarrow>
   (\<exists>lg \<in> set logs. sameAddress (log_address lg) b \<and>
      (\<exists>e. decodeBridge v (log_data lg) (log_topics lg) = Some e \<and> P e))"
  by (induction v logs b rule: decodeBridgeEvents.induct) (auto split: option.splits)

lemma decodeErc20Transfers_mem:
  "(\<exists>d \<in> set (decodeErc20Transfers v logs t). P (xfer_from d) (xfer_to d) (xfer_value d)) \<longleftrightarrow>
   (\<exists>lg \<in> set logs. sameAddress (log_address lg) t \<and>
      (\<exists>f r x. decodeTransfer v (log_data lg) (log_topics lg) = Some (f, r, x) \<and> P f r x))"
proof (induction logs)
  case (Cons lg logs)
  then show ?case
    by (cases "decodeTransfer v (log_data lg) (log_topics lg)") auto
qed simp

text \<open>The promise: a log of the right contract that carries the right event.\<close>

definition released_eth :: "viem \<Rightarrow> RawLog list \<Rightarrow> ExpectedRelease \<Rightarrow> bool" where
  "released_eth v logs er =
     (\<exists>lg \<in> set logs. sameAddress (log_address lg) (bridgeAddress er) \<and>
        (\<exists>r a i. decodeBridge v (log_data lg) (log_topics lg) = Some (BridgeReleaseETH r a i) \<and>
           sameAddress r (recipient er) \<and> amount er \<le> a \<and> sameHex i (canonicalId er)))"

definition released_usdc :: "viem \<Rightarrow> RawLog list \<Rightarrow> ExpectedRelease \<Rightarrow> bool" where
  "released_usdc v logs er =
     ((\<exists>lg \<in> set logs. sameAddress (log_address lg) (bridgeAddress er) \<and>
        (\<exists>r t a i. decodeBridge v (log_data lg) (log_topics lg) = Some (BridgeReleaseERC20 r t a i) \<and>
           sameAddress r (recipient er) \<and> sameAddress t (usdcAddress er) \<and> amount er \<le> a \<and>
           sameHex i (canonicalId er))) \<and>
      (\<exists>lg \<in> set logs. sameAddress (log_address lg) (usdcAddress er) \<and>
        (\<exists>f t x. decodeTransfer v (log_data lg) (log_topics lg) = Some (f, t, x) \<and>
           sameAddress f (bridgeAddress er) \<and> sameAddress t (recipient er) \<and> amount er \<le> x)))"

lemma matches_eth_iff:
  "matches_eth er e \<longleftrightarrow> (\<exists>r a i. ev e = BridgeReleaseETH r a i \<and> sameAddress r (recipient er) \<and>
     amount er \<le> a \<and> sameHex i (canonicalId er))"
  by (cases "ev e") (auto simp: matches_eth_def)

lemma matches_erc20_iff:
  "matches_erc20 er e \<longleftrightarrow> (\<exists>r t a i. ev e = BridgeReleaseERC20 r t a i \<and>
     sameAddress r (recipient er) \<and> sameAddress t (usdcAddress er) \<and> amount er \<le> a \<and>
     sameHex i (canonicalId er))"
  by (cases "ev e") (auto simp: matches_erc20_def)

lemma ex_matches_eth:
  "(\<exists>d \<in> set (decodeBridgeEvents v logs (bridgeAddress er)). matches_eth er d) \<longleftrightarrow>
   released_eth v logs er"
  unfolding matches_eth_iff released_eth_def by (subst decodeBridgeEvents_mem) blast

lemma ex_matches_erc20:
  "(\<exists>d \<in> set (decodeBridgeEvents v logs (bridgeAddress er)). matches_erc20 er d) \<longleftrightarrow>
   (\<exists>lg \<in> set logs. sameAddress (log_address lg) (bridgeAddress er) \<and>
      (\<exists>r t a i. decodeBridge v (log_data lg) (log_topics lg) = Some (BridgeReleaseERC20 r t a i) \<and>
         sameAddress r (recipient er) \<and> sameAddress t (usdcAddress er) \<and> amount er \<le> a \<and>
         sameHex i (canonicalId er)))"
  unfolding matches_erc20_iff by (subst decodeBridgeEvents_mem) blast

lemma ex_matches_transfer:
  "(\<exists>d \<in> set (decodeErc20Transfers v logs (usdcAddress er)). matches_transfer er d) \<longleftrightarrow>
   (\<exists>lg \<in> set logs. sameAddress (log_address lg) (usdcAddress er) \<and>
      (\<exists>f t x. decodeTransfer v (log_data lg) (log_topics lg) = Some (f, t, x) \<and>
         sameAddress f (bridgeAddress er) \<and> sameAddress t (recipient er) \<and> amount er \<le> x))"
  unfolding matches_transfer_def by (subst decodeErc20Transfers_mem) blast

lemma find_case_VOk:
  "(case find P xs of None \<Rightarrow> VFail x | Some _ \<Rightarrow> y) = VOk \<longleftrightarrow> (\<exists>z \<in> set xs. P z) \<and> y = VOk"
  by (induction xs) auto

lemma verifyReleaseLogs_VOk:
  "verifyReleaseLogs v logs er = VOk \<longleftrightarrow>
     (if asset er = Eth then released_eth v logs er else released_usdc v logs er)"
  by (simp add: verifyReleaseLogs_def Let_def find_case_VOk ex_matches_eth ex_matches_erc20
      ex_matches_transfer released_usdc_def)

lemma sameAddress_sym: "sameAddress a b = sameAddress b a"
  by (auto simp: sameAddress_def)

lemma sameAddress_trans: "sameAddress a b \<Longrightarrow> sameAddress b c \<Longrightarrow> sameAddress a c"
  by (auto simp: sameAddress_def)

lemma sameHex_sameAddress: "sameHex = sameAddress"
  by (simp add: fun_eq_iff sameHex_def sameAddress_def)

text \<open>Logs of other contracts play no role.\<close>

definition own_log :: "ExpectedRelease \<Rightarrow> RawLog \<Rightarrow> bool" where
  "own_log er lg = (sameAddress (log_address lg) (bridgeAddress er) \<or> sameAddress (log_address lg) (usdcAddress er))"

lemma decodeBridgeEvents_own:
  "decodeBridgeEvents v (filter (own_log er) logs) (bridgeAddress er) = decodeBridgeEvents v logs (bridgeAddress er)"
  by (induction logs) (auto simp: own_log_def split: option.splits)

lemma decodeErc20Transfers_own:
  "decodeErc20Transfers v (filter (own_log er) logs) (usdcAddress er) = decodeErc20Transfers v logs (usdcAddress er)"
  by (induction logs) (auto simp: own_log_def split: option.splits)

section \<open>Properties\<close>

text \<open>C15: A receipt verifies exactly when its logs hold, from the bridge contract itself, a release event for
  this id to this recipient of at least the owed amount; for USDC also the token's own transfer
  event from the bridge to the recipient.\<close>

theorem verify_accepts_exactly_paying_receipts:
  "verifyReleaseLogs v logs er = VOk \<longleftrightarrow>
     (if asset er = Eth then released_eth v logs er else released_usdc v logs er)"
  by (rule verifyReleaseLogs_VOk)

text \<open>Events emitted by any contract other than the bridge and the configured USDC token cannot change
  the verdict on a receipt.\<close>

theorem foreign_logs_cannot_change_verdict:
  "verifyReleaseLogs v (filter (own_log er) logs) er = verifyReleaseLogs v logs er"
  unfolding verifyReleaseLogs_def decodeBridgeEvents_own decodeErc20Transfers_own by (rule refl)

end
