(* ===== verification/Timelock.thy ===== *)
theory Timelock
  imports Bridge_Events
begin

text \<open>
  Timelock binding, the classification of a withdrawal id the bridge contract already knows, the
  refund gate, and the classification of a release receipt (\<open>scripts/bridge-relayer-core.ts\<close>).
  The last section states the counterpart functions of \<open>core/bridge-exec/src/lib.rs\<close>, which the
  source says these mirror exactly, and relates the two.
\<close>

section \<open>Queue records\<close>

record TimelockRecord =
  tl_token :: string
  tl_to :: string
  tl_amount :: int
  tl_l1TxId :: hex
  tl_executeAfter :: int
  tl_executed :: bool
  tl_cancelled :: bool

record ExpectedTimelock =
  xp_token :: string
  xp_to :: string
  xp_amount :: int
  xp_l1TxId :: hex
  xp_executeAfter :: int

text \<open>The values an ABI getter tuple holds, and the conversions \<open>String\<close>, \<open>BigInt\<close> and
  \<open>Boolean\<close> on them.\<close>

datatype abival = AStr string | AInt int | ABool bool

fun abi_String :: "abival \<Rightarrow> string" where
  "abi_String (AStr s) = s"
| "abi_String (AInt i) = dec_int i"
| "abi_String (ABool b) = (if b then ''true'' else ''false'')"

fun abi_BigInt :: "abival \<Rightarrow> exn + int" where
  "abi_BigInt (AStr s) = (case BigInt_str s of None \<Rightarrow> Inl ''SyntaxError'' | Some i \<Rightarrow> Inr i)"
| "abi_BigInt (AInt i) = Inr i"
| "abi_BigInt (ABool b) = Inr (if b then 1 else 0)"

fun abi_Boolean :: "abival \<Rightarrow> bool" where
  "abi_Boolean (AStr s) = (s \<noteq> '''')"
| "abi_Boolean (AInt i) = (i \<noteq> 0)"
| "abi_Boolean (ABool b) = b"

definition parseTimelockQueueTuple :: "abival list \<Rightarrow> exn + TimelockRecord" where
  "parseTimelockQueueTuple t =
     (if length t < 7 then Inl ''timelockQueue getter returned an unexpected tuple''
      else case abi_BigInt (t ! 2) of
          Inl e \<Rightarrow> Inl e
        | Inr a \<Rightarrow> (case abi_BigInt (t ! 4) of
            Inl e \<Rightarrow> Inl e
          | Inr x \<Rightarrow> Inr \<lparr>tl_token = abi_String (t ! 0), tl_to = abi_String (t ! 1), tl_amount = a,
                         tl_l1TxId = abi_String (t ! 3), tl_executeAfter = x,
                         tl_executed = abi_Boolean (t ! 5), tl_cancelled = abi_Boolean (t ! 6)\<rparr>))"

definition timelockRecordMatches :: "TimelockRecord \<Rightarrow> ExpectedTimelock \<Rightarrow> bool" where
  "timelockRecordMatches rc xp =
     (sameAddress (tl_token rc) (xp_token xp) \<and>
      sameAddress (tl_to rc) (xp_to xp) \<and>
      tl_amount rc = xp_amount xp \<and>
      sameHex (tl_l1TxId rc) (xp_l1TxId xp) \<and>
      tl_executeAfter rc = xp_executeAfter xp)"

definition expectedTimelockFor :: "ExpectedRelease \<Rightarrow> int \<Rightarrow> ExpectedTimelock" where
  "expectedTimelockFor er executeAfter =
     \<lparr>xp_token = (if asset er = Eth then ZERO_ADDRESS else usdcAddress er),
      xp_to = recipient er,
      xp_amount = amount er,
      xp_l1TxId = canonicalId er,
      xp_executeAfter = executeAfter\<rparr>"

section \<open>Classification and the refund gate\<close>

datatype ProcessedClass = Paid | Queued | CancelledRefundCandidate | Ambiguous

record OnChainFacts =
  verifiedRelease :: bool
  queueRecord :: "TimelockRecord option"
  expected :: ExpectedTimelock

definition classifyProcessed :: "OnChainFacts \<Rightarrow> ProcessedClass" where
  "classifyProcessed f =
     (if verifiedRelease f then Paid
      else case queueRecord f of
          None \<Rightarrow> Ambiguous
        | Some rc \<Rightarrow>
            if timelockRecordMatches rc (expected f) then
              (if tl_executed rc then Ambiguous
               else if tl_cancelled rc then CancelledRefundCandidate
               else Queued)
            else Ambiguous)"

datatype RefundDecision = NormalAnalysis | Forbidden | MayProceedAfterCancellationProof

definition refundDecision :: "bool \<Rightarrow> ProcessedClass option \<Rightarrow> RefundDecision" where
  "refundDecision processed cls =
     (if \<not> processed then NormalAnalysis
      else if cls = Some CancelledRefundCandidate then MayProceedAfterCancellationProof
      else Forbidden)"

section \<open>Receipt classification\<close>

datatype ReleaseReceiptClass =
    RVerified
  | RQueued int int TimelockRecord
  | RAmbiguous string "int option"

definition queued_events :: "DecodedBridgeEvent list \<Rightarrow> (int \<times> int) list" where
  "queued_events es =
     List.map_filter (\<lambda>e. case ev e of TimelockQueued r x \<Rightarrow> Some (r, x) | _ \<Rightarrow> None) es"

text \<open>\<open>readTimelockQueue\<close> is the injected getter; its exception is caught.\<close>

definition classifyReleaseReceipt ::
  "viem \<Rightarrow> RawLog list \<Rightarrow> ExpectedRelease \<Rightarrow> (int \<Rightarrow> ('s, TimelockRecord) io)
   \<Rightarrow> ('s, ReleaseReceiptClass) io" where
  "classifyReleaseReceipt v logs er readTimelockQueue =
     (if verifyReleaseLogs v logs er = VOk then ret RVerified
      else case queued_events (decodeBridgeEvents v logs (bridgeAddress er)) of
          [] \<Rightarrow> ret (RAmbiguous ''receipt has neither a matching BridgeRelease nor TimelockQueued from RougeBridge'' None)
        | (requestId, executeAfter) # rest \<Rightarrow>
            if rest \<noteq> [] then ret (RAmbiguous ''receipt has multiple TimelockQueued events'' None)
            else attempt (readTimelockQueue requestId) (\<lambda>r. case r of
                Inl e \<Rightarrow> ret (RAmbiguous (''timelockQueue('' @ dec_int requestId @ '') read failed: '' @ e) (Some requestId))
              | Inr rc \<Rightarrow>
                  if \<not> timelockRecordMatches rc (expectedTimelockFor er executeAfter)
                  then ret (RAmbiguous (''timelockQueue('' @ dec_int requestId @ '') does not bind to this withdrawal'') (Some requestId))
                  else if tl_executed rc \<or> tl_cancelled rc
                  then ret (RAmbiguous (''timelockQueue('' @ dec_int requestId @ '') already executed/cancelled right after queueing'') (Some requestId))
                  else ret (RQueued requestId executeAfter rc)))"

section \<open>Facts\<close>

lemma classifyProcessed_simps:
  "classifyProcessed f = Paid \<longleftrightarrow> verifiedRelease f"
  "classifyProcessed f = Queued \<longleftrightarrow> \<not> verifiedRelease f \<and> (\<exists>rc. queueRecord f = Some rc \<and>
     timelockRecordMatches rc (expected f) \<and> \<not> tl_executed rc \<and> \<not> tl_cancelled rc)"
  "classifyProcessed f = CancelledRefundCandidate \<longleftrightarrow> \<not> verifiedRelease f \<and>
     (\<exists>rc. queueRecord f = Some rc \<and> timelockRecordMatches rc (expected f) \<and>
        \<not> tl_executed rc \<and> tl_cancelled rc)"
  by (auto simp: classifyProcessed_def split: option.splits)

lemma refundDecision_simps:
  "refundDecision p c = NormalAnalysis \<longleftrightarrow> \<not> p"
  "refundDecision p c = MayProceedAfterCancellationProof \<longleftrightarrow> p \<and> c = Some CancelledRefundCandidate"
  by (auto simp: refundDecision_def)

text \<open>The sentinel: without an event-bound \<open>executeAfter\<close> the code expects \<open>-1\<close>, which no
  on-chain record (an unsigned value) carries, so the class cannot be a binding one.\<close>

lemma sentinel_unbound:
  assumes "0 \<le> tl_executeAfter rc"
  shows "\<not> timelockRecordMatches rc (expectedTimelockFor er (- 1))"
  using assms by (auto simp: timelockRecordMatches_def expectedTimelockFor_def)

lemma queued_receipt_sound:
  assumes "classifyReleaseReceipt v logs er rd s = (Inr (RQueued i x rc), s')"
  shows "rd i s = (Inr rc, s') \<and> timelockRecordMatches rc (expectedTimelockFor er x) \<and>
    \<not> tl_executed rc \<and> \<not> tl_cancelled rc"
  using assms
  by (auto simp: classifyReleaseReceipt_def attempt_def ret_def
      split: if_splits list.splits prod.splits sum.splits)

lemma verified_receipt_sound:
  assumes "classifyReleaseReceipt v logs er rd s = (Inr RVerified, s')"
  shows "verifyReleaseLogs v logs er = VOk \<and> s' = s"
  using assms
  by (auto simp: classifyReleaseReceipt_def attempt_def ret_def
      split: if_splits list.splits prod.splits sum.splits)

lemma triple_classifyReleaseReceipt:
  assumes "\<And>i. keeps I (rd i)"
  shows "triple I (classifyReleaseReceipt v logs er rd)
    (\<lambda>c s. I s \<and> (c = RVerified \<longrightarrow> verifyReleaseLogs v logs er = VOk)) (\<lambda>_. I)"
proof (rule tripleI)
  fix s r s'
  assume I: "I s" and run: "classifyReleaseReceipt v logs er rd s = (r, s')"
  have "I s'"
    using run I tripleD [OF assms I]
    by (auto simp: classifyReleaseReceipt_def attempt_def ret_def
        split: if_splits list.splits prod.splits sum.splits)
  moreover have "\<exists>c. r = Inr c"
    using run by (auto simp: classifyReleaseReceipt_def attempt_def ret_def
        split: if_splits list.splits prod.splits sum.splits)
  ultimately show "case r of Inl e \<Rightarrow> I s'
      | Inr c \<Rightarrow> I s' \<and> (c = RVerified \<longrightarrow> verifyReleaseLogs v logs er = VOk)"
    using run by (auto dest: verified_receipt_sound)
qed

section \<open>The Rust counterpart\<close>

text \<open>
  \<open>core/bridge-exec/src/lib.rs\<close>. Its strings are compared with \<open>eq_ignore_ascii_case\<close>; its
  \<open>trim\<close> strips Unicode white space (below 256 that is U+0085 beside the JavaScript set); the id is
  32 raw bytes where the relayer has their \<open>0x\<close> hex text.
\<close>

fun ascii_lower :: "char \<Rightarrow> char" where
  "ascii_lower (Char b0 b1 b2 b3 b4 b5 b6 b7) =
     (let n = (of_char (Char b0 b1 b2 b3 b4 b5 b6 b7) :: nat) in
      if 65 \<le> n \<and> n \<le> 90 then Char b0 b1 b2 b3 b4 True b6 b7
      else Char b0 b1 b2 b3 b4 b5 b6 b7)"

definition eq_ignore_ascii_case :: "string \<Rightarrow> string \<Rightarrow> bool" where
  "eq_ignore_ascii_case a b = (map ascii_lower a = map ascii_lower b)"

definition rust_space :: "char \<Rightarrow> bool" where
  "rust_space c = ((of_char c :: nat) \<in> {9, 10, 11, 12, 13, 32, 133, 160})"

definition rust_trim :: "string \<Rightarrow> string" where
  "rust_trim s = rev (dropWhile rust_space (rev (dropWhile rust_space s)))"

definition payout_route :: "string \<Rightarrow> PayoutRoute" where
  "payout_route canonical_token =
     (let t = rust_trim canonical_token in
      if eq_ignore_ascii_case t ''XRGE'' then RXrge
      else if eq_ignore_ascii_case t ''qETH'' then REth
      else if eq_ignore_ascii_case t ''qUSDC'' then RUsdc
      else if eq_ignore_ascii_case t ''qBTC'' then RBtc
      else RUnsupported)"

record rust_TimelockRecord =
  r_token :: string
  r_to :: string
  r_amount :: int
  r_l1_tx_id :: "nat list"
  r_execute_after :: int
  r_executed :: bool
  r_cancelled :: bool

record rust_ExpectedTimelock =
  rx_token :: string
  rx_to :: string
  rx_amount :: int
  rx_l1_tx_id :: "nat list"
  rx_execute_after :: int

definition timelock_record_matches ::
  "rust_TimelockRecord \<Rightarrow> rust_ExpectedTimelock \<Rightarrow> bool" where
  "timelock_record_matches rc xp =
     (eq_ignore_ascii_case (r_token rc) (rx_token xp) \<and>
      eq_ignore_ascii_case (r_to rc) (rx_to xp) \<and>
      r_amount rc = rx_amount xp \<and>
      r_l1_tx_id rc = rx_l1_tx_id xp \<and>
      r_execute_after rc = rx_execute_after xp)"

definition classify_processed ::
  "bool \<Rightarrow> rust_TimelockRecord option \<Rightarrow> rust_ExpectedTimelock \<Rightarrow> ProcessedClass" where
  "classify_processed verified_release queue xp =
     (if verified_release then Paid
      else case queue of
          Some rc \<Rightarrow>
            if timelock_record_matches rc xp then
              (if r_executed rc then Ambiguous
               else if r_cancelled rc then CancelledRefundCandidate
               else Queued)
            else Ambiguous
        | None \<Rightarrow> Ambiguous)"

definition refund_decision :: "bool \<Rightarrow> ProcessedClass option \<Rightarrow> RefundDecision" where
  "refund_decision processed cls =
     (if \<not> processed then NormalAnalysis
      else case cls of
          Some CancelledRefundCandidate \<Rightarrow> MayProceedAfterCancellationProof
        | _ \<Rightarrow> Forbidden)"

text \<open>The hex text the relayer has for the bytes the daemon has.\<close>

definition hexd :: "nat \<Rightarrow> char" where
  "hexd n = ''0123456789abcdef'' ! n"

definition byte_hex :: "nat \<Rightarrow> string" where
  "byte_hex b = [hexd (b div 16), hexd (b mod 16)]"

definition to_hex0x :: "nat list \<Rightarrow> hex" where
  "to_hex0x bs = ''0x'' @ concat (map byte_hex bs)"

definition rust_record :: "TimelockRecord \<Rightarrow> nat list \<Rightarrow> rust_TimelockRecord" where
  "rust_record rc i =
     \<lparr>r_token = tl_token rc, r_to = tl_to rc, r_amount = tl_amount rc, r_l1_tx_id = i,
      r_execute_after = tl_executeAfter rc, r_executed = tl_executed rc, r_cancelled = tl_cancelled rc\<rparr>"

definition rust_expected :: "ExpectedTimelock \<Rightarrow> nat list \<Rightarrow> rust_ExpectedTimelock" where
  "rust_expected xp i =
     \<lparr>rx_token = xp_token xp, rx_to = xp_to xp, rx_amount = xp_amount xp, rx_l1_tx_id = i,
      rx_execute_after = xp_executeAfter xp\<rparr>"

definition ascii_text :: "string \<Rightarrow> bool" where
  "ascii_text s = (s \<noteq> [] \<and> list_all (\<lambda>c. (of_char c :: nat) < 128) s)"

lemma lower_char_ascii: "(of_char c :: nat) < 128 \<Longrightarrow> lower_char c = ascii_lower c"
proof (cases c)
  case (Char b0 b1 b2 b3 b4 b5 b6 b7)
  assume "(of_char c :: nat) < 128"
  with Char show ?thesis
    by (cases b0; cases b1; cases b2; cases b3; cases b4; cases b5; cases b6; cases b7; simp)
qed

lemma lower_char_high:
  "128 \<le> (of_char c :: nat) \<Longrightarrow> 128 \<le> (of_char (lower_char c) :: nat) \<and> ascii_lower c = c"
proof (cases c)
  case (Char b0 b1 b2 b3 b4 b5 b6 b7)
  assume "128 \<le> (of_char c :: nat)"
  with Char show ?thesis
    by (cases b0; cases b1; cases b2; cases b3; cases b4; cases b5; cases b6; cases b7; simp)
qed

lemma lower_char_eq_ascii:
  "(of_char x :: nat) < 128 \<Longrightarrow> lower_char c = x \<longleftrightarrow> ascii_lower c = x"
  using lower_char_ascii [of c] lower_char_high [of c] by (cases "(of_char c :: nat) < 128") auto

lemma map_lower_eq_ascii:
  "list_all (\<lambda>x. (of_char x :: nat) < 128) xs \<Longrightarrow> map lower_char s = xs \<longleftrightarrow> map ascii_lower s = xs"
proof (induction s arbitrary: xs)
  case (Cons c s)
  show ?case
  proof (cases xs)
    case (Cons x ys)
    with Cons.prems have "(of_char x :: nat) < 128" "list_all (\<lambda>x. (of_char x :: nat) < 128) ys"
      by simp_all
    with Cons.IH [of ys] Cons show ?thesis by (simp add: lower_char_eq_ascii)
  qed simp
qed simp

lemma ascii_text_lower: "ascii_text s \<Longrightarrow> map lower_char s = map ascii_lower s"
  by (auto simp: ascii_text_def list_all_iff lower_char_ascii)

lemma sameAddress_ascii:
  assumes "ascii_text a" and "ascii_text b"
  shows "sameAddress a b = eq_ignore_ascii_case a b"
proof -
  have "a \<noteq> []" "b \<noteq> []" using assms by (simp_all add: ascii_text_def)
  then show ?thesis
    by (simp only: sameAddress_def toLowerCase_def eq_ignore_ascii_case_def
        ascii_text_lower [OF assms(1)] ascii_text_lower [OF assms(2)]) simp
qed

lemma hexd_inject: "m < 16 \<Longrightarrow> n < 16 \<Longrightarrow> hexd m = hexd n \<longleftrightarrow> m = n"
  by (simp add: hexd_def nth_eq_iff_index_eq)

lemma hexd_lower:
  assumes "n < 16"
  shows "lower_char (hexd n) = hexd n"
proof -
  have "\<forall>c \<in> set ''0123456789abcdef''. lower_char c = c" by simp
  moreover have "hexd n \<in> set ''0123456789abcdef''"
    unfolding hexd_def using assms by (intro nth_mem) simp
  ultimately show ?thesis by blast
qed

lemma byte_hex_inject: "a < 256 \<Longrightarrow> b < 256 \<Longrightarrow> byte_hex a = byte_hex b \<longleftrightarrow> a = b"
  by (auto simp: byte_hex_def hexd_inject) (metis div_mult_mod_eq)

lemma concat_byte_hex_inject:
  "list_all (\<lambda>b. b < 256) xs \<Longrightarrow> list_all (\<lambda>b. b < 256) ys \<Longrightarrow>
   concat (map byte_hex xs) = concat (map byte_hex ys) \<longleftrightarrow> xs = ys"
proof (induction xs arbitrary: ys)
  case Nil
  then show ?case by (cases ys) (auto simp: byte_hex_def)
next
  case (Cons x xs)
  have len: "length (byte_hex b) = 2" for b by (simp add: byte_hex_def)
  show ?case
  proof (cases ys)
    case Nil
    then show ?thesis by (simp add: byte_hex_def)
  next
    case (Cons y ys')
    with Cons.prems Cons.IH [of ys'] len show ?thesis
      by (simp add: byte_hex_inject append_eq_append_conv)
  qed
qed

lemma lower_concat_byte_hex:
  "list_all (\<lambda>b. b < 256) xs \<Longrightarrow>
   map lower_char (concat (map byte_hex xs)) = concat (map byte_hex xs)"
  by (induction xs) (auto simp: byte_hex_def hexd_lower)

lemma sameHex_to_hex0x:
  assumes "list_all (\<lambda>b. b < 256) xs" and "list_all (\<lambda>b. b < 256) ys"
  shows "sameHex (to_hex0x xs) (to_hex0x ys) \<longleftrightarrow> xs = ys"
  using assms
  by (simp add: sameHex_def to_hex0x_def toLowerCase_def lower_concat_byte_hex
      concat_byte_hex_inject)

lemma timelock_matches_mirror:
  assumes "ascii_text (tl_token rc)" "ascii_text (tl_to rc)"
    and "ascii_text (xp_token xp)" "ascii_text (xp_to xp)"
    and "list_all (\<lambda>b. b < 256) i" "list_all (\<lambda>b. b < 256) j"
    and "tl_l1TxId rc = to_hex0x i" "xp_l1TxId xp = to_hex0x j"
  shows "timelock_record_matches (rust_record rc i) (rust_expected xp j) = timelockRecordMatches rc xp"
  using assms
  by (simp add: timelock_record_matches_def timelockRecordMatches_def rust_record_def
      rust_expected_def sameAddress_ascii sameHex_to_hex0x)

lemma rust_trim_no_nel:
  assumes "CHR 0x85 \<notin> set s"
  shows "rust_trim s = js_trim s"
proof -
  have sp: "rust_space c = js_space c" if "c \<in> set s" for c
  proof -
    have "c \<noteq> CHR 0x85" using assms that by blast
    then have "(of_char c :: nat) \<noteq> of_char (CHR 0x85)"
      using of_char_eq_iff by blast
    then have "(of_char c :: nat) \<noteq> 133" by simp
    then show ?thesis by (auto simp: rust_space_def js_space_def)
  qed
  have 1: "dropWhile rust_space s = dropWhile js_space s"
    using sp by (intro dropWhile_cong) auto
  have "dropWhile rust_space (rev (dropWhile js_space s)) =
        dropWhile js_space (rev (dropWhile js_space s))"
    using sp by (intro dropWhile_cong) (auto dest: set_dropWhileD)
  with 1 show ?thesis by (simp add: rust_trim_def js_trim_def trimStart_def)
qed

lemma payout_route_mirror:
  assumes "CHR 0x85 \<notin> set s"
  shows "payout_route s = payoutRoute s"
  by (simp add: payout_route_def payoutRoute_def Let_def rust_trim_no_nel [OF assms]
      eq_ignore_ascii_case_def toLowerCase_def map_lower_eq_ascii)

lemma classify_mirror:
  assumes "\<And>rc. queueRecord f = Some rc \<Longrightarrow>
     timelock_record_matches (rust_record rc (i rc)) (rust_expected (expected f) j) = timelockRecordMatches rc (expected f)"
  shows "classify_processed (verifiedRelease f) (map_option (\<lambda>rc. rust_record rc (i rc)) (queueRecord f))
     (rust_expected (expected f) j) = classifyProcessed f"
  using assms by (cases "queueRecord f") (auto simp: classify_processed_def classifyProcessed_def rust_record_def)

lemma refund_mirror: "refund_decision p c = refundDecision p c"
  by (auto simp: refund_decision_def refundDecision_def split: option.splits ProcessedClass.splits)

section \<open>Properties\<close>

text \<open>C16: A release receipt is classified as queued only when it does not verify as paid, holds exactly one
  queue event of the bridge, and the record the getter returned for that request binds to the
  withdrawal and is neither executed nor cancelled.\<close>

theorem queued_receipt_is_bound:
  assumes "classifyReleaseReceipt v logs er rd s = (Inr (RQueued i x rc), s')"
  shows "verifyReleaseLogs v logs er \<noteq> VOk \<and>
    queued_events (decodeBridgeEvents v logs (bridgeAddress er)) = [(i, x)] \<and> rd i s = (Inr rc, s') \<and>
    timelockRecordMatches rc (expectedTimelockFor er x) \<and> \<not> tl_executed rc \<and> \<not> tl_cancelled rc"
  using assms queued_receipt_sound [OF assms]
  by (auto simp: classifyReleaseReceipt_def attempt_def ret_def
      split: if_splits list.splits prod.splits sum.splits)

definition queue_viem :: viem where
  "queue_viem = \<lparr>keccak256 = (\<lambda>bs. ''0xa1''), stringToBytes = (\<lambda>s. []), isAddress = (\<lambda>a. True),
     getAddress = Inr, decodeBridge = (\<lambda>dt ts. Some (TimelockQueued 7 9)), decodeTransfer = (\<lambda>dt ts. None)\<rparr>"

theorem queued_receipt_is_bound_witness:
  "timelockRecordMatches \<lparr>tl_token = ZERO_ADDRESS, tl_to = ''0xcc'', tl_amount = 5, tl_l1TxId = ''0xa1'',
      tl_executeAfter = 9, tl_executed = False, tl_cancelled = False\<rparr>
     (expectedTimelockFor \<lparr>asset = Eth, recipient = ''0xcc'', amount = 5, canonicalId = ''0xa1'',
        bridgeAddress = ''0xbb'', usdcAddress = ''0xdd''\<rparr> 9)"
  using queued_receipt_is_bound [of queue_viem
      "[\<lparr>log_address = ''0xbb'', log_data = '''', log_topics = [], log_txHash = '''', log_blockNumber = None\<rparr>]"
      "\<lparr>asset = Eth, recipient = ''0xcc'', amount = 5, canonicalId = ''0xa1'', bridgeAddress = ''0xbb'',
        usdcAddress = ''0xdd''\<rparr>"
      "\<lambda>i s. (Inr \<lparr>tl_token = ZERO_ADDRESS, tl_to = ''0xcc'', tl_amount = 5, tl_l1TxId = ''0xa1'',
        tl_executeAfter = 9, tl_executed = False, tl_cancelled = False\<rparr>, s)" "()" 7 9]
  by (simp add: classifyReleaseReceipt_def queue_viem_def verifyReleaseLogs_def matches_eth_def sameAddress_def
      sameHex_def queued_events_def map_filter_simps attempt_def ret_def timelockRecordMatches_def
      expectedTimelockFor_def ZERO_ADDRESS_def)

end
