(* ===== verification/Evm_Payout.thy ===== *)
theory Evm_Payout
  imports Timelock
begin

text \<open>
  The qETH/qUSDC payout orchestration of \<open>scripts/bridge-relayer-core.ts\<close>: reconciliation of an
  id the bridge contract already processed, the confirmation-depth gate, the refund gate, the
  failure path, the handler of one pending withdrawal and the poll over timelock-queued ones, with
  the observation mode. Every dependency the source injects (chain reads and writes, daemon calls,
  persistence, alerts, the clock) is an effect on the world; console output is not modelled.
\<close>

section \<open>Persisted queue state\<close>

datatype QueuedStatus = SQueued | SCancelledRefundCandidate | SAmbiguous

record QueuedRecord =
  q_stored_tx_id :: string
  q_canonical_l1_tx_id :: hex
  q_request_id :: string
  q_asset :: EvmAsset
  q_recipient :: string
  q_amount :: string
  q_execute_after :: string
  q_release_submission_tx_hash :: string
  q_status :: QueuedStatus
  q_note :: string
  q_updated_at :: string

type_synonym QueuedState = "(string, QueuedRecord) jsmap"

definition queuedKey :: "string \<Rightarrow> string" where
  "queuedKey i = toLowerCase i"

section \<open>Injected dependencies\<close>

datatype receipt_status = Success | Reverted

record ReceiptLike =
  rc_status :: receipt_status
  rc_logs :: "RawLog list"
  rc_blockNumber :: "int option"

record 'w EvmChainDeps =
  d_releaseETH :: "string \<Rightarrow> int \<Rightarrow> hex \<Rightarrow> int \<Rightarrow> ('w, hex) eff"
  d_releaseERC20 :: "string \<Rightarrow> string \<Rightarrow> int \<Rightarrow> hex \<Rightarrow> int \<Rightarrow> ('w, hex) eff"
  d_waitForReceipt :: "hex \<Rightarrow> ('w, ReceiptLike) eff"
  d_getReceipt :: "hex \<Rightarrow> ('w, ReceiptLike option) eff"
  d_processedL1Txs :: "hex \<Rightarrow> ('w, bool) eff"
  d_headBlock :: "('w, int) eff"
  d_timelockQueue :: "int \<Rightarrow> bool \<Rightarrow> ('w, TimelockRecord) eff"
  d_findReleaseTxHashes :: "ExpectedRelease \<Rightarrow> ('w, hex list) eff"
  d_findQueuedRequestIds :: "('w, int list) eff"
  d_findTimelockQueuedEvent :: "int \<Rightarrow> ('w, (int \<times> string) option) eff"
  d_findTimelockExecutedTxHashes :: "int \<Rightarrow> ('w, hex list) eff"
  d_findTimelockCancelled :: "int \<Rightarrow> ('w, bool) eff"
  d_getNonce :: "('w, int) eff"
  d_resetNonce :: "('w, unit) eff"

record 'w DaemonDeps =
  d_fulfill :: "string \<Rightarrow> hex \<Rightarrow> ('w, bool) eff"
  d_reportFailure :: "string \<Rightarrow> string \<Rightarrow> ('w, bool \<times> int) eff"
  d_refund :: "string \<Rightarrow> ('w, bool) eff"

text \<open>\<open>dp_maxRetries\<close> comes from \<open>parseInt\<close>: \<^const>\<open>None\<close> is the \<open>NaN\<close> it can return. \<open>dp_env\<close>
  is \<open>process.env\<close>, \<open>d_now\<close> the clock behind \<open>new Date().toISOString()\<close>.\<close>

record 'w EvmPayoutDeps =
  dp_viem :: viem
  dp_bridgeAddress :: string
  dp_usdcAddress :: string
  dp_autoRefund :: bool
  dp_maxRetries :: "int option"
  d_markProcessed :: "string \<Rightarrow> ('w, unit) eff"
  d_saveQueued :: "QueuedState \<Rightarrow> ('w, unit) eff"
  dp_chain :: "'w EvmChainDeps"
  dp_daemon :: "'w DaemonDeps"
  d_alert :: "string \<Rightarrow> ('w, unit) eff"
  d_sleep :: "int \<Rightarrow> ('w, unit) eff"
  d_now :: "('w, string) eff"
  dp_fulfillConfirmations :: "jsnum option"
  dp_observeOnly :: bool
  dp_env :: env

datatype evm_event =
    EvReleaseETH string int hex int "exn + hex"
  | EvReleaseERC20 string string int hex int "exn + hex"
  | EvWaitReceipt hex "exn + ReceiptLike"
  | EvGetReceipt hex "exn + ReceiptLike option"
  | EvProcessed hex "exn + bool"
  | EvHead "exn + int"
  | EvTimelock int bool "exn + TimelockRecord"
  | EvFindReleases hex "exn + hex list"
  | EvFindQueued "exn + int list"
  | EvFindQueuedEvent int "exn + (int \<times> string) option"
  | EvFindExecuted int "exn + hex list"
  | EvFindCancelled int "exn + bool"
  | EvFulfill string hex "exn + bool"
  | EvReportFailure string string "exn + (bool \<times> int)"
  | EvRefund string "exn + bool"
  | EvMark string "exn + unit"
  | EvSave "exn + unit"
  | EvAlert string "exn + unit"

record 'w evm_state = "('w, evm_event) io_state" +
  queued :: QueuedState

definition releaseETH where
  "releaseETH d to wei i n = call (EvReleaseETH to wei i n) (d_releaseETH (dp_chain d) to wei i n)"

definition releaseERC20 where
  "releaseERC20 d tok to amt i n =
     call (EvReleaseERC20 tok to amt i n) (d_releaseERC20 (dp_chain d) tok to amt i n)"

definition waitForReceipt where
  "waitForReceipt d h = call (EvWaitReceipt h) (d_waitForReceipt (dp_chain d) h)"

definition getReceipt where
  "getReceipt d h = call (EvGetReceipt h) (d_getReceipt (dp_chain d) h)"

definition processedL1Txs where
  "processedL1Txs d i = call (EvProcessed i) (d_processedL1Txs (dp_chain d) i)"

definition headBlock where
  "headBlock d = call EvHead (d_headBlock (dp_chain d))"

definition timelockQueue where
  "timelockQueue d r c = call (EvTimelock r c) (d_timelockQueue (dp_chain d) r c)"

definition findReleaseTxHashes where
  "findReleaseTxHashes d er =
     call (EvFindReleases (canonicalId er)) (d_findReleaseTxHashes (dp_chain d) er)"

definition findQueuedRequestIds where
  "findQueuedRequestIds d = call EvFindQueued (d_findQueuedRequestIds (dp_chain d))"

definition findTimelockQueuedEvent where
  "findTimelockQueuedEvent d r = call (EvFindQueuedEvent r) (d_findTimelockQueuedEvent (dp_chain d) r)"

definition findTimelockExecutedTxHashes where
  "findTimelockExecutedTxHashes d r =
     call (EvFindExecuted r) (d_findTimelockExecutedTxHashes (dp_chain d) r)"

definition findTimelockCancelled where
  "findTimelockCancelled d r = call (EvFindCancelled r) (d_findTimelockCancelled (dp_chain d) r)"

definition fulfill where
  "fulfill d t h = call (EvFulfill t h) (d_fulfill (dp_daemon d) t h)"

definition reportFailure where
  "reportFailure d t e = call (EvReportFailure t e) (d_reportFailure (dp_daemon d) t e)"

definition refund where
  "refund d t = call (EvRefund t) (d_refund (dp_daemon d) t)"

definition markProcessed where
  "markProcessed d t = call (EvMark t) (d_markProcessed d t)"

definition saveQueued :: "'w EvmPayoutDeps \<Rightarrow> ('w evm_state, unit) io" where
  "saveQueued d s = call EvSave (d_saveQueued d (queued s)) s"

definition alert where
  "alert d key = call (EvAlert key) (d_alert d key)"

lemmas evm_call_defs = releaseETH_def releaseERC20_def waitForReceipt_def getReceipt_def
  processedL1Txs_def headBlock_def timelockQueue_def findReleaseTxHashes_def
  findQueuedRequestIds_def findTimelockQueuedEvent_def findTimelockExecutedTxHashes_def
  findTimelockCancelled_def fulfill_def reportFailure_def refund_def markProcessed_def alert_def

section \<open>Expected release, environment toggles, depth\<close>

definition expectedReleaseFor ::
  "viem \<Rightarrow> NormalizedEvmWithdrawal \<Rightarrow> EvmAsset \<Rightarrow> string \<Rightarrow> string \<Rightarrow> exn + ExpectedRelease" where
  "expectedReleaseFor v w a bridgeAddr usdcAddr =
     (case getAddress v (evm_address w) of
        Inl e \<Rightarrow> Inl e
      | Inr r \<Rightarrow> (case owedAmount a (amount_units w) of
          Inl e \<Rightarrow> Inl e
        | Inr n \<Rightarrow> Inr \<lparr>asset = a, recipient = r, amount = n,
                       canonicalId = rougeBridgeId v (tx_id w),
                       bridgeAddress = bridgeAddr, usdcAddress = usdcAddr\<rparr>))"

definition env_or_empty :: "env \<Rightarrow> string \<Rightarrow> string" where
  "env_or_empty e k = (case e k of None \<Rightarrow> '''' | Some s \<Rightarrow> s)"

definition env_or :: "env \<Rightarrow> string \<Rightarrow> string \<Rightarrow> string" where
  "env_or e k dflt = str_or (env_or_empty e k) dflt"

definition autoRefundEnabled :: "env \<Rightarrow> bool" where
  "autoRefundEnabled e = (toLowerCase (js_trim (env_or_empty e ''AUTO_REFUND'')) = ''true'')"

definition observeOnlyEnabled :: "env \<Rightarrow> bool" where
  "observeOnlyEnabled e =
     (toLowerCase (js_trim (env_or_empty e ''BRIDGE_OBSERVE_ONLY'')) = ''true'')"

definition daemonMinConfirmations :: "env \<Rightarrow> jsnum" where
  "daemonMinConfirmations e =
     (let n = parseInt10 (env_or_empty e ''QV_BRIDGE_MIN_CONFIRMATIONS'') in
      if isFinite n \<and> num_less (JInt 0) n then n else JInt 6)"

definition evmFulfillDepth :: "'w EvmPayoutDeps \<Rightarrow> jsnum" where
  "evmFulfillDepth d =
     Math_max (case dp_fulfillConfirmations d of None \<Rightarrow> JInt 0 | Some n \<Rightarrow> n)
              (daemonMinConfirmations (dp_env d))"

section \<open>Observation mode\<close>

datatype ObserveTag =
    WOULD_RELEASE | WOULD_FULFILL | WOULD_REFUND | WOULD_CLAIM_DEPOSIT
  | WOULD_REPORT_FAILURE | WOULD_PERSIST | WOULD_SWEEP | WOULD_WRITE

fun tag_text :: "ObserveTag \<Rightarrow> string" where
  "tag_text WOULD_RELEASE = ''WOULD_RELEASE''"
| "tag_text WOULD_FULFILL = ''WOULD_FULFILL''"
| "tag_text WOULD_REFUND = ''WOULD_REFUND''"
| "tag_text WOULD_CLAIM_DEPOSIT = ''WOULD_CLAIM_DEPOSIT''"
| "tag_text WOULD_REPORT_FAILURE = ''WOULD_REPORT_FAILURE''"
| "tag_text WOULD_PERSIST = ''WOULD_PERSIST''"
| "tag_text WOULD_SWEEP = ''WOULD_SWEEP''"
| "tag_text WOULD_WRITE = ''WOULD_WRITE''"

text \<open>The message of \<open>ObserveOnlyViolation\<close> (the arrow in the release details is written \<open>->\<close>).\<close>

definition observe_violation :: "ObserveTag \<Rightarrow> string \<Rightarrow> exn" where
  "observe_violation tag detail = ''[OBSERVE] refused '' @ tag_text tag @ '': '' @ detail"

definition observeRefuse :: "ObserveTag \<Rightarrow> string \<Rightarrow> ('s, 'a) io" where
  "observeRefuse tag detail = throw (observe_violation tag detail)"

definition guardWrite :: "bool \<Rightarrow> ObserveTag \<Rightarrow> string \<Rightarrow> ('w, 'a) eff \<Rightarrow> ('w, 'a) eff" where
  "guardWrite obs tag detail fn =
     (if \<not> obs then fn else (\<lambda>w. (Inl (observe_violation tag detail), w)))"

definition observeGuardedDeps :: "'w EvmPayoutDeps \<Rightarrow> 'w EvmPayoutDeps" where
  "observeGuardedDeps d = d\<lparr>
     dp_observeOnly := True,
     d_markProcessed := (\<lambda>i. guardWrite True WOULD_PERSIST (''markProcessed '' @ i) (d_markProcessed d i)),
     d_saveQueued := (\<lambda>q. guardWrite True WOULD_PERSIST ''queued-state file'' (d_saveQueued d q)),
     dp_chain := (dp_chain d)\<lparr>
       d_releaseETH := (\<lambda>to wei i n. guardWrite True WOULD_RELEASE
          (''releaseETH '' @ dec_int wei @ '' wei -> '' @ to @ '' l1TxId='' @ i)
          (d_releaseETH (dp_chain d) to wei i n)),
       d_releaseERC20 := (\<lambda>tok to amt i n. guardWrite True WOULD_RELEASE
          (''releaseERC20 '' @ dec_int amt @ '' of '' @ tok @ '' -> '' @ to @ '' l1TxId='' @ i)
          (d_releaseERC20 (dp_chain d) tok to amt i n))\<rparr>,
     dp_daemon := \<lparr>
       d_fulfill = (\<lambda>t h. guardWrite True WOULD_FULFILL (t @ '' via '' @ h) (d_fulfill (dp_daemon d) t h)),
       d_reportFailure = (\<lambda>t e. guardWrite True WOULD_REPORT_FAILURE (t @ '': '' @ e)
          (d_reportFailure (dp_daemon d) t e)),
       d_refund = (\<lambda>t. guardWrite True WOULD_REFUND t (d_refund (dp_daemon d) t))\<rparr>\<rparr>"

section \<open>Queue persistence\<close>

record persist_fields =
  f_request_id :: string
  f_execute_after :: string
  f_release_submission_tx_hash :: string
  f_status :: QueuedStatus
  f_note :: string

definition persistQueued ::
  "'w EvmPayoutDeps \<Rightarrow> NormalizedEvmWithdrawal \<Rightarrow> ExpectedRelease \<Rightarrow> persist_fields
   \<Rightarrow> ('w evm_state, unit) io" where
  "persistQueued d w er f =
     (if dp_observeOnly d then observeRefuse WOULD_PERSIST ''persistQueued reached in observation mode''
      else bnd (quiet (d_now d)) (\<lambda>t.
        bnd (modify (\<lambda>s. s\<lparr>queued := map_set (queuedKey (canonicalId er))
            \<lparr>q_stored_tx_id = tx_id w, q_canonical_l1_tx_id = canonicalId er,
             q_request_id = f_request_id f, q_asset = asset er, q_recipient = recipient er,
             q_amount = dec_int (amount er), q_execute_after = f_execute_after f,
             q_release_submission_tx_hash = f_release_submission_tx_hash f,
             q_status = f_status f, q_note = f_note f, q_updated_at = t\<rparr> (queued s)\<rparr>)) (\<lambda>_.
        saveQueued d)))"

section \<open>Reconciliation\<close>

record ReconcileResult =
  rr_cls :: ProcessedClass
  rr_paidTxHash :: string
  rr_requestId :: "int option"
  rr_record :: "TimelockRecord option"
  rr_executeAfter :: "int option"
  rr_reason :: string
  rr_scanFailed :: bool

text \<open>The loop over candidate transaction hashes: the first whose receipt succeeded and verifies.\<close>

definition receipt_pays :: "viem \<Rightarrow> ExpectedRelease \<Rightarrow> ReceiptLike \<Rightarrow> bool" where
  "receipt_pays v er rc = (rc_status rc = Success \<and> verifyReleaseLogs v (rc_logs rc) er = VOk)"

fun firstVerified ::
  "'w EvmPayoutDeps \<Rightarrow> ExpectedRelease \<Rightarrow> hex list \<Rightarrow> ('w evm_state, hex option) io" where
  "firstVerified d er [] = ret None"
| "firstVerified d er (h # hs) =
     bnd (getReceipt d h) (\<lambda>rcpt.
       case rcpt of
         Some rc \<Rightarrow> if receipt_pays (dp_viem d) er rc then ret (Some h) else firstVerified d er hs
       | None \<Rightarrow> firstVerified d er hs)"

text \<open>The loop over queued request ids. The assignment to \<open>requestId\<close> precedes the event lookup, so
  a lookup that throws leaves the id set and only marks the scan as failed.\<close>

fun scanRequestIds ::
  "'w EvmPayoutDeps \<Rightarrow> ExpectedRelease \<Rightarrow> int list
   \<Rightarrow> ('w evm_state, int option \<times> int option \<times> bool) io" where
  "scanRequestIds d er [] = ret (None, None, False)"
| "scanRequestIds d er (rid # rids) =
     attempt (timelockQueue d rid False) (\<lambda>r. case r of
         Inl e \<Rightarrow> ret (None, None, True)
       | Inr rc \<Rightarrow>
           if sameHex (tl_l1TxId rc) (canonicalId er) then
             attempt (findTimelockQueuedEvent d rid) (\<lambda>r'. case r' of
                 Inl e \<Rightarrow> ret (Some rid, None, True)
               | Inr qe \<Rightarrow> ret (Some rid, map_option fst qe, False))
           else scanRequestIds d er rids)"

definition locateRequest ::
  "'w EvmPayoutDeps \<Rightarrow> ExpectedRelease \<Rightarrow> bool \<Rightarrow> QueuedRecord option
   \<Rightarrow> ('w evm_state, int option \<times> int option \<times> bool) io" where
  "locateRequest d er verified loc =
     (let scan = (if \<not> verified then
                    attempt (findQueuedRequestIds d) (\<lambda>r. case r of
                        Inl e \<Rightarrow> ret (None, None, True)
                      | Inr rids \<Rightarrow> scanRequestIds d er rids)
                  else ret (None, None, False))
      in case loc of
          None \<Rightarrow> scan
        | Some l \<Rightarrow>
            if q_request_id l \<noteq> '''' \<and> q_execute_after l \<noteq> '''' then
              bnd (lift_opt ''SyntaxError'' (BigInt_str (q_request_id l))) (\<lambda>i.
              bnd (lift_opt ''SyntaxError'' (BigInt_str (q_execute_after l))) (\<lambda>x.
              ret (Some i, Some x, False)))
            else scan)"

text \<open>Steps 2 and 3 of the reconciliation, after the release-log scan ended with \<open>r1\<close>: locate the
  bound queue record, read it, classify.\<close>

definition reconcileQueued ::
  "ExpectedRelease \<Rightarrow> 'w EvmPayoutDeps \<Rightarrow> exn + hex option \<Rightarrow> ('w evm_state, ReconcileResult) io" where
  "reconcileQueued er d r1 =
     (let verified = (case r1 of Inr (Some h) \<Rightarrow> True | _ \<Rightarrow> False);
          paid = (case r1 of Inr (Some h) \<Rightarrow> h | _ \<Rightarrow> '''');
          sf1 = (case r1 of Inl e \<Rightarrow> True | Inr x \<Rightarrow> False)
      in bnd (gets (\<lambda>s. map_get (queued s) (queuedKey (canonicalId er)))) (\<lambda>loc.
         bnd (locateRequest d er verified loc) (\<lambda>(requestId, executeAfter, sf2).
         bnd (case requestId of
                None \<Rightarrow> ret None
              | Some i \<Rightarrow> attempt (timelockQueue d i False) (\<lambda>r. case r of
                    Inl e \<Rightarrow> ret None | Inr rc \<Rightarrow> ret (Some rc))) (\<lambda>rec.
         let cls = classifyProcessed \<lparr>verifiedRelease = verified, queueRecord = rec,
                expected = expectedTimelockFor er (case executeAfter of None \<Rightarrow> - 1 | Some x \<Rightarrow> x)\<rparr>
         in ret \<lparr>rr_cls = cls, rr_paidTxHash = paid, rr_requestId = requestId, rr_record = rec,
                 rr_executeAfter = executeAfter, rr_reason = '''',
                 rr_scanFailed = ((sf1 \<or> sf2) \<and> cls \<noteq> Paid)\<rparr>))))"

definition reconcileProcessedId ::
  "ExpectedRelease \<Rightarrow> 'w EvmPayoutDeps \<Rightarrow> ('w evm_state, ReconcileResult) io" where
  "reconcileProcessedId er d =
     attempt (bnd (findReleaseTxHashes d er) (firstVerified d er)) (reconcileQueued er d)"

text \<open>The confirmation depth of a transaction mined in block \<open>b\<close>.\<close>

definition depth_at :: "int \<Rightarrow> int \<Rightarrow> int" where
  "depth_at head b = (if head \<ge> b then head - b + 1 else 0)"

definition payoutDeepEnough ::
  "hex \<Rightarrow> int option \<Rightarrow> 'w EvmPayoutDeps \<Rightarrow> ('w evm_state, bool) io" where
  "payoutDeepEnough hash knownBlock d =
     try_catch
       (bnd (case knownBlock of
               Some b \<Rightarrow> ret (Some b)
             | None \<Rightarrow> bnd (getReceipt d hash) (\<lambda>r. ret (case r of None \<Rightarrow> None | Some rc \<Rightarrow> rc_blockNumber rc)))
        (\<lambda>block. case block of
            None \<Rightarrow> ret False
          | Some b \<Rightarrow> bnd (headBlock d) (\<lambda>head.
              ret (\<not> num_less (JInt (depth_at head b)) (evmFulfillDepth d)))))
       (\<lambda>e. ret False)"

datatype PayoutOutcome =
    awaiting_confirmations | observed | fulfilled | queued_outcome | reconciled_paid
  | reconciled_queued | cancelled_refund_candidate | ambiguous | skipped_unsupported
  | skipped_invalid | skipped_no_bridge | skipped_queued | skipped_rpc | fulfill_api_failed
  | failed | refunded

definition opt_dec :: "int option \<Rightarrow> string" where
  "opt_dec i = (case i of None \<Rightarrow> '''' | Some n \<Rightarrow> dec_int n)"

text \<open>\<open>x!.toString()\<close>: a \<open>TypeError\<close> when \<open>x\<close> is undefined.\<close>

definition must_dec :: "int option \<Rightarrow> ('s, string) io" where
  "must_dec i = bnd (lift_opt ''TypeError'' i) (\<lambda>n. ret (dec_int n))"

definition prior_release_hash :: "ExpectedRelease \<Rightarrow> 'w evm_state \<Rightarrow> string" where
  "prior_release_hash er s =
     (case map_get (queued s) (queuedKey (canonicalId er)) of
        None \<Rightarrow> '''' | Some l \<Rightarrow> q_release_submission_tx_hash l)"

definition applyReconciliation ::
  "NormalizedEvmWithdrawal \<Rightarrow> ExpectedRelease \<Rightarrow> ReconcileResult \<Rightarrow> 'w EvmPayoutDeps \<Rightarrow> string
   \<Rightarrow> ('w evm_state, PayoutOutcome) io" where
  "applyReconciliation w er r d ctx =
     (if dp_observeOnly d
      then observeRefuse WOULD_FULFILL ''applyReconciliation reached in observation mode''
      else if rr_scanFailed r then ret skipped_rpc
      else case rr_cls r of
          Paid \<Rightarrow>
            bnd (payoutDeepEnough (rr_paidTxHash r) None d) (\<lambda>deep.
            if \<not> deep then ret awaiting_confirmations
            else bnd (fulfill d (tx_id w) (rr_paidTxHash r)) (\<lambda>ok.
              if ok then
                bnd (markProcessed d (tx_id w)) (\<lambda>_.
                bnd (modify (\<lambda>s. s\<lparr>queued := map_delete (queuedKey (canonicalId er)) (queued s)\<rparr>)) (\<lambda>_.
                bnd (saveQueued d) (\<lambda>_.
                ret reconciled_paid)))
              else ret fulfill_api_failed))
        | Queued \<Rightarrow>
            bnd (must_dec (rr_requestId r)) (\<lambda>rid.
            bnd (must_dec (rr_executeAfter r)) (\<lambda>xa.
            bnd (gets (prior_release_hash er)) (\<lambda>h.
            bnd (persistQueued d w er \<lparr>f_request_id = rid, f_execute_after = xa,
                   f_release_submission_tx_hash = h, f_status = SQueued, f_note = ''''\<rparr>) (\<lambda>_.
            ret reconciled_queued))))
        | CancelledRefundCandidate \<Rightarrow>
            bnd (must_dec (rr_requestId r)) (\<lambda>rid.
            bnd (must_dec (rr_executeAfter r)) (\<lambda>xa.
            bnd (gets (prior_release_hash er)) (\<lambda>h.
            bnd (persistQueued d w er \<lparr>f_request_id = rid, f_execute_after = xa,
                   f_release_submission_tx_hash = h, f_status = SCancelledRefundCandidate,
                   f_note = ''''\<rparr>) (\<lambda>_.
            bnd (alert d (''cancelled:'' @ tx_id w)) (\<lambda>_.
            ret cancelled_refund_candidate)))))
        | Ambiguous \<Rightarrow>
            bnd (gets (prior_release_hash er)) (\<lambda>h.
            bnd (persistQueued d w er \<lparr>f_request_id = opt_dec (rr_requestId r),
                   f_execute_after = opt_dec (rr_executeAfter r),
                   f_release_submission_tx_hash = h, f_status = SAmbiguous,
                   f_note = str_or (rr_reason r) ctx\<rparr>) (\<lambda>_.
            bnd (alert d (''ambiguous:'' @ tx_id w)) (\<lambda>_.
            ret ambiguous))))"

section \<open>Refund gate and failure path\<close>

text \<open>The refund gate once the expected release is known: \<open>processedL1Txs\<close> decides.\<close>

definition refundOnTruth ::
  "NormalizedEvmWithdrawal \<Rightarrow> ExpectedRelease \<Rightarrow> 'w EvmPayoutDeps \<Rightarrow> ('w evm_state, bool) io" where
  "refundOnTruth w er d =
     attempt (processedL1Txs d (canonicalId er)) (\<lambda>rp. case rp of
         Inl e \<Rightarrow> bnd (alert d (''refund-rpc:'' @ tx_id w)) (\<lambda>_. ret False)
       | Inr processed \<Rightarrow>
           bnd (if processed then bnd (reconcileProcessedId er d) (\<lambda>r. ret (Some (rr_cls r)))
                else ret None) (\<lambda>cls.
           case refundDecision processed cls of
             NormalAnalysis \<Rightarrow>
               bnd (refund d (tx_id w)) (\<lambda>done.
               if done then
                 bnd (alert d (''refund:'' @ tx_id w)) (\<lambda>_.
                 bnd (markProcessed d (tx_id w)) (\<lambda>_. ret True))
               else ret False)
           | MayProceedAfterCancellationProof \<Rightarrow>
               bnd (alert d (''refund-candidate:'' @ tx_id w)) (\<lambda>_. ret False)
           | Forbidden \<Rightarrow> ret False))"

definition guardedRefund ::
  "NormalizedEvmWithdrawal \<Rightarrow> PayoutRoute \<Rightarrow> 'w EvmPayoutDeps \<Rightarrow> ('w evm_state, bool) io" where
  "guardedRefund w route d =
     (if dp_observeOnly d
      then observeRefuse WOULD_REFUND ''guardedRefund reached in observation mode''
      else case evm_asset route of
          None \<Rightarrow> ret False
        | Some a \<Rightarrow>
            if dp_bridgeAddress d = '''' then ret False
            else bnd (lift_sum (expectedReleaseFor (dp_viem d) w a (dp_bridgeAddress d) (dp_usdcAddress d))) (\<lambda>er.
              refundOnTruth w er d))"

fun asset_route :: "EvmAsset \<Rightarrow> PayoutRoute" where
  "asset_route Eth = REth"
| "asset_route Usdc = RUsdc"

definition handleEvmFailure ::
  "NormalizedEvmWithdrawal \<Rightarrow> ExpectedRelease \<Rightarrow> string \<Rightarrow> 'w EvmPayoutDeps
   \<Rightarrow> ('w evm_state, PayoutOutcome) io" where
  "handleEvmFailure w er err d =
     (if dp_observeOnly d
      then observeRefuse WOULD_REPORT_FAILURE ''handleEvmFailure reached in observation mode''
      else attempt (processedL1Txs d (canonicalId er)) (\<lambda>rp. case rp of
          Inl e \<Rightarrow> bnd (alert d (''rpc:'' @ tx_id w)) (\<lambda>_. ret skipped_rpc)
        | Inr processed \<Rightarrow>
            if processed then
              bnd (reconcileProcessedId er d) (\<lambda>r.
              applyReconciliation w er r d (''after error: '' @ err))
            else bnd (reportFailure d (tx_id w) err) (\<lambda>(shouldRefund, attempts).
              bnd (if attempts \<ge> 3 then alert d (tx_id w) else ret ()) (\<lambda>_.
              if shouldRefund \<and> dp_autoRefund d then
                bnd (guardedRefund w (asset_route (asset er)) d) (\<lambda>done.
                ret (if done then refunded else failed))
              else ret failed))))"

section \<open>One pending withdrawal\<close>

definition sendRelease :: "'w EvmPayoutDeps \<Rightarrow> ExpectedRelease \<Rightarrow> ('w evm_state, hex) io" where
  "sendRelease d er =
     bnd (quiet (d_getNonce (dp_chain d))) (\<lambda>nonce.
     if asset er = Eth
     then releaseETH d (recipient er) (amount er) (canonicalId er) nonce
     else releaseERC20 d (dp_usdcAddress d) (recipient er) (amount er) (canonicalId er) nonce)"

definition backoff :: "'w EvmPayoutDeps \<Rightarrow> int \<Rightarrow> ('w evm_state, unit) io" where
  "backoff d k =
     bnd (quiet (d_resetNonce (dp_chain d))) (\<lambda>_.
     case dp_maxRetries d of
       None \<Rightarrow> ret ()
     | Some m \<Rightarrow> if k < m then quiet (d_sleep d (1000 * 2 ^ nat (k - 1))) else ret ())"

text \<open>
  The release loop. \<open>n\<close> is the number of attempts left, \<open>k\<close> the number of the current one; the
  result is the submitted hash (empty when none) and the last error.
\<close>

fun releaseLoop ::
  "'w EvmPayoutDeps \<Rightarrow> ExpectedRelease \<Rightarrow> nat \<Rightarrow> int \<Rightarrow> string \<Rightarrow> ('w evm_state, hex \<times> string) io" where
  "releaseLoop d er 0 k lastErr = ret ('''', lastErr)"
| "releaseLoop d er (Suc n) k lastErr =
     (let send = attempt (sendRelease d er) (\<lambda>r. case r of
             Inr hash \<Rightarrow> ret (hash, lastErr)
           | Inl e \<Rightarrow> bnd (backoff d k) (\<lambda>_. releaseLoop d er n (k + 1) e))
      in if k > 1 then
           attempt (processedL1Txs d (canonicalId er)) (\<lambda>rp. case rp of
               Inl e \<Rightarrow> ret ('''', ''processedL1Txs re-check failed: '' @ e)
             | Inr landed \<Rightarrow> if landed then ret ('''', lastErr) else send)
         else send)"

definition maxAttempts :: "'w EvmPayoutDeps \<Rightarrow> nat" where
  "maxAttempts d = (case dp_maxRetries d of None \<Rightarrow> 0 | Some m \<Rightarrow> nat (max 1 m))"

definition settleReceipt ::
  "NormalizedEvmWithdrawal \<Rightarrow> ExpectedRelease \<Rightarrow> hex \<Rightarrow> ReceiptLike \<Rightarrow> 'w EvmPayoutDeps
   \<Rightarrow> ('w evm_state, PayoutOutcome) io" where
  "settleReceipt w er hash receipt d =
     bnd (classifyReleaseReceipt (dp_viem d) (rc_logs receipt) er (\<lambda>rid. timelockQueue d rid False)) (\<lambda>cls.
     case cls of
       RVerified \<Rightarrow>
         bnd (payoutDeepEnough hash (rc_blockNumber receipt) d) (\<lambda>deep.
         if \<not> deep then ret awaiting_confirmations
         else bnd (fulfill d (tx_id w) hash) (\<lambda>ok.
           if ok then bnd (markProcessed d (tx_id w)) (\<lambda>_. ret fulfilled)
           else ret fulfill_api_failed))
     | RQueued requestId executeAfter rc \<Rightarrow>
         bnd (persistQueued d w er \<lparr>f_request_id = dec_int requestId,
                f_execute_after = dec_int executeAfter, f_release_submission_tx_hash = hash,
                f_status = SQueued, f_note = ''''\<rparr>) (\<lambda>_.
         ret queued_outcome)
     | RAmbiguous reason requestId \<Rightarrow>
         bnd (persistQueued d w er \<lparr>f_request_id = opt_dec requestId, f_execute_after = '''',
                f_release_submission_tx_hash = hash, f_status = SAmbiguous, f_note = reason\<rparr>) (\<lambda>_.
         bnd (alert d (''ambiguous:'' @ tx_id w)) (\<lambda>_.
         ret ambiguous)))"

definition awaitRelease ::
  "NormalizedEvmWithdrawal \<Rightarrow> ExpectedRelease \<Rightarrow> hex \<Rightarrow> 'w EvmPayoutDeps \<Rightarrow> ('w evm_state, PayoutOutcome) io" where
  "awaitRelease w er hash d =
     attempt (waitForReceipt d hash) (\<lambda>rr. case rr of
         Inl e \<Rightarrow>
           bnd (quiet (d_resetNonce (dp_chain d))) (\<lambda>_.
           handleEvmFailure w er (''receipt wait failed for '' @ hash @ '': '' @ e) d)
       | Inr receipt \<Rightarrow>
           if rc_status receipt \<noteq> Success then
             bnd (quiet (d_resetNonce (dp_chain d))) (\<lambda>_.
             handleEvmFailure w er (''release tx reverted: '' @ hash) d)
           else settleReceipt w er hash receipt d)"

definition releaseAndSettle ::
  "NormalizedEvmWithdrawal \<Rightarrow> ExpectedRelease \<Rightarrow> 'w EvmPayoutDeps \<Rightarrow> ('w evm_state, PayoutOutcome) io" where
  "releaseAndSettle w er d =
     bnd (releaseLoop d er (maxAttempts d) 1 '''') (\<lambda>(hash, lastErr).
     if hash = '''' then handleEvmFailure w er (str_or lastErr ''release submission failed'') d
     else awaitRelease w er hash d)"

text \<open>The pre-release truth check and what follows it, in observation mode and outside it.\<close>

definition releaseOnTruth ::
  "NormalizedEvmWithdrawal \<Rightarrow> ExpectedRelease \<Rightarrow> 'w EvmPayoutDeps \<Rightarrow> ('w evm_state, PayoutOutcome) io" where
  "releaseOnTruth w er d =
     attempt (processedL1Txs d (canonicalId er)) (\<lambda>rp. case rp of
         Inl e \<Rightarrow> ret skipped_rpc
       | Inr processedBefore \<Rightarrow>
           if dp_observeOnly d then
             (if \<not> processedBefore then ret observed
              else bnd (reconcileProcessedId er d) (\<lambda>r. ret observed))
           else if processedBefore then
             bnd (reconcileProcessedId er d) (\<lambda>r.
             applyReconciliation w er r d ''pre-release check'')
           else releaseAndSettle w er d)"

definition processEvmWithdrawal ::
  "NormalizedEvmWithdrawal \<Rightarrow> 'w EvmPayoutDeps \<Rightarrow> ('w evm_state, PayoutOutcome) io" where
  "processEvmWithdrawal w d =
     (case evm_asset (payoutRoute (token_symbol w)) of
        None \<Rightarrow> bnd (alert d (''unsupported:'' @ tx_id w)) (\<lambda>_. ret skipped_unsupported)
      | Some a \<Rightarrow>
          if \<not> isSafeInteger (amount_units w) \<or> \<not> num_less (JInt 0) (amount_units w) \<or>
             \<not> isEvmAddress (dp_viem d) (evm_address w)
          then bnd (alert d (''invalid:'' @ tx_id w)) (\<lambda>_. ret skipped_invalid)
          else
            bnd (gets (\<lambda>s. map_has (queued s) (queuedKey (rougeBridgeId (dp_viem d) (tx_id w))))) (\<lambda>isQueued.
            if isQueued then ret skipped_queued
            else if dp_bridgeAddress d = ''''
            then bnd (alert d (''no-bridge:'' @ tx_id w)) (\<lambda>_. ret skipped_no_bridge)
            else
              bnd (lift_sum (expectedReleaseFor (dp_viem d) w a (dp_bridgeAddress d) (dp_usdcAddress d))) (\<lambda>er.
              releaseOnTruth w er d)))"

section \<open>The poll over queued withdrawals\<close>

definition executedRelease ::
  "'w EvmPayoutDeps \<Rightarrow> ExpectedRelease \<Rightarrow> int \<Rightarrow> ('w evm_state, hex option) io" where
  "executedRelease d er requestId =
     bnd (findTimelockExecutedTxHashes d requestId) (\<lambda>hs.
     bnd (firstVerified d er hs) (\<lambda>p. case p of
         Some h \<Rightarrow> ret (Some h)
       | None \<Rightarrow> bnd (findReleaseTxHashes d er) (firstVerified d er)))"

text \<open>The three things that can happen to an entry whose record was read: the record no longer binds
  (the entry object is updated in place, under its own key), it was executed, or it may be cancelled.\<close>

definition pollResult ::
  "int \<Rightarrow> int \<Rightarrow> ProcessedClass \<Rightarrow> string \<Rightarrow> TimelockRecord \<Rightarrow> string \<Rightarrow> ReconcileResult" where
  "pollResult requestId xa cls paid rc reason =
     \<lparr>rr_cls = cls, rr_paidTxHash = paid, rr_requestId = Some requestId, rr_record = Some rc,
      rr_executeAfter = Some xa, rr_reason = reason, rr_scanFailed = False\<rparr>"

definition pollMismatch ::
  "'w EvmPayoutDeps \<Rightarrow> string \<Rightarrow> QueuedRecord \<Rightarrow> int \<Rightarrow> ('w evm_state, unit) io" where
  "pollMismatch d k rec requestId =
     bnd (quiet (d_now d)) (\<lambda>t.
     bnd (modify (\<lambda>s. s\<lparr>queued := map_set k (rec\<lparr>q_status := SAmbiguous,
         q_note := ''timelockQueue('' @ dec_int requestId @ '') no longer binds to this withdrawal'',
         q_updated_at := t\<rparr>) (queued s)\<rparr>)) (\<lambda>_.
     bnd (saveQueued d) (\<lambda>_.
     alert d (''ambiguous:'' @ q_stored_tx_id rec))))"

definition pollExecuted ::
  "'w EvmPayoutDeps \<Rightarrow> NormalizedEvmWithdrawal \<Rightarrow> ExpectedRelease \<Rightarrow> int \<Rightarrow> int \<Rightarrow> TimelockRecord
   \<Rightarrow> ('w evm_state, unit) io" where
  "pollExecuted d w er requestId xa onchain =
     attempt (executedRelease d er requestId) (\<lambda>rp. case rp of
         Inl e \<Rightarrow> ret ()
       | Inr paid \<Rightarrow>
           bnd (applyReconciliation w er (case paid of
                  Some h \<Rightarrow> pollResult requestId xa Paid h onchain ''''
                | None \<Rightarrow> pollResult requestId xa Ambiguous '''' onchain
                    ''timelock executed but no verifiable BridgeRelease found'')
                d ''timelock executed'') (\<lambda>_. ret ()))"

definition pollCancelled ::
  "'w EvmPayoutDeps \<Rightarrow> NormalizedEvmWithdrawal \<Rightarrow> ExpectedRelease \<Rightarrow> int \<Rightarrow> int \<Rightarrow> TimelockRecord
   \<Rightarrow> ('w evm_state, unit) io" where
  "pollCancelled d w er requestId xa onchain =
     bnd (try_catch (findTimelockCancelled d requestId) (\<lambda>e. ret False)) (\<lambda>cancelledEvent.
     if tl_cancelled onchain \<or> cancelledEvent then
       attempt (timelockQueue d requestId True) (\<lambda>rc. case rc of
           Inl e \<Rightarrow> ret ()
         | Inr conf \<Rightarrow>
             if tl_cancelled conf \<and> \<not> tl_executed conf \<and>
                timelockRecordMatches conf (expectedTimelockFor er xa) then
               bnd (applyReconciliation w er
                      (pollResult requestId xa CancelledRefundCandidate '''' conf '''') d
                      ''TimelockCancelled'') (\<lambda>_. ret ())
             else if cancelledEvent \<and> \<not> tl_cancelled conf then ret ()
             else bnd (applyReconciliation w er
                      (pollResult requestId xa Ambiguous '''' conf ''cancellation state inconsistent'') d
                      ''TimelockCancelled'') (\<lambda>_. ret ()))
     else ret ())"

definition pollRecord ::
  "'w EvmPayoutDeps \<Rightarrow> string \<Rightarrow> QueuedRecord \<Rightarrow> NormalizedEvmWithdrawal \<Rightarrow> ExpectedRelease \<Rightarrow> int \<Rightarrow> int
   \<Rightarrow> ('w evm_state, unit) io" where
  "pollRecord d k rec w er requestId xa =
     attempt (timelockQueue d requestId True) (\<lambda>ro. case ro of
         Inl e \<Rightarrow> ret ()
       | Inr onchain \<Rightarrow>
           if dp_observeOnly d then ret ()
           else if \<not> timelockRecordMatches onchain (expectedTimelockFor er xa)
           then pollMismatch d k rec requestId
           else if tl_executed onchain then pollExecuted d w er requestId xa onchain
           else pollCancelled d w er requestId xa onchain)"

definition pollOne ::
  "'w EvmPayoutDeps \<Rightarrow> string \<times> QueuedRecord \<Rightarrow> ('w evm_state, unit) io" where
  "pollOne d = (\<lambda>(k, rec).
     if q_status rec \<noteq> SQueued then ret ()
     else if q_request_id rec = '''' \<or> q_execute_after rec = '''' then ret ()
     else
       bnd (lift_opt ''SyntaxError'' (BigInt_str (q_amount rec))) (\<lambda>amt.
       bnd (lift_opt ''SyntaxError'' (BigInt_str (q_request_id rec))) (\<lambda>requestId.
       bnd (lift_opt ''SyntaxError'' (BigInt_str (q_execute_after rec))) (\<lambda>xa.
       pollRecord d k rec
         \<lparr>tx_id = q_stored_tx_id rec, evm_address = q_recipient rec, amount_units = JInt 0,
          token_symbol = (if q_asset rec = Eth then ''qETH'' else ''qUSDC'')\<rparr>
         \<lparr>asset = q_asset rec, recipient = q_recipient rec, amount = amt,
          canonicalId = q_canonical_l1_tx_id rec, bridgeAddress = dp_bridgeAddress d,
          usdcAddress = dp_usdcAddress d\<rparr> requestId xa))))"

definition pollQueuedWithdrawals :: "'w EvmPayoutDeps \<Rightarrow> ('w evm_state, unit) io" where
  "pollQueuedWithdrawals d =
     (if dp_bridgeAddress d = '''' then ret ()
      else bnd (gets queued) (\<lambda>entries. for_each entries (pollOne d)))"

lemma daemonMinConfirmations_positive: "\<exists>j. daemonMinConfirmations e = JInt j \<and> 0 < j"
  using parseInt10_integer [of "env_or_empty e ''QV_BRIDGE_MIN_CONFIRMATIONS''"]
  by (elim disjE exE) (simp_all add: daemonMinConfirmations_def Let_def)

end
