(* ===== verification/Evm_Payout_Spec.thy ===== *)
theory Evm_Payout_Spec
  imports Evm_Payout
begin

text \<open>
  What the payout orchestration promises, as a transition relation on its state, and the refinement:
  every run of \<^const>\<open>processEvmWithdrawal\<close> and \<^const>\<open>pollQueuedWithdrawals\<close> is a path of that
  relation. Each rule that writes (a release, a daemon call, the local queue) names the reads the
  code made first, so the safety properties are inductions over the rules.
\<close>


section \<open>Trace predicates\<close>

fun benign :: "evm_event \<Rightarrow> bool" where
  "benign (EvReleaseETH to n i k r) = False"
| "benign (EvReleaseERC20 tok to n i k r) = False"
| "benign (EvFulfill t h r) = False"
| "benign (EvReportFailure t e r) = False"
| "benign (EvRefund t r) = False"
| "benign (EvMark t r) = False"
| "benign (EvSave r) = False"
| "benign e = True"

lemma keeps_observeRefuse [keeps_rules]: "keeps I (observeRefuse tag msg)"
  unfolding observeRefuse_def by (rule keeps_throw)

lemma keeps_must_dec [keeps_rules]: "keeps I (must_dec i)"
  unfolding must_dec_def by (intro keeps_rules)

lemma keeps_case_ProcessedClass [keeps_rules]:
  "(c = Paid \<Longrightarrow> keeps I m1) \<Longrightarrow> (c = Queued \<Longrightarrow> keeps I m2) \<Longrightarrow>
   (c = CancelledRefundCandidate \<Longrightarrow> keeps I m3) \<Longrightarrow> (c = Ambiguous \<Longrightarrow> keeps I m4) \<Longrightarrow>
   keeps I (case c of Paid \<Rightarrow> m1 | Queued \<Rightarrow> m2 | CancelledRefundCandidate \<Rightarrow> m3 | Ambiguous \<Rightarrow> m4)"
  by (cases c) simp_all

lemma keeps_case_RefundDecision [keeps_rules]:
  "(c = NormalAnalysis \<Longrightarrow> keeps I m1) \<Longrightarrow> keeps I m2 \<Longrightarrow> keeps I m3 \<Longrightarrow>
   keeps I (case c of NormalAnalysis \<Rightarrow> m1 | Forbidden \<Rightarrow> m2 | MayProceedAfterCancellationProof \<Rightarrow> m3)"
  by (cases c) simp_all

lemma keeps_case_ReleaseReceiptClass [keeps_rules]:
  "keeps I m \<Longrightarrow> (\<And>i x rc. keeps I (f i x rc)) \<Longrightarrow> (\<And>msg i. keeps I (g msg i)) \<Longrightarrow>
   keeps I (case c of RVerified \<Rightarrow> m | RQueued i x rc \<Rightarrow> f i x rc | RAmbiguous msg i \<Rightarrow> g msg i)"
  by (cases c) simp_all

locale read_stable =
  fixes I :: "'w evm_state \<Rightarrow> bool"
  assumes stable: "I s \<Longrightarrow> benign e \<Longrightarrow> I (s\<lparr>world := w, trace := e # trace s\<rparr>)"
    and stable_world: "I s \<Longrightarrow> I (s\<lparr>world := w\<rparr>)"
begin

lemma keeps_read: "(\<And>r. benign (mk r)) \<Longrightarrow> keeps I (call mk f)"
  by (rule triple_call) (simp_all add: stable)

lemma keeps_quiet: "keeps I (quiet f)"
  by (rule triple_quiet) (simp_all add: stable_world)

lemma keeps_reads:
  "keeps I (waitForReceipt d h)" "keeps I (getReceipt d h)" "keeps I (processedL1Txs d i)"
  "keeps I (headBlock d)" "keeps I (timelockQueue d n c)" "keeps I (findReleaseTxHashes d er)"
  "keeps I (findQueuedRequestIds d)" "keeps I (findTimelockQueuedEvent d n)"
  "keeps I (findTimelockExecutedTxHashes d n)" "keeps I (findTimelockCancelled d n)"
  "keeps I (alert d key)"
  by (simp_all add: evm_call_defs keeps_read)

lemmas reads = keeps_rules keeps_quiet keeps_reads

lemma keeps_firstVerified: "keeps I (firstVerified d er hs)"
  by (induction hs) (auto intro!: reads)

lemma keeps_scanRequestIds: "keeps I (scanRequestIds d er rids)"
  by (induction rids) (auto intro!: reads)

lemma keeps_locateRequest: "keeps I (locateRequest d er b loc)"
  unfolding locateRequest_def Let_def by (intro reads keeps_scanRequestIds)

lemma keeps_reconcileQueued: "keeps I (reconcileQueued er d r)"
  unfolding reconcileQueued_def Let_def case_prod_beta by (intro reads keeps_locateRequest)

lemma keeps_reconcileProcessedId: "keeps I (reconcileProcessedId er d)"
  unfolding reconcileProcessedId_def
  by (intro reads keeps_firstVerified keeps_reconcileQueued)

lemma keeps_payoutDeepEnough: "keeps I (payoutDeepEnough h b d)"
  unfolding payoutDeepEnough_def Let_def by (intro reads)

lemma keeps_executedRelease: "keeps I (executedRelease d er n)"
  unfolding executedRelease_def by (intro reads keeps_firstVerified)

lemma keeps_classifyReleaseReceipt:
  "keeps I (classifyReleaseReceipt v logs er (\<lambda>rid. timelockQueue d rid c))"
  unfolding classifyReleaseReceipt_def Let_def
  by (auto intro!: reads split: list.splits)

lemmas read_programs = reads keeps_firstVerified keeps_reconcileProcessedId
  keeps_payoutDeepEnough keeps_executedRelease keeps_classifyReleaseReceipt

end

section \<open>The specification\<close>

text \<open>The canonical id a release was submitted for.\<close>

fun release_id :: "evm_event \<Rightarrow> hex option" where
  "release_id (EvReleaseETH to n i k r) = Some i"
| "release_id (EvReleaseERC20 tok to n i k r) = Some i"
| "release_id e = None"

text \<open>The event submits exactly the release \<open>er\<close>.\<close>

fun submits :: "'w EvmPayoutDeps \<Rightarrow> ExpectedRelease \<Rightarrow> evm_event \<Rightarrow> bool" where
  "submits d er (EvReleaseETH to n i k r) =
     (asset er = Eth \<and> to = recipient er \<and> n = amount er \<and> i = canonicalId er)"
| "submits d er (EvReleaseERC20 tok to n i k r) =
     (asset er = Usdc \<and> tok = dp_usdcAddress d \<and> to = recipient er \<and> n = amount er \<and>
      i = canonicalId er)"
| "submits d er e = False"

text \<open>The last thing that happened to \<open>i\<close> is a read of \<open>processedL1Txs\<close> that said no.\<close>

fun fresh_read :: "hex \<Rightarrow> evm_event list \<Rightarrow> bool" where
  "fresh_read i [] = False"
| "fresh_read i (EvProcessed j r # es) = (if j = i then r = Inr False else fresh_read i es)"
| "fresh_read i (e # es) = (release_id e \<noteq> Some i \<and> fresh_read i es)"

definition receipt_seen :: "hex \<Rightarrow> ReceiptLike \<Rightarrow> evm_event list \<Rightarrow> bool" where
  "receipt_seen h rc es = (EvGetReceipt h (Inr (Some rc)) \<in> set es \<or> EvWaitReceipt h (Inr rc) \<in> set es)"

definition pays_seen :: "viem \<Rightarrow> ExpectedRelease \<Rightarrow> hex \<Rightarrow> evm_event list \<Rightarrow> bool" where
  "pays_seen v er h es = (\<exists>rc. receipt_seen h rc es \<and> receipt_pays v er rc)"

definition block_seen :: "hex \<Rightarrow> int \<Rightarrow> evm_event list \<Rightarrow> bool" where
  "block_seen h b es = (\<exists>rc. receipt_seen h rc es \<and> rc_blockNumber rc = Some b)"

definition deep_seen :: "'w EvmPayoutDeps \<Rightarrow> hex \<Rightarrow> evm_event list \<Rightarrow> bool" where
  "deep_seen d h es = (\<exists>b head. block_seen h b es \<and> EvHead (Inr head) \<in> set es \<and>
     \<not> num_less (JInt (depth_at head b)) (evmFulfillDepth d))"

definition record_release :: "'w EvmPayoutDeps \<Rightarrow> QueuedRecord \<Rightarrow> int \<Rightarrow> ExpectedRelease" where
  "record_release d rc n = \<lparr>asset = q_asset rc, recipient = q_recipient rc, amount = n,
     canonicalId = q_canonical_l1_tx_id rc, bridgeAddress = dp_bridgeAddress d,
     usdcAddress = dp_usdcAddress d\<rparr>"

text \<open>\<open>(t, er) \<in> owed\<close>: the release \<open>er\<close> is what the withdrawal \<open>t\<close> is owed. A queue entry is sound when
  it is filed under its own id and stands for an owed release.\<close>

definition entry_ok ::
  "'w EvmPayoutDeps \<Rightarrow> (string \<times> ExpectedRelease) set \<Rightarrow> string \<Rightarrow> QueuedRecord \<Rightarrow> bool" where
  "entry_ok d owed k rc =
     (k = queuedKey (q_canonical_l1_tx_id rc) \<and>
      q_canonical_l1_tx_id rc = rougeBridgeId (dp_viem d) (q_stored_tx_id rc) \<and>
      (\<forall>n. BigInt_str (q_amount rc) = Some n \<longrightarrow> (q_stored_tx_id rc, record_release d rc n) \<in> owed))"

inductive evm_step ::
  "'w EvmPayoutDeps \<Rightarrow> (string \<times> ExpectedRelease) set \<Rightarrow> 'w evm_state \<Rightarrow> 'w evm_state \<Rightarrow> bool"
  for d owed where
  tick: "evm_step d owed s (s\<lparr>world := w\<rparr>)"
| read: "benign e \<Longrightarrow> evm_step d owed s (s\<lparr>world := w, trace := e # trace s\<rparr>)"
| release: "\<not> dp_observeOnly d \<Longrightarrow> (t, er) \<in> owed \<Longrightarrow> canonicalId er = rougeBridgeId (dp_viem d) t \<Longrightarrow>
    submits d er e \<Longrightarrow> fresh_read (canonicalId er) (trace s) \<Longrightarrow>
    \<not> map_has (queued s) (queuedKey (canonicalId er)) \<Longrightarrow>
    evm_step d owed s (s\<lparr>world := w, trace := e # trace s\<rparr>)"
| report: "\<not> dp_observeOnly d \<Longrightarrow> fresh_read (rougeBridgeId (dp_viem d) t) (trace s) \<Longrightarrow>
    evm_step d owed s (s\<lparr>world := w, trace := EvReportFailure t m r # trace s\<rparr>)"
| refund: "\<not> dp_observeOnly d \<Longrightarrow> dp_autoRefund d \<Longrightarrow>
    EvReportFailure t m (Inr (True, n)) \<in> set (trace s) \<Longrightarrow>
    fresh_read (rougeBridgeId (dp_viem d) t) (trace s) \<Longrightarrow>
    evm_step d owed s (s\<lparr>world := w, trace := EvRefund t r # trace s\<rparr>)"
| fulfil: "\<not> dp_observeOnly d \<Longrightarrow> (t, er) \<in> owed \<Longrightarrow> pays_seen (dp_viem d) er h (trace s) \<Longrightarrow>
    deep_seen d h (trace s) \<Longrightarrow>
    evm_step d owed s (s\<lparr>world := w, trace := EvFulfill t h r # trace s\<rparr>)"
| mark: "\<not> dp_observeOnly d \<Longrightarrow>
    (\<exists>h. EvFulfill t h (Inr True) \<in> set (trace s)) \<or> EvRefund t (Inr True) \<in> set (trace s) \<Longrightarrow>
    evm_step d owed s (s\<lparr>world := w, trace := EvMark t r # trace s\<rparr>)"
| save: "\<not> dp_observeOnly d \<Longrightarrow> evm_step d owed s (s\<lparr>world := w, trace := EvSave r # trace s\<rparr>)"
| put: "\<not> dp_observeOnly d \<Longrightarrow> entry_ok d owed k rc \<Longrightarrow>
    evm_step d owed s (s\<lparr>queued := map_set k rc (queued s)\<rparr>)"
| drop: "\<not> dp_observeOnly d \<Longrightarrow> EvFulfill t h (Inr True) \<in> set (trace s) \<Longrightarrow>
    evm_step d owed s (s\<lparr>queued := map_delete (queuedKey (rougeBridgeId (dp_viem d) t)) (queued s)\<rparr>)"

abbreviation evm_path ::
  "'w EvmPayoutDeps \<Rightarrow> (string \<times> ExpectedRelease) set \<Rightarrow> 'w evm_state \<Rightarrow> 'w evm_state \<Rightarrow> bool" where
  "evm_path d owed \<equiv> (evm_step d owed)\<^sup>*\<^sup>*"

interpretation path: read_stable "evm_path d owed s0"
  by unfold_locales (auto intro: evm_step.intros rtranclp.rtrancl_into_rtrancl)


section \<open>Refinement\<close>

text \<open>Reads leave the queue alone and never lose evidence already in the trace.\<close>

lemma receipt_seen_Cons [intro]: "receipt_seen h rc es \<Longrightarrow> receipt_seen h rc (e # es)"
  by (auto simp: receipt_seen_def)

lemma pays_seen_Cons [intro]: "pays_seen v er h es \<Longrightarrow> pays_seen v er h (e # es)"
  by (auto simp: pays_seen_def)

lemma block_seen_Cons [intro]: "block_seen h b es \<Longrightarrow> block_seen h b (e # es)"
  by (auto simp: block_seen_def)

lemma pays_seenI: "receipt_seen h rc es \<Longrightarrow> receipt_pays v er rc \<Longrightarrow> pays_seen v er h es"
  by (auto simp: pays_seen_def)

lemma deep_seenI:
  "block_seen h b es \<Longrightarrow> EvHead (Inr head) \<in> set es \<Longrightarrow>
   \<not> num_less (JInt (depth_at head b)) (evmFulfillDepth d) \<Longrightarrow> deep_seen d h es"
  by (auto simp: deep_seen_def)

context read_stable
begin

lemma with_evidence:
  assumes "\<And>e es. P es \<Longrightarrow> P (e # es)"
  shows "read_stable (\<lambda>s. I s \<and> P (trace s))"
  by unfold_locales (auto simp: stable stable_world assms)

lemma with_queue: "read_stable (\<lambda>s. I s \<and> Q (queued s))"
  by unfold_locales (auto simp: stable stable_world)

lemma triple_getReceipt:
  "triple I (getReceipt d h) (\<lambda>r s. I s \<and> (\<forall>rc. r = Some rc \<longrightarrow> receipt_seen h rc (trace s))) (\<lambda>_. I)"
  unfolding getReceipt_def by (rule triple_call) (auto simp: stable receipt_seen_def)

lemma triple_firstVerified:
  "triple I (firstVerified d er hs)
     (\<lambda>p s. I s \<and> (\<forall>h. p = Some h \<longrightarrow> pays_seen (dp_viem d) er h (trace s))) (\<lambda>_. I)"
proof (induction hs)
  case Nil
  show ?case by (auto intro: triple_ret)
next
  case (Cons h hs)
  show ?case
    unfolding firstVerified.simps
  proof (rule triple_bnd [OF triple_getReceipt])
    fix r
    show "triple (\<lambda>s. I s \<and> (\<forall>rc. r = Some rc \<longrightarrow> receipt_seen h rc (trace s)))
        (case r of None \<Rightarrow> firstVerified d er hs
         | Some rc \<Rightarrow> if receipt_pays (dp_viem d) er rc then ret (Some h) else firstVerified d er hs)
        (\<lambda>p s. I s \<and> (\<forall>h. p = Some h \<longrightarrow> pays_seen (dp_viem d) er h (trace s))) (\<lambda>_. I)"
      by (cases r) (auto intro!: triple_ret triple_pre [OF Cons.IH] intro: pays_seenI)
  qed
qed

lemma triple_payoutDeepEnough:
  "triple (\<lambda>s. I s \<and> (\<forall>b. kb = Some b \<longrightarrow> block_seen h b (trace s))) (payoutDeepEnough h kb d)
     (\<lambda>deep s. I s \<and> (deep \<longrightarrow> deep_seen d h (trace s))) (\<lambda>_. I)"
  unfolding payoutDeepEnough_def
proof (rule triple_try [where R = "\<lambda>_. I"])
  let ?B = "\<lambda>blk s. I s \<and> (\<forall>b. blk = Some b \<longrightarrow> block_seen h b (trace s))"
  show "triple (?B kb)
     (bnd (case kb of None \<Rightarrow> bnd (getReceipt d h) (\<lambda>r. ret (case r of None \<Rightarrow> None | Some rc \<Rightarrow> rc_blockNumber rc))
           | Some b \<Rightarrow> ret (Some b))
       (\<lambda>block. case block of None \<Rightarrow> ret False
           | Some b \<Rightarrow> bnd (headBlock d) (\<lambda>head. ret (\<not> num_less (JInt (depth_at head b)) (evmFulfillDepth d)))))
     (\<lambda>deep s. I s \<and> (deep \<longrightarrow> deep_seen d h (trace s))) (\<lambda>_. I)"
  proof (rule triple_bnd [where R = ?B])
    show "triple (?B kb) (case kb of None \<Rightarrow> bnd (getReceipt d h) (\<lambda>r. ret (case r of None \<Rightarrow> None | Some rc \<Rightarrow> rc_blockNumber rc))
           | Some b \<Rightarrow> ret (Some b)) ?B (\<lambda>_. I)"
      by (cases kb) (auto intro!: triple_ret triple_bnd [OF triple_pre [OF triple_getReceipt]]
          simp: block_seen_def split: option.splits)
    show "triple (?B blk) (case blk of None \<Rightarrow> ret False
           | Some b \<Rightarrow> bnd (headBlock d) (\<lambda>head. ret (\<not> num_less (JInt (depth_at head b)) (evmFulfillDepth d))))
        (\<lambda>deep s. I s \<and> (deep \<longrightarrow> deep_seen d h (trace s))) (\<lambda>_. I)" for blk
    proof (cases blk)
      case (Some b)
      have "triple (?B blk) (headBlock d) (\<lambda>head s. ?B blk s \<and> EvHead (Inr head) \<in> set (trace s)) (\<lambda>_. I)"
        unfolding headBlock_def by (rule triple_call) (auto simp: stable)
      then show ?thesis using Some
        by (auto intro!: triple_bnd triple_ret intro: deep_seenI)
    qed (auto intro: triple_ret)
  qed
qed (auto intro: triple_ret)

end

lemma reconcileQueued_Paid:
  "triple (\<lambda>_. True) (reconcileQueued er d r)
     (\<lambda>rr _. rr_cls rr = Paid \<longrightarrow> r = Inr (Some (rr_paidTxHash rr))) (\<lambda>_ _. True)"
  unfolding reconcileQueued_def Let_def case_prod_beta
  by (intro triple_bnd [OF triple_true] triple_ret)
    (simp add: classifyProcessed_simps split: sum.splits option.splits)

context read_stable
begin

lemma triple_reconcileProcessedId:
  "triple I (reconcileProcessedId er d)
     (\<lambda>r s. I s \<and> (rr_cls r = Paid \<longrightarrow> pays_seen (dp_viem d) er (rr_paidTxHash r) (trace s))) (\<lambda>_. I)"
  unfolding reconcileProcessedId_def
proof (rule triple_attempt)
  let ?K = "\<lambda>(r :: exn + hex option) s. I s \<and> (\<forall>h. r = Inr (Some h) \<longrightarrow> pays_seen (dp_viem d) er h (trace s))"
  show "triple I (bnd (findReleaseTxHashes d er) (firstVerified d er)) (\<lambda>a. ?K (Inr a)) (\<lambda>e. ?K (Inl e))"
    using triple_bnd [OF keeps_reads(6) triple_firstVerified] by simp
  fix r :: "exn + hex option"
  have "read_stable (?K r)" by (rule with_evidence) auto
  then have K: "keeps (?K r) (reconcileQueued er d r)" by (rule read_stable.keeps_reconcileQueued)
  show "triple (?K r) (reconcileQueued er d r)
     (\<lambda>r s. I s \<and> (rr_cls r = Paid \<longrightarrow> pays_seen (dp_viem d) er (rr_paidTxHash r) (trace s))) (\<lambda>_. I)"
    by (rule triple_conseq [OF triple_conj [OF K reconcileQueued_Paid]]) auto
qed

lemma triple_processedL1Txs:
  "triple I (processedL1Txs d i) (\<lambda>p s. I s \<and> (\<not> p \<longrightarrow> fresh_read i (trace s))) (\<lambda>_. I)"
  unfolding processedL1Txs_def by (rule triple_call) (auto simp: stable)

end

end
