(* ===== verification/Evm_Payout_Refine.thy ===== *)
theory Evm_Payout_Refine
  imports Evm_Payout_Spec
begin

text \<open>
  The refinement: every run of \<^const>\<open>processEvmWithdrawal\<close> and \<^const>\<open>pollQueuedWithdrawals\<close> is a
  path of \<^const>\<open>evm_step\<close>, one lemma per function of the code, and so is every sequence of such
  calls.
\<close>

text \<open>The release \<open>er\<close> is what the withdrawal \<open>w\<close> is owed, on the configured contracts.\<close>

definition owes ::
  "'w EvmPayoutDeps \<Rightarrow> (string \<times> ExpectedRelease) set \<Rightarrow> NormalizedEvmWithdrawal \<Rightarrow> ExpectedRelease \<Rightarrow> bool"
  where "owes d owed w er =
     ((tx_id w, er) \<in> owed \<and> canonicalId er = rougeBridgeId (dp_viem d) (tx_id w) \<and>
      bridgeAddress er = dp_bridgeAddress d \<and> usdcAddress er = dp_usdcAddress d)"

lemma path_step: "evm_path d owed s0 s \<Longrightarrow> evm_step d owed s s' \<Longrightarrow> evm_path d owed s0 s'"
  by (rule rtranclp.rtrancl_into_rtrancl)

lemmas path_rules = path_step [OF _ evm_step.report] path_step [OF _ evm_step.refund]
  path_step [OF _ evm_step.fulfil] path_step [OF _ evm_step.mark] path_step [OF _ evm_step.save]
  path_step [OF _ evm_step.put] path_step [OF _ evm_step.drop] path_step [OF _ evm_step.release]

lemma path_saveQueued:
  "\<not> dp_observeOnly d \<Longrightarrow> keeps (evm_path d owed s0) (saveQueued d)"
  by (auto simp: triple_def saveQueued_def call_def intro: path_rules split: prod.splits sum.splits)

lemma path_put:
  "\<not> dp_observeOnly d \<Longrightarrow> entry_ok d owed k rc \<Longrightarrow>
   keeps (evm_path d owed s0) (modify (\<lambda>s. s\<lparr>queued := map_set k rc (queued s)\<rparr>))"
  by (rule triple_modify) (rule path_rules)

lemma entry_ok_persisted:
  "owes d owed w er \<Longrightarrow> entry_ok d owed (queuedKey (canonicalId er))
     \<lparr>q_stored_tx_id = tx_id w, q_canonical_l1_tx_id = canonicalId er, q_request_id = rid,
      q_asset = asset er, q_recipient = recipient er, q_amount = dec_int (amount er),
      q_execute_after = xa, q_release_submission_tx_hash = h, q_status = st, q_note = note,
      q_updated_at = t\<rparr>"
  by (cases er) (simp add: entry_ok_def owes_def record_release_def)

lemma path_persistQueued:
  assumes "owes d owed w er"
  shows "keeps (evm_path d owed s0) (persistQueued d w er f)"
  unfolding persistQueued_def
  by (intro path.reads path_put path_saveQueued entry_ok_persisted [OF assms])

lemma path_mark:
  assumes "\<not> dp_observeOnly d"
  shows "triple (\<lambda>s. evm_path d owed s0 s \<and> ((\<exists>h. EvFulfill t h (Inr True) \<in> set (trace s)) \<or>
       EvRefund t (Inr True) \<in> set (trace s)))
     (markProcessed d t)
     (\<lambda>_ s. evm_path d owed s0 s \<and> ((\<exists>h. EvFulfill t h (Inr True) \<in> set (trace s)) \<or>
       EvRefund t (Inr True) \<in> set (trace s))) (\<lambda>_. evm_path d owed s0)"
  unfolding markProcessed_def using assms
  by (intro triple_call) (auto intro: path_rules)

lemma path_fulfill:
  assumes "\<not> dp_observeOnly d" "(t, er) \<in> owed"
  shows "triple (\<lambda>s. evm_path d owed s0 s \<and> pays_seen (dp_viem d) er h (trace s) \<and> deep_seen d h (trace s))
     (fulfill d t h) (\<lambda>ok s. evm_path d owed s0 s \<and> (ok \<longrightarrow> EvFulfill t h (Inr True) \<in> set (trace s)))
     (\<lambda>_. evm_path d owed s0)"
  unfolding fulfill_def using assms
  by (intro triple_call) (auto intro: path_rules)

text \<open>Fulfilling: the depth gate, the daemon call and the bookkeeping after it.\<close>

lemma path_deep_then_fulfill:
  assumes "\<not> dp_observeOnly d" "(t, er) \<in> owed"
    and k: "\<And>ok. triple (\<lambda>s. evm_path d owed s0 s \<and> (ok \<longrightarrow> EvFulfill t h (Inr True) \<in> set (trace s)))
                (k ok) (\<lambda>_. evm_path d owed s0) (\<lambda>_. evm_path d owed s0)"
  shows "triple (\<lambda>s. (evm_path d owed s0 s \<and> pays_seen (dp_viem d) er h (trace s)) \<and>
        (\<forall>b. kb = Some b \<longrightarrow> block_seen h b (trace s)))
     (bnd (payoutDeepEnough h kb d) (\<lambda>deep. if \<not> deep then ret awaiting_confirmations
        else bnd (fulfill d t h) k))
     (\<lambda>_. evm_path d owed s0) (\<lambda>_. evm_path d owed s0)"
proof (rule triple_bnd)
  let ?K = "\<lambda>s. evm_path d owed s0 s \<and> pays_seen (dp_viem d) er h (trace s)"
  have "read_stable ?K" by (rule path.with_evidence) auto
  from read_stable.triple_payoutDeepEnough [OF this]
  show "triple (\<lambda>s. ?K s \<and> (\<forall>b. kb = Some b \<longrightarrow> block_seen h b (trace s))) (payoutDeepEnough h kb d)
     (\<lambda>deep s. ?K s \<and> (deep \<longrightarrow> deep_seen d h (trace s))) (\<lambda>_. evm_path d owed s0)"
    by (rule triple_conseq) auto
  show "triple (\<lambda>s. ?K s \<and> (deep \<longrightarrow> deep_seen d h (trace s)))
     (if \<not> deep then ret awaiting_confirmations else bnd (fulfill d t h) k)
     (\<lambda>_. evm_path d owed s0) (\<lambda>_. evm_path d owed s0)" for deep
  proof (cases deep)
    case True
    have "triple (\<lambda>s. ?K s \<and> (deep \<longrightarrow> deep_seen d h (trace s))) (bnd (fulfill d t h) k)
       (\<lambda>_. evm_path d owed s0) (\<lambda>_. evm_path d owed s0)"
      by (rule triple_pre [OF triple_bnd [OF path_fulfill [OF assms(1,2)] k]]) (use True in simp)
    then show ?thesis using True by simp
  qed (auto intro: triple_ret)
qed

lemma path_unqueue:
  assumes "\<not> dp_observeOnly d" "owes d owed w er"
  shows "triple (\<lambda>s. evm_path d owed s0 s \<and> EvFulfill (tx_id w) h (Inr True) \<in> set (trace s))
     (bnd (modify (\<lambda>s. s\<lparr>queued := map_delete (queuedKey (canonicalId er)) (queued s)\<rparr>)) (\<lambda>_.
      bnd (saveQueued d) (\<lambda>_. ret out)))
     (\<lambda>_. evm_path d owed s0) (\<lambda>_. evm_path d owed s0)"
  using assms
  by (intro triple_bnd [where R = "\<lambda>_. evm_path d owed s0"] triple_modify path_saveQueued keeps_ret)
    (auto intro: path_rules simp: owes_def)

lemma path_mark_unqueue:
  assumes "\<not> dp_observeOnly d" "owes d owed w er"
  shows "triple (\<lambda>s. evm_path d owed s0 s \<and> EvFulfill (tx_id w) h (Inr True) \<in> set (trace s))
     (bnd (markProcessed d (tx_id w)) (\<lambda>_.
      bnd (modify (\<lambda>s. s\<lparr>queued := map_delete (queuedKey (canonicalId er)) (queued s)\<rparr>)) (\<lambda>_.
      bnd (saveQueued d) (\<lambda>_. ret out))))
     (\<lambda>_. evm_path d owed s0) (\<lambda>_. evm_path d owed s0)"
proof (rule triple_bnd [OF _ path_unqueue [OF assms]])
  show "triple (\<lambda>s. evm_path d owed s0 s \<and> EvFulfill (tx_id w) h (Inr True) \<in> set (trace s))
     (markProcessed d (tx_id w))
     (\<lambda>_ s. evm_path d owed s0 s \<and> EvFulfill (tx_id w) h (Inr True) \<in> set (trace s))
     (\<lambda>_. evm_path d owed s0)"
    unfolding markProcessed_def using assms(1)
    by (intro triple_call) (auto intro: path_rules)
qed

lemma path_applyReconciliation_unpaid:
  assumes "owes d owed w er" and "dp_observeOnly d \<or> rr_scanFailed r \<or> rr_cls r \<noteq> Paid"
  shows "keeps (evm_path d owed s0) (applyReconciliation w er r d ctx)"
  unfolding applyReconciliation_def
  by (intro path.reads path_persistQueued [OF assms(1)]) (use assms(2) in simp_all)

lemma path_applyReconciliation:
  assumes ow: "owes d owed w er"
  shows "triple (\<lambda>s. evm_path d owed s0 s \<and>
        (rr_cls r = Paid \<longrightarrow> pays_seen (dp_viem d) er (rr_paidTxHash r) (trace s)))
     (applyReconciliation w er r d ctx) (\<lambda>_. evm_path d owed s0) (\<lambda>_. evm_path d owed s0)"
proof (cases "dp_observeOnly d \<or> rr_scanFailed r \<or> rr_cls r \<noteq> Paid")
  case True
  then show ?thesis by (rule triple_pre [OF path_applyReconciliation_unpaid [OF ow]]) simp
next
  case False
  then have "applyReconciliation w er r d ctx =
     bnd (payoutDeepEnough (rr_paidTxHash r) None d) (\<lambda>deep. if \<not> deep then ret awaiting_confirmations
        else bnd (fulfill d (tx_id w) (rr_paidTxHash r)) (\<lambda>ok.
          if ok then bnd (markProcessed d (tx_id w)) (\<lambda>_.
            bnd (modify (\<lambda>s. s\<lparr>queued := map_delete (queuedKey (canonicalId er)) (queued s)\<rparr>)) (\<lambda>_.
            bnd (saveQueued d) (\<lambda>_. ret reconciled_paid)))
          else ret fulfill_api_failed))"
    by (simp add: applyReconciliation_def)
  moreover have "(tx_id w, er) \<in> owed" using ow by (simp add: owes_def)
  moreover have "\<not> dp_observeOnly d" using False by simp
  moreover have "triple (\<lambda>s. evm_path d owed s0 s \<and> (ok \<longrightarrow> EvFulfill (tx_id w) (rr_paidTxHash r) (Inr True) \<in> set (trace s)))
     (if ok then bnd (markProcessed d (tx_id w)) (\<lambda>_.
            bnd (modify (\<lambda>s. s\<lparr>queued := map_delete (queuedKey (canonicalId er)) (queued s)\<rparr>)) (\<lambda>_.
            bnd (saveQueued d) (\<lambda>_. ret reconciled_paid)))
      else ret fulfill_api_failed) (\<lambda>_. evm_path d owed s0) (\<lambda>_. evm_path d owed s0)" for ok
    using path_mark_unqueue [OF \<open>\<not> dp_observeOnly d\<close> ow, of s0 "rr_paidTxHash r" reconciled_paid]
    by (cases ok) (simp_all add: triple_ret)
  ultimately show ?thesis using False
    by (simp only:) (rule triple_pre [OF path_deep_then_fulfill [where kb = None and er = er]]; simp)
qed

lemma expectedReleaseFor_owes:
  assumes "expectedReleaseFor (dp_viem d) w a (dp_bridgeAddress d) (dp_usdcAddress d) = Inr er"
  shows "canonicalId er = rougeBridgeId (dp_viem d) (tx_id w)"
    and "asset er = a" and "bridgeAddress er = dp_bridgeAddress d" and "usdcAddress er = dp_usdcAddress d"
  using assms by (auto simp: expectedReleaseFor_def split: sum.splits)

text \<open>The failure path: a report needs a fresh negative read, a refund a positive report besides.\<close>

definition refund_due :: "string \<Rightarrow> evm_event list \<Rightarrow> bool" where
  "refund_due t es = (\<exists>m n. EvReportFailure t m (Inr (True, n)) \<in> set es)"

lemma refund_due_Cons [intro]: "refund_due t es \<Longrightarrow> refund_due t (e # es)"
  by (auto simp: refund_due_def)

interpretation due: read_stable "\<lambda>s. evm_path d owed s0 s \<and> refund_due t (trace s)"
  by (rule path.with_evidence) auto

lemma path_refund_mark:
  assumes "\<not> dp_observeOnly d" "dp_autoRefund d"
  shows "triple (\<lambda>s. evm_path d owed s0 s \<and> refund_due t (trace s) \<and>
        fresh_read (rougeBridgeId (dp_viem d) t) (trace s))
     (bnd (refund d t) (\<lambda>done. if done then bnd (alert d key) (\<lambda>_. bnd (markProcessed d t) (\<lambda>_. ret True))
        else ret False)) (\<lambda>_. evm_path d owed s0) (\<lambda>_. evm_path d owed s0)"
proof (rule triple_bnd)
  let ?P = "\<lambda>s. evm_path d owed s0 s \<and> EvRefund t (Inr True) \<in> set (trace s)"
  show "triple (\<lambda>s. evm_path d owed s0 s \<and> refund_due t (trace s) \<and>
        fresh_read (rougeBridgeId (dp_viem d) t) (trace s)) (refund d t)
     (\<lambda>done s. evm_path d owed s0 s \<and> (done \<longrightarrow> EvRefund t (Inr True) \<in> set (trace s))) (\<lambda>_. evm_path d owed s0)"
    unfolding refund_def refund_due_def using assms
    by (intro triple_call) (auto intro: path_rules)
  have "read_stable ?P" by (rule path.with_evidence) simp
  then have "triple ?P (alert d key) (\<lambda>_. ?P) (\<lambda>_. evm_path d owed s0)"
    by (rule triple_keeps [OF read_stable.keeps_reads(11)]) simp
  moreover have "triple ?P (markProcessed d t) (\<lambda>_. evm_path d owed s0) (\<lambda>_. evm_path d owed s0)"
    by (rule triple_conseq [OF path_mark [OF assms(1), where t = t]]) auto
  ultimately have "triple ?P (bnd (alert d key) (\<lambda>_. bnd (markProcessed d t) (\<lambda>_. ret True)))
     (\<lambda>_. evm_path d owed s0) (\<lambda>_. evm_path d owed s0)"
    by (intro triple_bnd) (auto intro: keeps_ret)
  then show "triple (\<lambda>s. evm_path d owed s0 s \<and> (done \<longrightarrow> EvRefund t (Inr True) \<in> set (trace s)))
     (if done then bnd (alert d key) (\<lambda>_. bnd (markProcessed d t) (\<lambda>_. ret True)) else ret False)
     (\<lambda>_. evm_path d owed s0) (\<lambda>_. evm_path d owed s0)" for "done"
    by (cases "done") (auto intro: triple_ret)
qed

context read_stable
begin

lemma triple_check_processed:
  assumes "\<And>e. triple I (k (Inl e)) Q E" and "triple I (k (Inr True)) Q E"
    and "triple (\<lambda>s. I s \<and> fresh_read i (trace s)) (k (Inr False)) Q E"
  shows "triple I (attempt (processedL1Txs d i) k) Q E"
proof (rule triple_attempt)
  let ?R = "\<lambda>r s. I s \<and> (r = Inr False \<longrightarrow> fresh_read i (trace s))"
  show "triple I (processedL1Txs d i) (\<lambda>a. ?R (Inr a)) (\<lambda>e. ?R (Inl e))"
    using triple_processedL1Txs by simp
  show "triple (?R r) (k r) Q E" for r
  proof (cases r)
    case (Inr b)
    then show ?thesis using assms(2,3) by (cases b) auto
  qed (use assms(1) in auto)
qed

end

lemma path_refundOnTruth:
  assumes "\<not> dp_observeOnly d" "dp_autoRefund d"
    and cid: "canonicalId er = rougeBridgeId (dp_viem d) (tx_id w)"
  shows "triple (\<lambda>s. evm_path d owed s0 s \<and> refund_due (tx_id w) (trace s)) (refundOnTruth w er d)
     (\<lambda>_. evm_path d owed s0) (\<lambda>_. evm_path d owed s0)"
  unfolding refundOnTruth_def
proof (rule due.triple_check_processed, goal_cases)
  case (1 e)
  show ?case
    by (simp, rule triple_pre [where P' = "evm_path d owed s0"]) (auto intro!: path.reads)
next
  case 2
  have "keeps (evm_path d owed s0) (bnd (bnd (reconcileProcessedId er d) (\<lambda>r. ret (Some (rr_cls r)))) (\<lambda>cls.
      case refundDecision True cls of NormalAnalysis \<Rightarrow> m
      | MayProceedAfterCancellationProof \<Rightarrow> bnd (alert d (''refund-candidate:'' @ tx_id w)) (\<lambda>_. ret False)
      | Forbidden \<Rightarrow> ret False))" for m
    by (intro path.reads path.keeps_reconcileProcessedId) (simp add: refundDecision_simps)
  then show ?case unfolding sum.case if_True by (rule triple_pre) simp
next
  case 3
  show ?case
    using triple_pre [OF path_refund_mark [OF assms(1,2), of owed s0 "tx_id w" "''refund:'' @ tx_id w"]]
    by (simp add: refundDecision_def cid)
qed

lemma path_guardedRefund:
  assumes "dp_autoRefund d"
  shows "triple (\<lambda>s. evm_path d owed s0 s \<and> refund_due (tx_id w) (trace s)) (guardedRefund w route d)
     (\<lambda>_. evm_path d owed s0) (\<lambda>_. evm_path d owed s0)"
proof -
  have "triple (\<lambda>s. evm_path d owed s0 s \<and> refund_due (tx_id w) (trace s))
     (bnd (lift_sum (expectedReleaseFor (dp_viem d) w a (dp_bridgeAddress d) (dp_usdcAddress d)))
        (\<lambda>er. refundOnTruth w er d)) (\<lambda>_. evm_path d owed s0) (\<lambda>_. evm_path d owed s0)"
    if "\<not> dp_observeOnly d" for a
    using path_refundOnTruth [OF that assms] expectedReleaseFor_owes(1) [of d w a]
    by (cases "expectedReleaseFor (dp_viem d) w a (dp_bridgeAddress d) (dp_usdcAddress d)")
      (auto simp: lift_sum_def intro: triple_throw)
  then show ?thesis
    unfolding guardedRefund_def observeRefuse_def
    by (auto intro: triple_throw triple_ret split: option.split)
qed

lemma path_reconcile_apply:
  assumes "owes d owed w er"
  shows "keeps (evm_path d owed s0) (bnd (reconcileProcessedId er d) (\<lambda>r. applyReconciliation w er r d ctx))"
  by (rule triple_bnd [OF path.triple_reconcileProcessedId path_applyReconciliation [OF assms]])

lemma refund_dueI: "EvReportFailure t m (Inr (True, n)) \<in> set es \<Longrightarrow> refund_due t es"
  by (auto simp: refund_due_def)

lemma path_report:
  assumes "\<not> dp_observeOnly d"
  shows "triple (\<lambda>s. evm_path d owed s0 s \<and> fresh_read (rougeBridgeId (dp_viem d) t) (trace s))
     (reportFailure d t err)
     (\<lambda>r s. evm_path d owed s0 s \<and> (fst r \<longrightarrow> refund_due t (trace s))) (\<lambda>_. evm_path d owed s0)"
  unfolding reportFailure_def using assms
  by (intro triple_call) (auto intro: path_rules refund_dueI)

lemma path_after_report:
  "triple (\<lambda>s. evm_path d owed s0 s \<and> (fst r \<longrightarrow> refund_due (tx_id w) (trace s)))
     (bnd (if snd r \<ge> 3 then alert d (tx_id w) else ret ()) (\<lambda>_.
        if fst r \<and> dp_autoRefund d then
          bnd (guardedRefund w route d) (\<lambda>done. ret (if done then refunded else failed))
        else ret failed)) (\<lambda>_. evm_path d owed s0) (\<lambda>_. evm_path d owed s0)"
proof (rule triple_bnd)
  let ?K = "\<lambda>s. evm_path d owed s0 s \<and> (fst r \<longrightarrow> refund_due (tx_id w) (trace s))"
  have K: "read_stable ?K" by (rule path.with_evidence) auto
  show "triple ?K (if snd r \<ge> 3 then alert d (tx_id w) else ret ()) (\<lambda>_. ?K) (\<lambda>_. evm_path d owed s0)"
    by (rule triple_keeps) (intro keeps_rules read_stable.keeps_reads [OF K], simp)
  show "triple ?K (if fst r \<and> dp_autoRefund d then
          bnd (guardedRefund w route d) (\<lambda>done. ret (if done then refunded else failed))
        else ret failed) (\<lambda>_. evm_path d owed s0) (\<lambda>_. evm_path d owed s0)"
  proof (cases "fst r \<and> dp_autoRefund d")
    case True
    then have "dp_autoRefund d" by simp
    then have "triple ?K (bnd (guardedRefund w route d) (\<lambda>done. ret (if done then refunded else failed)))
       (\<lambda>_. evm_path d owed s0) (\<lambda>_. evm_path d owed s0)"
      by (intro triple_bnd [OF triple_pre [OF path_guardedRefund]] keeps_ret) (use True in simp_all)
    then show ?thesis using True by simp
  qed (auto intro: triple_ret)
qed

lemma path_handleEvmFailure:
  assumes ow: "owes d owed w er"
  shows "keeps (evm_path d owed s0) (handleEvmFailure w er err d)"
proof (cases "dp_observeOnly d")
  case False
  then have obs: "\<not> dp_observeOnly d" by simp
  have cid: "canonicalId er = rougeBridgeId (dp_viem d) (tx_id w)" using ow by (simp add: owes_def)
  have "keeps (evm_path d owed s0) (bnd (alert d key) (\<lambda>_. ret skipped_rpc))" for key
    by (intro path.reads)
  moreover note path_reconcile_apply [OF ow, of s0 "''after error: '' @ err"]
  moreover note triple_bnd [OF path_report [OF obs, of owed s0 "tx_id w" err] path_after_report]
  ultimately show ?thesis
    unfolding handleEvmFailure_def if_not_P [OF obs] cid case_prod_beta
    by (intro path.triple_check_processed) simp_all
qed (simp add: handleEvmFailure_def observeRefuse_def keeps_throw)

text \<open>The release loop. Its queue guard and its read are the ones made just before each send.\<close>

lemma path_send:
  assumes "\<not> dp_observeOnly d" "owes d owed w er"
  shows "triple (\<lambda>s. (evm_path d owed s0 s \<and> \<not> map_has (queued s) (queuedKey (canonicalId er))) \<and>
        fresh_read (canonicalId er) (trace s))
     (sendRelease d er)
     (\<lambda>_ s. evm_path d owed s0 s \<and> \<not> map_has (queued s) (queuedKey (canonicalId er)))
     (\<lambda>_ s. evm_path d owed s0 s \<and> \<not> map_has (queued s) (queuedKey (canonicalId er)))"
proof -
  let ?Q = "\<lambda>s. evm_path d owed s0 s \<and> \<not> map_has (queued s) (queuedKey (canonicalId er))"
  let ?P = "\<lambda>s. ?Q s \<and> fresh_read (canonicalId er) (trace s)"
  have rel: "triple ?P (call mk f) (\<lambda>_. ?Q) (\<lambda>_. ?Q)" if "\<And>r. submits d er (mk r)"
    for mk :: "exn + hex \<Rightarrow> evm_event" and f :: "('a, hex) eff"
    using assms that
    by (intro triple_call) (auto simp: owes_def intro!: path_step [OF _ evm_step.release])
  have a: "asset er = Usdc" if "asset er \<noteq> Eth" using that by (cases "asset er") auto
  have "triple ?P (quiet (d_getNonce (dp_chain d))) (\<lambda>_. ?P) (\<lambda>_. ?Q)"
    by (rule triple_quiet) (auto intro: path.stable_world)
  then show ?thesis
    unfolding sendRelease_def releaseETH_def releaseERC20_def
    by (rule triple_bnd) (intro triple_if rel, simp_all add: a)
qed

lemma path_releaseLoop:
  assumes obs: "\<not> dp_observeOnly d" and ow: "owes d owed w er"
  shows "k \<ge> 1 \<Longrightarrow> triple (\<lambda>s. (evm_path d owed s0 s \<and> \<not> map_has (queued s) (queuedKey (canonicalId er))) \<and>
        (k = 1 \<longrightarrow> fresh_read (canonicalId er) (trace s)))
     (releaseLoop d er n k err) (\<lambda>_. evm_path d owed s0) (\<lambda>_. evm_path d owed s0)"
proof (induction n arbitrary: k err)
  case 0
  then show ?case by (auto intro: triple_ret)
next
  case (Suc n)
  let ?p = "evm_path d owed s0"
  let ?Q = "\<lambda>s. ?p s \<and> \<not> map_has (queued s) (queuedKey (canonicalId er))"
  let ?F = "\<lambda>s. ?Q s \<and> fresh_read (canonicalId er) (trace s)"
  have Q: "read_stable ?Q" by (rule path.with_queue)
  have next_try: "triple ?Q (releaseLoop d er n (k + 1) e) (\<lambda>_. ?p) (\<lambda>_. ?p)" for e
    by (rule triple_pre [OF Suc.IH]) (use Suc.prems in auto)
  have "triple ?Q (backoff d k) (\<lambda>_. ?Q) (\<lambda>_. ?p)"
    unfolding backoff_def
    by (rule triple_keeps) (intro keeps_rules read_stable.keeps_quiet [OF Q], simp)
  from triple_bnd [OF this next_try]
  have "triple ?Q (case r of Inr hash \<Rightarrow> ret (hash, err)
       | Inl e \<Rightarrow> bnd (backoff d k) (\<lambda>_. releaseLoop d er n (k + 1) e)) (\<lambda>_. ?p) (\<lambda>_. ?p)" for r
    by (cases r) (auto intro: triple_ret)
  note send = triple_attempt [OF path_send [OF obs ow] this]
  show ?case
  proof (cases "k = 1")
    case True
    show ?thesis using send [of "\<lambda>r. r"] unfolding True releaseLoop.simps Let_def
      by (simp only: less_irrefl if_False simp_thms)
  next
    case False
    with Suc.prems have "k > 1" by simp
    with send [of "\<lambda>r. r"] show ?thesis unfolding releaseLoop.simps Let_def
      by (auto intro!: read_stable.triple_check_processed [OF Q] intro: triple_ret)
  qed
qed


lemma path_settleReceipt:
  assumes obs: "\<not> dp_observeOnly d" and ow: "owes d owed w er" and "rc_status rc = Success"
  shows "triple (\<lambda>s. evm_path d owed s0 s \<and> receipt_seen hash rc (trace s))
     (settleReceipt w er hash rc d) (\<lambda>_. evm_path d owed s0) (\<lambda>_. evm_path d owed s0)"
proof -
  let ?p = "evm_path d owed s0"
  let ?S = "\<lambda>s. ?p s \<and> receipt_seen hash rc (trace s)"
  have "read_stable ?S" by (rule path.with_evidence) auto
  from triple_classifyReleaseReceipt [OF read_stable.keeps_reads(5) [OF this]]
  have cls: "triple ?S (classifyReleaseReceipt (dp_viem d) (rc_logs rc) er (\<lambda>rid. timelockQueue d rid False))
     (\<lambda>c s. ?S s \<and> (c = RVerified \<longrightarrow> verifyReleaseLogs (dp_viem d) (rc_logs rc) er = VOk)) (\<lambda>_. ?p)"
    by (rule triple_conseq) auto
  have mark: "triple (\<lambda>s. ?p s \<and> EvFulfill (tx_id w) hash (Inr True) \<in> set (trace s))
     (markProcessed d (tx_id w)) (\<lambda>_. ?p) (\<lambda>_. ?p)"
    by (rule triple_conseq [OF path_mark [OF obs, where t = "tx_id w"]]) auto
  have ok: "triple (\<lambda>s. ?p s \<and> (ok \<longrightarrow> EvFulfill (tx_id w) hash (Inr True) \<in> set (trace s)))
     (if ok then bnd (markProcessed d (tx_id w)) (\<lambda>_. ret fulfilled) else ret fulfill_api_failed)
     (\<lambda>_. ?p) (\<lambda>_. ?p)" for ok
    using triple_bnd [OF mark keeps_ret] by (cases ok) (auto intro: triple_ret)
  have owed: "(tx_id w, er) \<in> owed" using ow by (simp add: owes_def)
  show ?thesis
    unfolding settleReceipt_def
  proof (rule triple_bnd [OF cls], goal_cases)
    case (1 c)
    show ?case
    proof (cases c)
      case RVerified
      show ?thesis
        unfolding RVerified ReleaseReceiptClass.case
        by (rule triple_pre [OF path_deep_then_fulfill [OF obs owed ok]])
          (use assms(3) in \<open>auto simp: pays_seen_def receipt_pays_def block_seen_def\<close>)
    next
      case (RQueued i x q)
      have "keeps ?p (bnd (persistQueued d w er f) (\<lambda>_. ret queued_outcome))" for f
        by (intro keeps_rules path_persistQueued [OF ow])
      then show ?thesis using RQueued by (auto intro: triple_pre)
    next
      case (RAmbiguous reason i)
      have "keeps ?p (bnd (persistQueued d w er f) (\<lambda>_. bnd (alert d key) (\<lambda>_. ret ambiguous)))" for f key
        by (intro path.reads path_persistQueued [OF ow])
      then show ?thesis using RAmbiguous by (auto intro: triple_pre)
    qed
  qed
qed

lemma path_awaitRelease:
  assumes obs: "\<not> dp_observeOnly d" and ow: "owes d owed w er"
  shows "keeps (evm_path d owed s0) (awaitRelease w er h d)"
  unfolding awaitRelease_def
proof (rule triple_attempt)
  let ?p = "evm_path d owed s0"
  let ?R = "\<lambda>r s. ?p s \<and> (\<forall>rc. r = Inr rc \<longrightarrow> receipt_seen h rc (trace s))"
  show "triple ?p (waitForReceipt d h) (\<lambda>rc. ?R (Inr rc)) (\<lambda>e. ?R (Inl e))"
    unfolding waitForReceipt_def
    by (rule triple_call) (auto intro: path.stable simp: receipt_seen_def)
  have "keeps ?p (bnd (quiet (d_resetNonce (dp_chain d))) (\<lambda>_. handleEvmFailure w er m d))" for m
    by (intro path.reads path_handleEvmFailure [OF ow])
  note nonce = triple_pre [OF this]
  show "triple (?R r) (case r of Inl e \<Rightarrow> bnd (quiet (d_resetNonce (dp_chain d))) (\<lambda>_.
           handleEvmFailure w er (''receipt wait failed for '' @ h @ '': '' @ e) d)
       | Inr rc \<Rightarrow>
           if rc_status rc \<noteq> Success then
             bnd (quiet (d_resetNonce (dp_chain d))) (\<lambda>_. handleEvmFailure w er (''release tx reverted: '' @ h) d)
           else settleReceipt w er h rc d) (\<lambda>_. ?p) (\<lambda>_. ?p)" for r
    by (cases r) (auto intro: nonce path_settleReceipt [OF obs ow])
qed

lemma path_releaseAndSettle:
  assumes obs: "\<not> dp_observeOnly d" and ow: "owes d owed w er"
  shows "triple (\<lambda>s. (evm_path d owed s0 s \<and> \<not> map_has (queued s) (queuedKey (canonicalId er))) \<and>
        fresh_read (canonicalId er) (trace s))
     (releaseAndSettle w er d) (\<lambda>_. evm_path d owed s0) (\<lambda>_. evm_path d owed s0)"
  unfolding releaseAndSettle_def case_prod_beta
proof (rule triple_bnd)
  show "triple (\<lambda>s. (evm_path d owed s0 s \<and> \<not> map_has (queued s) (queuedKey (canonicalId er))) \<and>
        fresh_read (canonicalId er) (trace s)) (releaseLoop d er (maxAttempts d) 1 '''')
     (\<lambda>_. evm_path d owed s0) (\<lambda>_. evm_path d owed s0)"
    by (rule triple_pre [OF path_releaseLoop [OF obs ow]]) auto
  show "keeps (evm_path d owed s0) (if fst r = '''' then
       handleEvmFailure w er (str_or (snd r) ''release submission failed'') d
     else awaitRelease w er (fst r) d)" for r
    by (intro keeps_if path_handleEvmFailure [OF ow] path_awaitRelease [OF obs ow])
qed

lemma path_releaseOnTruth:
  assumes ow: "owes d owed w er"
  shows "triple (\<lambda>s. evm_path d owed s0 s \<and> \<not> map_has (queued s) (queuedKey (canonicalId er)))
     (releaseOnTruth w er d) (\<lambda>_. evm_path d owed s0) (\<lambda>_. evm_path d owed s0)"
  unfolding releaseOnTruth_def
proof (rule read_stable.triple_check_processed [OF path.with_queue], goal_cases)
  case (1 e)
  show ?case by (auto intro: triple_ret)
next
  case 2
  have "keeps (evm_path d owed s0) (bnd (reconcileProcessedId er d) (\<lambda>r. ret observed))"
    by (intro path.reads path.keeps_reconcileProcessedId)
  with path_reconcile_apply [OF ow] show ?case by (auto intro: triple_pre)
next
  case 3
  show ?case
    using path_releaseAndSettle [OF _ ow] by (auto intro: triple_ret)
qed

text \<open>The releases a withdrawal of the feed is owed.\<close>

definition owed_by :: "'w EvmPayoutDeps \<Rightarrow> NormalizedEvmWithdrawal \<Rightarrow> (string \<times> ExpectedRelease) set" where
  "owed_by d w = {(t, er). t = tx_id w \<and> (\<exists>a. evm_asset (payoutRoute (token_symbol w)) = Some a \<and>
     expectedReleaseFor (dp_viem d) w a (dp_bridgeAddress d) (dp_usdcAddress d) = Inr er)}"

lemma owed_by_owes:
  assumes "owed_by d w \<subseteq> owed" and "evm_asset (payoutRoute (token_symbol w)) = Some a"
    and "expectedReleaseFor (dp_viem d) w a (dp_bridgeAddress d) (dp_usdcAddress d) = Inr er"
  shows "owes d owed w er"
  using assms expectedReleaseFor_owes [OF assms(3)] by (auto simp: owes_def owed_by_def)

lemma path_processEvmWithdrawal:
  assumes "owed_by d w \<subseteq> owed"
  shows "keeps (evm_path d owed s0) (processEvmWithdrawal w d)"
proof (cases "evm_asset (payoutRoute (token_symbol w))")
  case None
  then show ?thesis by (auto simp: processEvmWithdrawal_def intro!: path.reads)
next
  case (Some a)
  let ?x = "expectedReleaseFor (dp_viem d) w a (dp_bridgeAddress d) (dp_usdcAddress d)"
  let ?n = "\<lambda>s. \<not> map_has (queued s) (queuedKey (rougeBridgeId (dp_viem d) (tx_id w)))"
  have release: "triple (\<lambda>s. evm_path d owed s0 s \<and> ?n s) (bnd (lift_sum ?x) (\<lambda>er. releaseOnTruth w er d))
     (\<lambda>_. evm_path d owed s0) (\<lambda>_. evm_path d owed s0)"
  proof (cases ?x)
    case (Inr er)
    with path_releaseOnTruth [OF owed_by_owes [OF assms Some Inr]] expectedReleaseFor_owes(1) [OF Inr]
    show ?thesis by (simp add: lift_sum_def)
  qed (auto simp: lift_sum_def intro: triple_throw)
  have alert: "keeps (evm_path d owed s0) (bnd (alert d key) (\<lambda>_. ret out))" for key out
    by (intro path.reads)
  have "keeps (evm_path d owed s0) (bnd (gets (\<lambda>s. \<not> ?n s)) (\<lambda>q. if q then ret skipped_queued
     else if dp_bridgeAddress d = '''' then bnd (alert d (''no-bridge:'' @ tx_id w)) (\<lambda>_. ret skipped_no_bridge)
     else bnd (lift_sum ?x) (\<lambda>er. releaseOnTruth w er d)))"
    by (rule triple_bnd [where R = "\<lambda>q s. evm_path d owed s0 s \<and> q = (\<not> ?n s)"])
      (auto intro: triple_gets triple_ret triple_pre [OF release] triple_pre [OF alert])
  then show ?thesis
    unfolding processEvmWithdrawal_def Some option.case not_not by (rule keeps_if [OF alert])
qed

text \<open>The poll: an entry of the queue stands for an owed release, so what it settles is owed.\<close>

context read_stable
begin

lemma triple_executedRelease:
  "triple I (executedRelease d er n)
     (\<lambda>p s. I s \<and> (\<forall>h. p = Some h \<longrightarrow> pays_seen (dp_viem d) er h (trace s))) (\<lambda>_. I)"
  unfolding executedRelease_def
proof (rule triple_bnd [OF keeps_reads(9)], rule triple_bnd [OF triple_firstVerified])
  let ?Q = "\<lambda>p s. I s \<and> (\<forall>h. p = Some h \<longrightarrow> pays_seen (dp_viem d) er h (trace s))"
  have "triple I (bnd (findReleaseTxHashes d er) (firstVerified d er)) ?Q (\<lambda>_. I)"
    by (rule triple_bnd [OF keeps_reads(6) triple_firstVerified])
  then show "triple (?Q p) (case p of None \<Rightarrow> bnd (findReleaseTxHashes d er) (firstVerified d er)
      | Some h \<Rightarrow> ret (Some h)) ?Q (\<lambda>_. I)" for p
    by (cases p) (auto intro: triple_ret)
qed

end

lemma path_pollExecuted:
  assumes "owes d owed w er"
  shows "keeps (evm_path d owed s0) (pollExecuted d w er i xa rc)"
  unfolding pollExecuted_def
proof (rule triple_attempt)
  let ?R = "\<lambda>r s. evm_path d owed s0 s \<and> (\<forall>h. r = Inr (Some h) \<longrightarrow> pays_seen (dp_viem d) er h (trace s))"
  show "triple (evm_path d owed s0) (executedRelease d er i) (\<lambda>p. ?R (Inr p)) (\<lambda>e. ?R (Inl e))"
    using path.triple_executedRelease by simp
  note apply_rule = triple_bnd [OF triple_pre [OF path_applyReconciliation [OF assms]] keeps_ret]
  show "triple (?R r) (case r of Inl e \<Rightarrow> ret ()
       | Inr paid \<Rightarrow>
           bnd (applyReconciliation w er (case paid of
                  Some h \<Rightarrow> pollResult i xa Paid h rc ''''
                | None \<Rightarrow> pollResult i xa Ambiguous '''' rc
                    ''timelock executed but no verifiable BridgeRelease found'')
                d ''timelock executed'') (\<lambda>_. ret ()))
     (\<lambda>_. evm_path d owed s0) (\<lambda>_. evm_path d owed s0)" for r
    by (auto intro: triple_ret intro!: apply_rule simp: pollResult_def split: sum.split option.split)
qed

lemma path_pollCancelled:
  assumes "owes d owed w er"
  shows "keeps (evm_path d owed s0) (pollCancelled d w er i xa rc)"
  unfolding pollCancelled_def
  by (intro path.reads path_applyReconciliation_unpaid [OF assms]) (simp_all add: pollResult_def)

lemma entry_ok_update:
  "entry_ok d owed k rc \<Longrightarrow> entry_ok d owed k (rc\<lparr>q_status := st, q_note := n, q_updated_at := t\<rparr>)"
  by (auto simp: entry_ok_def record_release_def)

lemma path_pollRecord:
  assumes ow: "owes d owed w er" and ok: "entry_ok d owed k rc"
  shows "keeps (evm_path d owed s0) (pollRecord d k rc w er i xa)"
proof -
  have "keeps (evm_path d owed s0) (pollMismatch d k rc i)" if "\<not> dp_observeOnly d"
    unfolding pollMismatch_def
    by (intro path.reads path_put path_saveQueued entry_ok_update ok that)
  then show ?thesis
    unfolding pollRecord_def
    by (intro path.reads path_pollExecuted [OF ow] path_pollCancelled [OF ow])
qed

lemma path_pollOne:
  assumes "entry_ok d owed k rc"
  shows "keeps (evm_path d owed s0) (pollOne d (k, rc))"
proof (cases "BigInt_str (q_amount rc)")
  case None
  then show ?thesis by (simp add: pollOne_def lift_opt_def keeps_rules)
next
  case (Some n)
  then have "owes d owed \<lparr>tx_id = q_stored_tx_id rc, evm_address = q_recipient rc, amount_units = JInt 0,
      token_symbol = sym\<rparr> (record_release d rc n)" for sym
    using assms by (simp add: owes_def entry_ok_def) (simp add: record_release_def)
  note rules = keeps_rules path_pollRecord [OF this assms, unfolded record_release_def]
  show ?thesis
    unfolding pollOne_def prod.case Some lift_opt_def option.case bnd_ret by (intro rules)
qed

theorem path_queue_ok:
  assumes "evm_path d owed s0 s" and "all_entries (entry_ok d owed) (queued s0)"
  shows "all_entries (entry_ok d owed) (queued s)"
  using assms
proof (induction rule: rtranclp_induct)
  case (step s s')
  then show ?case
    by (auto elim!: evm_step.cases intro: all_entries_set all_entries_delete)
qed

lemma path_pollQueuedWithdrawals:
  assumes "all_entries (entry_ok d owed) (queued s0)"
  shows "keeps (evm_path d owed s0) (pollQueuedWithdrawals d)"
  unfolding pollQueuedWithdrawals_def
proof (rule keeps_if [OF keeps_ret], rule triple_bnd)
  let ?R = "\<lambda>q s. evm_path d owed s0 s \<and> all_entries (entry_ok d owed) q"
  show "triple (evm_path d owed s0) (gets queued) ?R (\<lambda>_. evm_path d owed s0)"
    using path_queue_ok [OF _ assms] by (auto intro: triple_gets)
  show "triple (?R q) (for_each q (pollOne d)) (\<lambda>_. evm_path d owed s0) (\<lambda>_. evm_path d owed s0)" for q
  proof (cases "all_entries (entry_ok d owed) q")
    case True
    then have "keeps (evm_path d owed s0) (for_each q (pollOne d))"
      by (intro keeps_for_each) (auto intro: path_pollOne dest: all_entriesD)
    then show ?thesis by (rule triple_pre) simp
  qed (simp add: triple_def)
qed

section \<open>Sequences of calls\<close>

text \<open>What the relayer's loop runs: a withdrawal of the feed, or the poll over the queue.\<close>

datatype payout_job = Withdrawal NormalizedEvmWithdrawal | PollQueued

fun run_job :: "'w EvmPayoutDeps \<Rightarrow> payout_job \<Rightarrow> 'w evm_state \<Rightarrow> 'w evm_state" where
  "run_job d (Withdrawal w) = exec (processEvmWithdrawal w d)"
| "run_job d PollQueued = exec (pollQueuedWithdrawals d)"

fun job_ok :: "'w EvmPayoutDeps \<Rightarrow> (string \<times> ExpectedRelease) set \<Rightarrow> payout_job \<Rightarrow> bool" where
  "job_ok d owed (Withdrawal w) = (owed_by d w \<subseteq> owed)"
| "job_ok d owed PollQueued = True"

abbreviation queue_ok :: "'w EvmPayoutDeps \<Rightarrow> (string \<times> ExpectedRelease) set \<Rightarrow> 'w evm_state \<Rightarrow> bool" where
  "queue_ok d owed s \<equiv> all_entries (entry_ok d owed) (queued s)"

interpretation jobs: invariant_machine "run_job d" "job_ok d owed" "\<lambda>s. queue_ok d owed s0 \<and> evm_path d owed s0 s"
proof
  fix s i
  assume "queue_ok d owed s0 \<and> evm_path d owed s0 s" and "job_ok d owed i"
  then show "queue_ok d owed s0 \<and> evm_path d owed s0 (run_job d i s)"
    by (cases i) (auto intro: keeps_exec path_processEvmWithdrawal path_pollQueuedWithdrawals)
qed

lemma jobs_path:
  "list_all (job_ok d owed) js \<Longrightarrow> queue_ok d owed s \<Longrightarrow> evm_path d owed s (fold (run_job d) js s)"
  using jobs.run_inv [of d owed js s s] by simp

section \<open>What a path says about the events it recorded\<close>

inductive event_ok ::
  "'w EvmPayoutDeps \<Rightarrow> (string \<times> ExpectedRelease) set \<Rightarrow> evm_event \<Rightarrow> evm_event list \<Rightarrow> bool"
  for d owed where
  "benign e \<Longrightarrow> event_ok d owed e es"
| "\<not> dp_observeOnly d \<Longrightarrow> (t, er) \<in> owed \<Longrightarrow> canonicalId er = rougeBridgeId (dp_viem d) t \<Longrightarrow>
   submits d er e \<Longrightarrow> fresh_read (canonicalId er) es \<Longrightarrow> event_ok d owed e es"
| "\<not> dp_observeOnly d \<Longrightarrow> fresh_read (rougeBridgeId (dp_viem d) t) es \<Longrightarrow>
   event_ok d owed (EvReportFailure t m r) es"
| "\<not> dp_observeOnly d \<Longrightarrow> dp_autoRefund d \<Longrightarrow> refund_due t es \<Longrightarrow>
   fresh_read (rougeBridgeId (dp_viem d) t) es \<Longrightarrow> event_ok d owed (EvRefund t r) es"
| "\<not> dp_observeOnly d \<Longrightarrow> (t, er) \<in> owed \<Longrightarrow> pays_seen (dp_viem d) er h es \<Longrightarrow> deep_seen d h es \<Longrightarrow>
   event_ok d owed (EvFulfill t h r) es"
| "\<not> dp_observeOnly d \<Longrightarrow>
   (\<exists>h. EvFulfill t h (Inr True) \<in> set es) \<or> EvRefund t (Inr True) \<in> set es \<Longrightarrow>
   event_ok d owed (EvMark t r) es"
| "\<not> dp_observeOnly d \<Longrightarrow> event_ok d owed (EvSave r) es"

lemma step_event_ok:
  assumes "evm_step d owed s s'"
  shows "trace s' = trace s \<or> (\<exists>e. trace s' = e # trace s \<and> event_ok d owed e (trace s))"
  using assms by cases (auto intro: event_ok.intros refund_dueI)

lemma path_trace:
  assumes "evm_path d owed s0 s"
  shows "\<exists>us. trace s = us @ trace s0"
  using assms
proof (induction rule: rtranclp_induct)
  case (step s s')
  then show ?case using step_event_ok [OF step.hyps(2)] by (metis append_Cons)
qed simp

text \<open>Every new event was recorded by one step of the path.\<close>

lemma path_event:
  assumes "evm_path d owed s0 s" and "trace s = us @ e # es @ trace s0"
  shows "\<exists>s1 s2. evm_path d owed s0 s1 \<and> evm_step d owed s1 s2 \<and>
    trace s1 = es @ trace s0 \<and> trace s2 = e # trace s1"
  using assms
proof (induction arbitrary: us rule: rtranclp_induct)
  case (step s s')
  show ?case
  proof (cases us)
    case Nil
    then show ?thesis
      using step_event_ok [OF step.hyps(2)] step.IH [of "[]"] step.hyps step.prems by force
  next
    case (Cons u us')
    then show ?thesis
      using step_event_ok [OF step.hyps(2)] step.IH [of us] step.IH [of us'] step.prems by auto
  qed
qed simp

lemma path_event_ok:
  assumes "evm_path d owed s0 s" and "trace s = us @ e # es @ trace s0"
  shows "event_ok d owed e (es @ trace s0)"
  using path_event [OF assms] step_event_ok by (metis list.inject not_Cons_self)

text \<open>One elimination per kind of event.\<close>

lemma benign_no_release: "benign e \<Longrightarrow> release_id e = None"
  by (cases e) auto

lemma submits_release_id: "submits d er e \<Longrightarrow> release_id e = Some (canonicalId er)"
  by (cases e) auto

lemma event_ok_release:
  assumes "event_ok d owed e es" and "release_id e = Some i"
  shows "\<exists>t er. (t, er) \<in> owed \<and> i = rougeBridgeId (dp_viem d) t \<and> submits d er e \<and> fresh_read i es"
  using assms by cases (fastforce simp: benign_no_release dest: submits_release_id)+

lemma event_ok_report:
  assumes "event_ok d owed (EvReportFailure t m r) es"
  shows "fresh_read (rougeBridgeId (dp_viem d) t) es"
  using assms by cases auto

lemma event_ok_refund:
  assumes "event_ok d owed (EvRefund t r) es"
  shows "dp_autoRefund d \<and> refund_due t es \<and> fresh_read (rougeBridgeId (dp_viem d) t) es"
  using assms by cases auto

lemma event_ok_fulfil:
  assumes "event_ok d owed (EvFulfill t h r) es"
  shows "\<exists>er. (t, er) \<in> owed \<and> pays_seen (dp_viem d) er h es \<and> deep_seen d h es"
  using assms by cases auto

lemma event_ok_mark:
  assumes "event_ok d owed (EvMark t r) es"
  shows "(\<exists>h. EvFulfill t h (Inr True) \<in> set es) \<or> EvRefund t (Inr True) \<in> set es"
  using assms by cases auto

lemma event_ok_observe: "event_ok d owed e es \<Longrightarrow> dp_observeOnly d \<Longrightarrow> benign e"
  by (auto elim: event_ok.cases)

lemma jobs_event_ok:
  assumes "list_all (job_ok d owed) js" and "queue_ok d owed s"
    and "trace (fold (run_job d) js s) = us @ e # es @ trace s"
  shows "event_ok d owed e (es @ trace s)"
  by (rule path_event_ok [OF jobs_path [OF assms(1,2)] assms(3)])

text \<open>In observation mode nothing but reads and alerts can happen.\<close>

lemma path_observe:
  assumes "evm_path d owed s0 s" and "dp_observeOnly d"
  shows "queued s = queued s0 \<and> (\<exists>us. trace s = us @ trace s0 \<and> list_all benign us)"
  using assms(1)
proof (induction rule: rtranclp_induct)
  case (step s s')
  then obtain us where us: "trace s = us @ trace s0" "list_all benign us" "queued s = queued s0" by auto
  from step.hyps(2) assms(2)
  have "queued s' = queued s \<and> (trace s' = trace s \<or> (\<exists>e. benign e \<and> trace s' = e # trace s))"
    by cases auto
  with us show ?case by (metis append_Cons list.pred_inject(2))
qed simp

text \<open>An id held in the queue stays there, unreleased, until a fulfilment for it is accepted.\<close>

definition cleared :: "'w EvmPayoutDeps \<Rightarrow> string \<Rightarrow> evm_event list \<Rightarrow> bool" where
  "cleared d k es = (\<exists>t h. EvFulfill t h (Inr True) \<in> set es \<and> queuedKey (rougeBridgeId (dp_viem d) t) = k)"

lemma cleared_append [simp]: "cleared d k (xs @ ys) \<longleftrightarrow> cleared d k xs \<or> cleared d k ys"
  by (auto simp: cleared_def)

lemma cleared_Cons: "cleared d k ys \<Longrightarrow> cleared d k (e # ys)"
  by (auto simp: cleared_def)

lemma path_held:
  assumes "evm_path d owed s0 s" and "map_has (queued s0) k"
  shows "map_has (queued s) k \<or> cleared d k (trace s)"
  using assms(1)
proof (induction rule: rtranclp_induct)
  case (step s s')
  from step.hyps(2) step.IH show ?case
    by cases (auto simp: map_laws cleared_def)
qed (simp add: assms(2))

lemma path_no_release_while_held:
  assumes "evm_path d owed s0 s" and "trace s = us @ e # es @ trace s0"
    and "release_id e = Some i" and "map_has (queued s0) (queuedKey i)"
  shows "cleared d (queuedKey i) (es @ trace s0)"
proof -
  obtain s1 s2 where p: "evm_path d owed s0 s1" and st: "evm_step d owed s1 s2"
    and t: "trace s1 = es @ trace s0" "trace s2 = e # trace s1"
    using path_event [OF assms(1,2)] by blast
  from st assms(3) t(2) have "\<not> map_has (queued s1) (queuedKey i)"
    by cases (auto simp: benign_no_release dest: submits_release_id)
  with path_held [OF p assms(4)] t(1) show ?thesis by simp
qed

end
