(* ===== verification/Evm_Payout_Safety.thy ===== *)
theory Evm_Payout_Safety
  imports Evm_Payout_Refine
begin

text \<open>
  The properties of the qETH/qUSDC payout orchestration: what holds of every event recorded over any
  sequence of handler calls, the bound on the release attempts of one call, and the result of a call
  on the branches that end it early and on the branch that pays.
\<close>

section \<open>Which events each part can record\<close>

text \<open>Settling (fulfil, mark, save, queue updates) on top of reading; then everything but a release.\<close>

fun settles :: "evm_event \<Rightarrow> bool" where
  "settles (EvFulfill t h r) = True"
| "settles (EvMark t r) = True"
| "settles (EvSave r) = True"
| "settles e = benign e"

lemma benign_settles: "benign e \<Longrightarrow> settles e"
  by (cases e) auto

lemma settles_no_release: "settles e \<Longrightarrow> release_id e = None"
  by (cases e) auto

locale settle_stable =
  fixes I :: "'w evm_state \<Rightarrow> bool"
  assumes settle: "I s \<Longrightarrow> settles e \<Longrightarrow> I (s\<lparr>world := w, trace := e # trace s\<rparr>)"
    and tick: "I s \<Longrightarrow> I (s\<lparr>world := w\<rparr>)"
    and requeue: "I s \<Longrightarrow> I (s\<lparr>queued := q\<rparr>)"

sublocale settle_stable \<subseteq> read_stable
  by unfold_locales (simp_all add: settle tick benign_settles)

context settle_stable
begin

lemma keeps_settle: "(\<And>r. settles (mk r)) \<Longrightarrow> keeps I (call mk f)"
  by (rule triple_call) (simp_all add: settle)

lemma keeps_writes:
  "keeps I (fulfill d t h)" "keeps I (markProcessed d t)"
  by (simp_all add: evm_call_defs keeps_settle)

lemma keeps_saveQueued: "keeps I (saveQueued d)"
  by (auto simp: triple_def saveQueued_def call_def settle split: prod.splits sum.splits)

lemma keeps_requeue: "keeps I (modify (\<lambda>s. s\<lparr>queued := f s\<rparr>))"
  by (rule triple_modify) (rule requeue)

lemma keeps_persistQueued: "keeps I (persistQueued d w er f)"
  unfolding persistQueued_def by (intro reads keeps_saveQueued keeps_requeue)

lemmas settle_rules = reads keeps_writes keeps_saveQueued keeps_requeue keeps_persistQueued
  keeps_payoutDeepEnough keeps_reconcileProcessedId keeps_classifyReleaseReceipt keeps_executedRelease

lemma keeps_applyReconciliation: "keeps I (applyReconciliation w er r d ctx)"
  unfolding applyReconciliation_def by (intro settle_rules)

lemma keeps_pollOne: "keeps I (pollOne d kr)"
  unfolding pollOne_def pollRecord_def pollMismatch_def pollExecuted_def pollCancelled_def case_prod_beta
  by (intro settle_rules keeps_applyReconciliation)

lemma keeps_pollQueuedWithdrawals: "keeps I (pollQueuedWithdrawals d)"
  unfolding pollQueuedWithdrawals_def by (intro settle_rules keeps_pollOne)

end

locale nonrelease_stable =
  fixes I :: "'w evm_state \<Rightarrow> bool"
  assumes other: "I s \<Longrightarrow> release_id e = None \<Longrightarrow> I (s\<lparr>world := w, trace := e # trace s\<rparr>)"
    and other_tick: "I s \<Longrightarrow> I (s\<lparr>world := w\<rparr>)"
    and other_requeue: "I s \<Longrightarrow> I (s\<lparr>queued := q\<rparr>)"

sublocale nonrelease_stable \<subseteq> settle_stable
  by unfold_locales (simp_all add: other other_tick other_requeue settles_no_release)

context nonrelease_stable
begin

lemma keeps_other: "(\<And>r. release_id (mk r) = None) \<Longrightarrow> keeps I (call mk f)"
  by (rule triple_call) (simp_all add: other)

lemma keeps_daemon: "keeps I (reportFailure d t m)" "keeps I (refund d t)"
  by (simp_all add: evm_call_defs keeps_other)

lemmas all_rules = settle_rules keeps_daemon keeps_applyReconciliation

lemma keeps_guardedRefund: "keeps I (guardedRefund w route d)"
  unfolding guardedRefund_def refundOnTruth_def by (intro all_rules)

lemma keeps_handleEvmFailure: "keeps I (handleEvmFailure w er m d)"
  unfolding handleEvmFailure_def case_prod_beta
  by (intro all_rules keeps_guardedRefund)

lemma keeps_awaitRelease: "keeps I (awaitRelease w er h d)"
  unfolding awaitRelease_def settleReceipt_def by (intro all_rules keeps_handleEvmFailure)

end

definition release_count :: "evm_event list \<Rightarrow> nat" where
  "release_count es = length (filter (\<lambda>e. release_id e \<noteq> None) es)"

interpretation cnt: nonrelease_stable "\<lambda>s. release_count (trace s) \<le> c"
  by unfold_locales (simp_all add: release_count_def)

lemma sendRelease_count:
  "triple (\<lambda>s. release_count (trace s) \<le> c) (sendRelease d er)
     (\<lambda>_ s. release_count (trace s) \<le> Suc c) (\<lambda>_ s. release_count (trace s) \<le> Suc c)"
  unfolding sendRelease_def releaseETH_def releaseERC20_def
  by (rule triple_bnd [where R = "\<lambda>_ s. release_count (trace s) \<le> c"])
    (auto intro!: triple_quiet triple_call simp: release_count_def)

lemma releaseLoop_count:
  "triple (\<lambda>s. release_count (trace s) \<le> c) (releaseLoop d er n k err)
     (\<lambda>_ s. release_count (trace s) \<le> c + n) (\<lambda>_ s. release_count (trace s) \<le> c + n)"
proof (induction n arbitrary: c k err)
  case 0
  show ?case by (auto intro: triple_ret)
next
  case (Suc n)
  let ?C = "\<lambda>m s. release_count (trace s) \<le> m"
  have "triple (?C (Suc c)) (backoff d k) (\<lambda>_. ?C (Suc c)) (\<lambda>_. ?C (c + Suc n))"
    unfolding backoff_def by (rule triple_keeps) (intro cnt.all_rules, simp)
  moreover have "triple (?C (Suc c)) (releaseLoop d er n (k + 1) e) (\<lambda>_. ?C (c + Suc n)) (\<lambda>_. ?C (c + Suc n))" for e
    using Suc.IH [of "Suc c"] by simp
  ultimately have step: "triple (?C (Suc c)) (case r of Inl e \<Rightarrow> bnd (backoff d k) (\<lambda>_. releaseLoop d er n (k + 1) e)
      | Inr hash \<Rightarrow> ret (hash, err)) (\<lambda>_. ?C (c + Suc n)) (\<lambda>_. ?C (c + Suc n))" for r
    by (cases r) (auto intro: triple_bnd triple_ret)
  have "triple (?C c) (attempt (sendRelease d er) (\<lambda>r. case r of
      Inl e \<Rightarrow> bnd (backoff d k) (\<lambda>_. releaseLoop d er n (k + 1) e)
      | Inr hash \<Rightarrow> ret (hash, err))) (\<lambda>_. ?C (c + Suc n)) (\<lambda>_. ?C (c + Suc n))"
    by (rule triple_attempt [OF sendRelease_count step])
  then show ?case
    unfolding releaseLoop.simps Let_def
    by (auto intro!: cnt.triple_check_processed triple_ret elim: triple_pre)
qed

lemma processEvmWithdrawal_count:
  fixes d :: "'w EvmPayoutDeps"
  shows "triple (\<lambda>s. release_count (trace s) \<le> c) (processEvmWithdrawal w d)
     (\<lambda>_ s. release_count (trace s) \<le> c + maxAttempts d) (\<lambda>_ s. release_count (trace s) \<le> c + maxAttempts d)"
proof -
  let ?C = "\<lambda>m (s :: 'w evm_state). release_count (trace s) \<le> m"
  let ?D = "?C (c + maxAttempts d)"
  have weak: "triple (?C c) m (\<lambda>_. ?D) (\<lambda>_. ?D)" if "keeps ?D m" for m :: "('w evm_state, PayoutOutcome) io"
    using that by (rule triple_pre) simp
  have settle: "triple (?C c) (releaseAndSettle w er d) (\<lambda>_. ?D) (\<lambda>_. ?D)" for er
    unfolding releaseAndSettle_def case_prod_beta
    by (rule triple_bnd [OF releaseLoop_count])
      (intro cnt.all_rules cnt.keeps_handleEvmFailure cnt.keeps_awaitRelease)
  have truth: "triple (?C c) (releaseOnTruth w er d) (\<lambda>_. ?D) (\<lambda>_. ?D)" for er
    unfolding releaseOnTruth_def
    by (rule cnt.triple_check_processed)
      (auto intro!: weak triple_ret cnt.all_rules cnt.keeps_applyReconciliation intro: triple_pre [OF settle])
  have release: "triple (?C c) (bnd (lift_sum r) (\<lambda>er. releaseOnTruth w er d)) (\<lambda>_. ?D) (\<lambda>_. ?D)" for r
    by (rule triple_bnd [OF _ truth]) (auto intro: triple_lift_sum)
  have alert: "triple (?C c) (bnd (alert d key) (\<lambda>_. ret out)) (\<lambda>_. ?D) (\<lambda>_. ?D)" for key and out :: PayoutOutcome
    by (rule weak) (intro cnt.all_rules)
  have "triple (?C c) (bnd (gets f) (\<lambda>q. if q then ret skipped_queued
      else if dp_bridgeAddress d = '''' then bnd (alert d key) (\<lambda>_. ret skipped_no_bridge)
      else bnd (lift_sum r) (\<lambda>er. releaseOnTruth w er d))) (\<lambda>_. ?D) (\<lambda>_. ?D)" for f key r
    by (rule triple_bnd [where R = "\<lambda>_. ?C c", OF triple_gets])
      (simp, intro triple_if alert release weak keeps_ret)
  then show ?thesis
    unfolding processEvmWithdrawal_def
    by (cases "evm_asset (payoutRoute (token_symbol w))") (simp_all only: option.case, intro alert, intro triple_if alert)
qed

section \<open>A concrete instance\<close>

text \<open>
  One withdrawal and two chains to evaluate the handlers on. The world is whether the bridge contract
  processed the id. On the first chain the release is mined in block 10 and pays; on the second every
  submission is refused and the daemon asks for a refund.
\<close>

definition demo_viem :: viem where
  "demo_viem = \<lparr>keccak256 = (\<lambda>bs. ''0xa1''), stringToBytes = (\<lambda>s. []), isAddress = (\<lambda>a. True),
     getAddress = Inr,
     decodeBridge = (\<lambda>dt ts. if dt = ''0x01'' then Some (BridgeReleaseETH ''0xcc'' 5000000000000 ''0xa1'') else None),
     decodeTransfer = (\<lambda>dt ts. None)\<rparr>"

definition demo_receipt :: ReceiptLike where
  "demo_receipt = \<lparr>rc_status = Success,
     rc_logs = [\<lparr>log_address = ''0xbb'', log_data = ''0x01'', log_topics = [], log_txHash = '''',
                 log_blockNumber = None\<rparr>], rc_blockNumber = Some 10\<rparr>"

definition demo_record :: TimelockRecord where
  "demo_record = \<lparr>tl_token = ZERO_ADDRESS, tl_to = ''0xcc'', tl_amount = 5000000000000, tl_l1TxId = ''0xa1'',
     tl_executeAfter = 9, tl_executed = True, tl_cancelled = False\<rparr>"

definition demo_chain :: "exn + hex \<Rightarrow> bool EvmChainDeps" where
  "demo_chain res = \<lparr>
     d_releaseETH = (\<lambda>to n i k w. (res, case res of Inl e \<Rightarrow> w | Inr h \<Rightarrow> True)),
     d_releaseERC20 = (\<lambda>tok to n i k w. (res, case res of Inl e \<Rightarrow> w | Inr h \<Rightarrow> True)),
     d_waitForReceipt = (\<lambda>h w. (Inr demo_receipt, w)),
     d_getReceipt = (\<lambda>h w. (Inr (Some demo_receipt), w)),
     d_processedL1Txs = (\<lambda>i w. (Inr w, w)),
     d_headBlock = (\<lambda>w. (Inr 30, w)),
     d_timelockQueue = (\<lambda>i c w. (Inr demo_record, w)),
     d_findReleaseTxHashes = (\<lambda>er w. (Inr [''0x77''], w)),
     d_findQueuedRequestIds = (\<lambda>w. (Inr [], w)),
     d_findTimelockQueuedEvent = (\<lambda>i w. (Inr None, w)),
     d_findTimelockExecutedTxHashes = (\<lambda>i w. (Inr [], w)),
     d_findTimelockCancelled = (\<lambda>i w. (Inr False, w)),
     d_getNonce = (\<lambda>w. (Inr 0, w)),
     d_resetNonce = (\<lambda>w. (Inr (), w))\<rparr>"

definition demo_deps :: "bool \<Rightarrow> exn + hex \<Rightarrow> bool EvmPayoutDeps" where
  "demo_deps obs res = \<lparr>dp_viem = demo_viem, dp_bridgeAddress = ''0xbb'', dp_usdcAddress = ''0xdd'',
     dp_autoRefund = True, dp_maxRetries = Some 1,
     d_markProcessed = (\<lambda>t w. (Inr (), w)), d_saveQueued = (\<lambda>q w. (Inr (), w)),
     dp_chain = demo_chain res,
     dp_daemon = \<lparr>d_fulfill = (\<lambda>t h w. (Inr True, w)),
                  d_reportFailure = (\<lambda>t e w. (Inr (True, 3), w)), d_refund = (\<lambda>t w. (Inr True, w))\<rparr>,
     d_alert = (\<lambda>k w. (Inr (), w)), d_sleep = (\<lambda>n w. (Inr (), w)), d_now = (\<lambda>w. (Inr ''now'', w)),
     dp_fulfillConfirmations = Some (JInt 12), dp_observeOnly = obs, dp_env = (\<lambda>k. None)\<rparr>"

definition demo_w :: NormalizedEvmWithdrawal where
  "demo_w = \<lparr>tx_id = ''t1'', evm_address = ''0xcc'', amount_units = JInt 5, token_symbol = ''qETH''\<rparr>"

definition demo_init :: "bool evm_state" where
  "demo_init = \<lparr>world = False, trace = [], queued = []\<rparr>"

text \<open>The same withdrawal, held in the local queue.\<close>

definition demo_entry :: QueuedRecord where
  "demo_entry = \<lparr>q_stored_tx_id = ''t1'', q_canonical_l1_tx_id = ''0xa1'', q_request_id = dec_int 1,
     q_asset = Eth, q_recipient = ''0xcc'', q_amount = dec_int 5000000000000, q_execute_after = dec_int 9,
     q_release_submission_tx_hash = '''', q_status = SQueued, q_note = '''', q_updated_at = ''''\<rparr>"

definition demo_held :: "bool evm_state" where
  "demo_held = \<lparr>world = False, trace = [], queued = [(''0xa1'', demo_entry)]\<rparr>"

lemmas demo_defs = demo_record_def demo_viem_def demo_receipt_def demo_chain_def demo_deps_def demo_w_def demo_init_def

lemma demo_route: "payoutRoute ''qETH'' = REth"
  by (simp add: payoutRoute_def js_eval)

lemma demo_expected:
  "expectedReleaseFor demo_viem demo_w Eth ''0xbb'' ''0xdd'' =
     Inr \<lparr>asset = Eth, recipient = ''0xcc'', amount = 5000000000000, canonicalId = ''0xa1'',
          bridgeAddress = ''0xbb'', usdcAddress = ''0xdd''\<rparr>"
  by (simp add: expectedReleaseFor_def demo_defs owedAmount_def unitsToWei_def rougeBridgeId_def)

lemma demo_depth: "evmFulfillDepth (demo_deps obs res) = JInt 12"
  by (simp add: evmFulfillDepth_def demo_defs daemonMinConfirmations_def env_or_empty_def parseInt10_def js_eval)

lemma demo_verify:
  "receipt_pays demo_viem \<lparr>asset = Eth, recipient = ''0xcc'', amount = 5000000000000,
     canonicalId = ''0xa1'', bridgeAddress = ''0xbb'', usdcAddress = ''0xdd''\<rparr> demo_receipt"
  by (simp add: receipt_pays_def verifyReleaseLogs_def demo_defs sameAddress_def sameHex_def matches_eth_def
      decodeBridgeEvents.simps js_eval)

lemma demo_fields:
  "tx_id demo_w = ''t1''" "evm_address demo_w = ''0xcc''" "amount_units demo_w = JInt 5"
  "token_symbol demo_w = ''qETH''"
  "dp_viem (demo_deps obs res) = demo_viem" "dp_bridgeAddress (demo_deps obs res) = ''0xbb''"
  "dp_usdcAddress (demo_deps obs res) = ''0xdd''" "dp_autoRefund (demo_deps obs res)"
  "dp_maxRetries (demo_deps obs res) = Some 1" "dp_chain (demo_deps obs res) = demo_chain res"
  "dp_observeOnly (demo_deps obs res) = obs" "rougeBridgeId demo_viem t = ''0xa1''"
  "trace demo_init = []" "queued demo_init = []" "isEvmAddress demo_viem ''0xcc''" "queuedKey ''0xa1'' = ''0xa1''"
  by (simp_all add: demo_defs rougeBridgeId_def isEvmAddress_def queuedKey_def js_eval)

lemma world_demo_init: "world demo_init = False"
  by (simp add: demo_init_def)

lemma demo_calls:
  "d_fulfill (dp_daemon (demo_deps obs res)) t h w = (Inr True, w)"
  "d_reportFailure (dp_daemon (demo_deps obs res)) t m w = (Inr (True, 3), w)"
  "d_refund (dp_daemon (demo_deps obs res)) t w = (Inr True, w)"
  "d_markProcessed (demo_deps obs res) t w = (Inr (), w)"
  "d_alert (demo_deps obs res) key w = (Inr (), w)"
  "d_releaseETH (demo_chain res) to n i k w = (res, case res of Inl e \<Rightarrow> w | Inr h \<Rightarrow> True)"
  "d_waitForReceipt (demo_chain res) h w = (Inr demo_receipt, w)"
  "d_processedL1Txs (demo_chain res) i w = (Inr w, w)"
  "d_headBlock (demo_chain res) w = (Inr 30, w)"
  "d_getNonce (demo_chain res) w = (Inr 0, w)"
  "d_resetNonce (demo_chain res) w = (Inr (), w)"
  "d_getReceipt (demo_chain res) h w = (Inr (Some demo_receipt), w)"
  "d_findReleaseTxHashes (demo_chain res) er w = (Inr [''0x77''], w)"
  "d_findTimelockExecutedTxHashes (demo_chain res) n w = (Inr [], w)"
  "d_timelockQueue (demo_chain res) n c w = (Inr demo_record, w)"
  "d_saveQueued (demo_deps obs res) q w = (Inr (), w)"
  "rc_status demo_receipt = Success" "rc_blockNumber demo_receipt = Some 10"
  by (simp_all add: demo_defs)

lemmas demo_eval = demo_fields demo_calls demo_route demo_expected demo_depth io_defs exec_def evm_call_defs
  processEvmWithdrawal_def releaseOnTruth_def releaseAndSettle_def maxAttempts_def sendRelease_def
  backoff_def awaitRelease_def settleReceipt_def handleEvmFailure_def guardedRefund_def refundOnTruth_def

lemma demo_classified:
  "classifyReleaseReceipt demo_viem (rc_logs demo_receipt) \<lparr>asset = Eth, recipient = ''0xcc'',
     amount = 5000000000000, canonicalId = ''0xa1'', bridgeAddress = ''0xbb'', usdcAddress = ''0xdd''\<rparr> rd = ret RVerified"
  using demo_verify by (simp add: classifyReleaseReceipt_def receipt_pays_def)

lemma demo_pays:
  "run_job (demo_deps False (Inr ''0x77'')) (Withdrawal demo_w) \<lparr>world = False, trace = ts, queued = []\<rparr> =
     \<lparr>world = True, trace = [EvMark ''t1'' (Inr ()), EvFulfill ''t1'' ''0x77'' (Inr True), EvHead (Inr 30),
        EvWaitReceipt ''0x77'' (Inr demo_receipt),
        EvReleaseETH ''0xcc'' 5000000000000 ''0xa1'' 0 (Inr ''0x77''), EvProcessed ''0xa1'' (Inr False)] @ ts,
      queued = []\<rparr>"
  by (simp add: demo_eval demo_classified map_laws map_get_def payoutDeepEnough_def demo_depth depth_at_def)

lemma demo_refunds:
  "run_job (demo_deps False (Inl ''refused'')) (Withdrawal demo_w) demo_init =
     \<lparr>world = False, trace = [EvMark ''t1'' (Inr ()), EvAlert ''refund:t1'' (Inr ()), EvRefund ''t1'' (Inr True),
        EvProcessed ''0xa1'' (Inr False), EvAlert ''t1'' (Inr ()), EvReportFailure ''t1'' ''refused'' (Inr (True, 3)),
        EvProcessed ''0xa1'' (Inr False),
        EvReleaseETH ''0xcc'' 5000000000000 ''0xa1'' 0 (Inl ''refused''), EvProcessed ''0xa1'' (Inr False)],
      queued = []\<rparr>"
  by (simp add: demo_eval map_laws map_get_def demo_init_def refundDecision_def str_or_def)

lemma demo_polls:
  "run_job (demo_deps False res) PollQueued demo_held =
     \<lparr>world = False, trace = [EvSave (Inr ()), EvMark ''t1'' (Inr ()), EvFulfill ''t1'' ''0x77'' (Inr True), EvHead (Inr 30),
        EvGetReceipt ''0x77'' (Inr (Some demo_receipt)), EvGetReceipt ''0x77'' (Inr (Some demo_receipt)),
        EvFindReleases ''0xa1'' (Inr [''0x77'']), EvFindExecuted 1 (Inr []), EvTimelock 1 True (Inr demo_record)],
      queued = []\<rparr>"
proof -
  have "timelockRecordMatches demo_record (expectedTimelockFor \<lparr>asset = Eth, recipient = ''0xcc'',
     amount = 5000000000000, canonicalId = ''0xa1'', bridgeAddress = ''0xbb'', usdcAddress = ''0xdd''\<rparr> 9)"
    by (simp add: timelockRecordMatches_def expectedTimelockFor_def demo_record_def sameAddress_def sameHex_def
        ZERO_ADDRESS_def)
  moreover have "tl_executed demo_record" by (simp add: demo_record_def)
  ultimately show ?thesis
    using demo_verify
    by (simp add: demo_eval demo_held_def demo_entry_def pollQueuedWithdrawals_def pollOne_def pollRecord_def
        pollExecuted_def executedRelease_def applyReconciliation_def pollResult_def payoutDeepEnough_def
        depth_at_def map_delete_def saveQueued_def)
qed

lemma demo_held_ok:
  "queue_ok (demo_deps obs res) (owed_by (demo_deps obs res) demo_w) demo_held"
  "map_has (queued demo_held) ''0xa1''" "trace demo_held = []"
  using demo_expected
  by (auto simp: demo_held_def all_entries_def entry_ok_def demo_entry_def owed_by_def record_release_def
      demo_fields demo_route map_laws map_get_def)

section \<open>Every recorded event is justified\<close>

text \<open>C1: Over any sequence of withdrawals and queue polls, a release is only ever submitted right after a
  read of \<open>processedL1Txs\<close> that answered no for the same id, with no submission for that id since
  the read; and what is submitted (asset, recipient, amount, id) is the release that a withdrawal
  of the feed is owed.\<close>

theorem release_needs_fresh_read:
  assumes "list_all (job_ok d owed) js" and "queue_ok d owed s"
    and "trace (fold (run_job d) js s) = us @ e # es @ trace s" and "release_id e = Some i"
  shows "fresh_read i (es @ trace s) \<and>
    (\<exists>t er. (t, er) \<in> owed \<and> i = rougeBridgeId (dp_viem d) t \<and> submits d er e)"
  using event_ok_release [OF jobs_event_ok [OF assms(1-3)] assms(4)] by blast

theorem release_needs_fresh_read_witness:
  "fresh_read ''0xa1'' [EvProcessed ''0xa1'' (Inr False)] \<and>
   (\<exists>t er. (t, er) \<in> owed_by (demo_deps False (Inr ''0x77'')) demo_w \<and> ''0xa1'' = rougeBridgeId demo_viem t \<and>
      submits (demo_deps False (Inr ''0x77'')) er (EvReleaseETH ''0xcc'' 5000000000000 ''0xa1'' 0 (Inr ''0x77'')))"
  using release_needs_fresh_read [of "demo_deps False (Inr ''0x77'')"
      "owed_by (demo_deps False (Inr ''0x77'')) demo_w" "[Withdrawal demo_w]" demo_init
      "[EvMark ''t1'' (Inr ()), EvFulfill ''t1'' ''0x77'' (Inr True), EvHead (Inr 30),
        EvWaitReceipt ''0x77'' (Inr demo_receipt)]"
      "EvReleaseETH ''0xcc'' 5000000000000 ''0xa1'' 0 (Inr ''0x77'')"
      "[EvProcessed ''0xa1'' (Inr False)]" "''0xa1''"]
  by (simp add: demo_pays [of "[]", folded demo_init_def] demo_fields del: run_job.simps)

text \<open>C2: Over any sequence of calls, the daemon is asked to refund a withdrawal only with \<open>AUTO_REFUND\<close>
  on, after the daemon itself answered a failure report for that withdrawal with ``should
  refund'', and right after \<open>processedL1Txs\<close> was positively read as false for its id, with no
  release submitted since that read.\<close>

theorem refund_needs_proof_of_nonpayment:
  assumes "list_all (job_ok d owed) js" and "queue_ok d owed s"
    and "trace (fold (run_job d) js s) = us @ EvRefund t r # es @ trace s"
  shows "dp_autoRefund d \<and> refund_due t (es @ trace s) \<and>
    fresh_read (rougeBridgeId (dp_viem d) t) (es @ trace s)"
  by (rule event_ok_refund [OF jobs_event_ok [OF assms]])

theorem refund_needs_proof_of_nonpayment_witness:
  "refund_due ''t1'' [EvProcessed ''0xa1'' (Inr False), EvAlert ''t1'' (Inr ()),
     EvReportFailure ''t1'' ''refused'' (Inr (True, 3)), EvProcessed ''0xa1'' (Inr False),
     EvReleaseETH ''0xcc'' 5000000000000 ''0xa1'' 0 (Inl ''refused''), EvProcessed ''0xa1'' (Inr False)]"
  using refund_needs_proof_of_nonpayment [of "demo_deps False (Inl ''refused'')"
      "owed_by (demo_deps False (Inl ''refused'')) demo_w" "[Withdrawal demo_w]" demo_init
      "[EvMark ''t1'' (Inr ()), EvAlert ''refund:t1'' (Inr ())]" "''t1''" "Inr True"
      "[EvProcessed ''0xa1'' (Inr False), EvAlert ''t1'' (Inr ()),
        EvReportFailure ''t1'' ''refused'' (Inr (True, 3)), EvProcessed ''0xa1'' (Inr False),
        EvReleaseETH ''0xcc'' 5000000000000 ''0xa1'' 0 (Inl ''refused''), EvProcessed ''0xa1'' (Inr False)]"]
  by (simp add: demo_refunds demo_fields del: run_job.simps)

text \<open>C3: Over any sequence of calls, the daemon is told that a withdrawal is fulfilled by a transaction only
  when a successful receipt of that transaction was read whose logs verify as the release the
  withdrawal is owed, and a block of it and a chain head were read that put it at the required
  confirmation depth.\<close>

theorem fulfil_needs_verified_deep_payout:
  assumes "list_all (job_ok d owed) js" and "queue_ok d owed s"
    and "trace (fold (run_job d) js s) = us @ EvFulfill t h r # es @ trace s"
  shows "\<exists>er. (t, er) \<in> owed \<and> pays_seen (dp_viem d) er h (es @ trace s) \<and> deep_seen d h (es @ trace s)"
  by (rule event_ok_fulfil [OF jobs_event_ok [OF assms]])

theorem fulfil_needs_verified_deep_payout_witness:
  "\<exists>er. (''t1'', er) \<in> owed_by (demo_deps False (Inr ''0x77'')) demo_w \<and>
     pays_seen demo_viem er ''0x77'' [EvHead (Inr 30), EvWaitReceipt ''0x77'' (Inr demo_receipt),
       EvReleaseETH ''0xcc'' 5000000000000 ''0xa1'' 0 (Inr ''0x77''), EvProcessed ''0xa1'' (Inr False)]"
  using fulfil_needs_verified_deep_payout [of "demo_deps False (Inr ''0x77'')"
      "owed_by (demo_deps False (Inr ''0x77'')) demo_w" "[Withdrawal demo_w]" demo_init
      "[EvMark ''t1'' (Inr ())]" "''t1''" "''0x77''" "Inr True"
      "[EvHead (Inr 30), EvWaitReceipt ''0x77'' (Inr demo_receipt),
        EvReleaseETH ''0xcc'' 5000000000000 ''0xa1'' 0 (Inr ''0x77''), EvProcessed ''0xa1'' (Inr False)]"]
  by (auto simp add: demo_pays [of "[]", folded demo_init_def] demo_fields simp del: run_job.simps)

text \<open>C4: In observation mode any sequence of calls leaves the queue as it was and records nothing but reads
  and alerts: no release, no daemon call, no mark, no save.\<close>

theorem observe_only_writes_nothing:
  assumes "dp_observeOnly d" and "list_all (job_ok d owed) js" and "queue_ok d owed s"
  shows "queued (fold (run_job d) js s) = queued s \<and>
    (\<exists>us. trace (fold (run_job d) js s) = us @ trace s \<and> list_all benign us)"
  by (rule path_observe [OF jobs_path [OF assms(2,3)] assms(1)])

theorem observe_only_writes_nothing_witness:
  "\<exists>us. trace (run_job (demo_deps True (Inr ''0x77'')) (Withdrawal demo_w) demo_init) = us \<and> list_all benign us"
  using observe_only_writes_nothing [of "demo_deps True (Inr ''0x77'')"
      "owed_by (demo_deps True (Inr ''0x77'')) demo_w" "[Withdrawal demo_w]" demo_init]
  by (simp add: demo_fields del: run_job.simps)

text \<open>C5: An id the local queue holds when a sequence of calls starts is not released by any of them before
  the daemon accepted a fulfilment for that id.\<close>

theorem queued_id_never_released:
  assumes "list_all (job_ok d owed) js" and "queue_ok d owed s" and "map_has (queued s) (queuedKey i)"
    and "trace (fold (run_job d) js s) = us @ e # es @ trace s" and "release_id e = Some i"
  shows "cleared d (queuedKey i) (es @ trace s)"
  by (rule path_no_release_while_held [OF jobs_path [OF assms(1,2)] assms(4,5,3)])

theorem queued_id_never_released_witness:
  "cleared (demo_deps False (Inr ''0x77'')) ''0xa1''
    ([EvProcessed ''0xa1'' (Inr False), EvSave (Inr ()), EvMark ''t1'' (Inr ()),
      EvFulfill ''t1'' ''0x77'' (Inr True), EvHead (Inr 30),
      EvGetReceipt ''0x77'' (Inr (Some demo_receipt)), EvGetReceipt ''0x77'' (Inr (Some demo_receipt)),
      EvFindReleases ''0xa1'' (Inr [''0x77'']), EvFindExecuted 1 (Inr []), EvTimelock 1 True (Inr demo_record)])"
  using queued_id_never_released [of "demo_deps False (Inr ''0x77'')"
      "owed_by (demo_deps False (Inr ''0x77'')) demo_w" "[PollQueued, Withdrawal demo_w]" demo_held "''0xa1''"
      "[EvMark ''t1'' (Inr ()), EvFulfill ''t1'' ''0x77'' (Inr True), EvHead (Inr 30),
        EvWaitReceipt ''0x77'' (Inr demo_receipt)]"
      "EvReleaseETH ''0xcc'' 5000000000000 ''0xa1'' 0 (Inr ''0x77'')"
      "[EvProcessed ''0xa1'' (Inr False), EvSave (Inr ()), EvMark ''t1'' (Inr ()),
      EvFulfill ''t1'' ''0x77'' (Inr True), EvHead (Inr 30),
      EvGetReceipt ''0x77'' (Inr (Some demo_receipt)), EvGetReceipt ''0x77'' (Inr (Some demo_receipt)),
      EvFindReleases ''0xa1'' (Inr [''0x77'']), EvFindExecuted 1 (Inr []), EvTimelock 1 True (Inr demo_record)]"]
  by (simp add: demo_polls demo_pays demo_held_ok demo_fields del: run_job.simps)

text \<open>C6: Over any sequence of calls every entry of the queue stays filed under the lower-case canonical id of
  the withdrawal it names and stands for a release that withdrawal is owed.\<close>

theorem queue_entries_stay_sound:
  assumes "list_all (job_ok d owed) js" and "queue_ok d owed s"
  shows "queue_ok d owed (fold (run_job d) js s)"
  by (rule path_queue_ok [OF jobs_path [OF assms] assms(2)])

theorem queue_entries_stay_sound_witness:
  "queue_ok (demo_deps False (Inr ''0x77'')) (owed_by (demo_deps False (Inr ''0x77'')) demo_w)
     (run_job (demo_deps False (Inr ''0x77'')) (Withdrawal demo_w) demo_held)"
  using queue_entries_stay_sound [of "demo_deps False (Inr ''0x77'')"
      "owed_by (demo_deps False (Inr ''0x77'')) demo_w" "[Withdrawal demo_w]" demo_held]
  by (simp add: demo_held_ok demo_fields del: run_job.simps)

text \<open>C7: A withdrawal is marked processed only after the daemon accepted its fulfilment or its refund.\<close>

theorem mark_needs_acceptance:
  assumes "list_all (job_ok d owed) js" and "queue_ok d owed s"
    and "trace (fold (run_job d) js s) = us @ EvMark t r # es @ trace s"
  shows "(\<exists>h. EvFulfill t h (Inr True) \<in> set (es @ trace s)) \<or> EvRefund t (Inr True) \<in> set (es @ trace s)"
  by (rule event_ok_mark [OF jobs_event_ok [OF assms]])

theorem mark_needs_acceptance_witness:
  "EvRefund ''t1'' (Inr True) \<in> set [EvAlert ''refund:t1'' (Inr ()), EvRefund ''t1'' (Inr True),
        EvProcessed ''0xa1'' (Inr False), EvAlert ''t1'' (Inr ()), EvReportFailure ''t1'' ''refused'' (Inr (True, 3)),
        EvProcessed ''0xa1'' (Inr False),
        EvReleaseETH ''0xcc'' 5000000000000 ''0xa1'' 0 (Inl ''refused''), EvProcessed ''0xa1'' (Inr False)]"
  using mark_needs_acceptance [of "demo_deps False (Inl ''refused'')"
      "owed_by (demo_deps False (Inl ''refused'')) demo_w" "[Withdrawal demo_w]" demo_init "[]" "''t1''" "Inr ()"
      "[EvAlert ''refund:t1'' (Inr ()), EvRefund ''t1'' (Inr True),
        EvProcessed ''0xa1'' (Inr False), EvAlert ''t1'' (Inr ()), EvReportFailure ''t1'' ''refused'' (Inr (True, 3)),
        EvProcessed ''0xa1'' (Inr False),
        EvReleaseETH ''0xcc'' 5000000000000 ''0xa1'' 0 (Inl ''refused''), EvProcessed ''0xa1'' (Inr False)]"]
  by (simp add: demo_refunds demo_fields del: run_job.simps)


definition polled :: "evm_event list \<Rightarrow> 'w evm_state \<Rightarrow> bool" where
  "polled ts s = (\<exists>us. trace s = us @ ts \<and> list_all settles us)"

interpretation poll: settle_stable "polled ts"
proof
  fix s :: "'a evm_state" and e w q
  show "polled ts s \<Longrightarrow> settles e \<Longrightarrow> polled ts (s\<lparr>world := w, trace := e # trace s\<rparr>)"
    unfolding polled_def by (auto intro: exI [of _ "e # _"])
qed (simp_all add: polled_def)

text \<open>The poll over queued withdrawals never releases, never reports a failure and never refunds: all it
  records beyond reads and alerts is fulfilments, marks and saves.\<close>

theorem poll_only_settles:
  "\<exists>us. trace (run_job d PollQueued s) = us @ trace s \<and> list_all settles us"
  using keeps_exec [OF poll.keeps_pollQueuedWithdrawals, of "trace s" s d] by (simp add: polled_def)

section \<open>Results of one call\<close>

text \<open>A chain whose reads fail, to evaluate the fail-closed branches on.\<close>

definition demo_blind :: "bool EvmPayoutDeps" where
  "demo_blind = (demo_deps False (Inr ''0x77''))\<lparr>dp_chain := (demo_chain (Inr ''0x77''))\<lparr>
     d_processedL1Txs := (\<lambda>i w. (Inl ''rpc'', w)), d_findReleaseTxHashes := (\<lambda>er w. (Inl ''rpc'', w))\<rparr>\<rparr>"

text \<open>When \<open>processedL1Txs\<close> cannot be read the handler returns \<open>skipped_rpc\<close> having done nothing
  else: nothing released, reported, refunded or persisted.\<close>

theorem unreadable_truth_fails_closed:
  assumes "evm_asset (payoutRoute (token_symbol w)) = Some a"
    and "isSafeInteger (amount_units w)" "num_less (JInt 0) (amount_units w)"
    and "isEvmAddress (dp_viem d) (evm_address w)"
    and "\<not> map_has (queued s) (queuedKey (rougeBridgeId (dp_viem d) (tx_id w)))" and "dp_bridgeAddress d \<noteq> ''''"
    and "expectedReleaseFor (dp_viem d) w a (dp_bridgeAddress d) (dp_usdcAddress d) = Inr er"
    and "d_processedL1Txs (dp_chain d) (canonicalId er) (world s) = (Inl m, x)"
  shows "processEvmWithdrawal w d s =
    (Inr skipped_rpc, s\<lparr>world := x, trace := EvProcessed (canonicalId er) (Inl m) # trace s\<rparr>)"
  using assms by (simp add: processEvmWithdrawal_def releaseOnTruth_def processedL1Txs_def io_defs)

theorem unreadable_truth_fails_closed_witness:
  "processEvmWithdrawal demo_w demo_blind demo_init =
    (Inr skipped_rpc, demo_init\<lparr>trace := [EvProcessed ''0xa1'' (Inl ''rpc'')]\<rparr>)"
  using unreadable_truth_fails_closed [of demo_w Eth demo_blind demo_init _ "''rpc''" False] demo_expected
  by (simp add: demo_blind_def demo_fields demo_route map_laws map_get_def) (simp add: demo_init_def)



lemma call_throws:
  assumes "\<And>x. \<exists>m x'. f x = (Inl m, x')" and "keeps K (call mk f)"
  shows "triple K (call mk f) (\<lambda>_ _. False) (\<lambda>_. K)"
proof (rule tripleI)
  fix s r s'
  assume s: "K s" and run: "call mk f s = (r, s')"
  obtain m x' where "f (world s) = (Inl m, x')" using assms(1) by blast
  with run have "r = Inl m" by (simp add: call_def)
  with tripleD [OF assms(2) s run] show "case r of Inl e \<Rightarrow> K s' | Inr a \<Rightarrow> False" by simp
qed

definition only_read :: "QueuedState \<Rightarrow> evm_event list \<Rightarrow> 'w evm_state \<Rightarrow> bool" where
  "only_read q ts s = (queued s = q \<and> (\<exists>us. trace s = us @ ts \<and> list_all benign us))"

interpretation readonly: read_stable "only_read q ts"
proof
  fix s :: "'a evm_state" and e w
  show "only_read q ts s \<Longrightarrow> benign e \<Longrightarrow> only_read q ts (s\<lparr>world := w, trace := e # trace s\<rparr>)"
    unfolding only_read_def by (auto intro: exI [of _ "e # _"])
qed (simp add: only_read_def)

lemma reconcileQueued_failed:
  "triple (\<lambda>_. True) (reconcileQueued er d (Inl m)) (\<lambda>rr _. rr_scanFailed rr) (\<lambda>_ _. True)"
  unfolding reconcileQueued_def Let_def case_prod_beta
  by (intro triple_bnd [OF triple_true] triple_ret) (simp add: classifyProcessed_simps)

text \<open>A reconciliation whose release-log scan could not be read never turns into ``no payout found'': it
  returns \<open>skipped_rpc\<close> (or passes on an exception), the queue is untouched and nothing but reads
  and alerts was recorded.\<close>

theorem failed_scan_persists_nothing:
  assumes "\<And>x. \<exists>m x'. d_findReleaseTxHashes (dp_chain d) er x = (Inl m, x')" and "\<not> dp_observeOnly d"
  shows "triple (\<lambda>s. queued s = q \<and> trace s = ts)
     (bnd (reconcileProcessedId er d) (\<lambda>r. applyReconciliation w er r d ctx))
     (\<lambda>out s. out = skipped_rpc \<and> only_read q ts s) (\<lambda>_. only_read q ts)"
proof (rule triple_bnd [where R = "\<lambda>r s. only_read q ts s \<and> rr_scanFailed r"])
  have scan: "triple (only_read q ts) (bnd (findReleaseTxHashes d er) f) (\<lambda>_ _. False) (\<lambda>_. only_read q ts)" for f
    using call_throws [OF assms(1) readonly.keeps_reads(6) [unfolded findReleaseTxHashes_def]]
    unfolding findReleaseTxHashes_def by (rule triple_bnd) (simp add: triple_def)
  have "triple (only_read q ts) (reconcileProcessedId er d)
     (\<lambda>r s. only_read q ts s \<and> rr_scanFailed r) (\<lambda>_. only_read q ts)"
    unfolding reconcileProcessedId_def
  proof (rule triple_attempt [where R = "\<lambda>r s. only_read q ts s \<and> (\<exists>m. r = Inl m)"])
    show "triple (only_read q ts) (bnd (findReleaseTxHashes d er) (firstVerified d er))
       (\<lambda>a s. only_read q ts s \<and> (\<exists>m. Inr a = Inl m)) (\<lambda>e s. only_read q ts s \<and> (\<exists>m. Inl e = Inl m))"
      by (rule triple_conseq [OF scan]) auto
    show "triple (\<lambda>s. only_read q ts s \<and> (\<exists>m. r = Inl m)) (reconcileQueued er d r)
       (\<lambda>r s. only_read q ts s \<and> rr_scanFailed r) (\<lambda>_. only_read q ts)" for r
    proof (cases r)
      case (Inl m)
      show ?thesis unfolding Inl
        by (rule triple_pre [OF triple_conj [OF readonly.keeps_reconcileQueued reconcileQueued_failed]]) simp
    qed (simp add: triple_def)
  qed
  then show "triple (\<lambda>s. queued s = q \<and> trace s = ts) (reconcileProcessedId er d)
     (\<lambda>r s. only_read q ts s \<and> rr_scanFailed r) (\<lambda>_. only_read q ts)"
    by (rule triple_pre) (auto simp: only_read_def)
  show "triple (\<lambda>s. only_read q ts s \<and> rr_scanFailed r) (applyReconciliation w er r d ctx)
     (\<lambda>out s. out = skipped_rpc \<and> only_read q ts s) (\<lambda>_. only_read q ts)" for r
    using assms(2) by (cases "rr_scanFailed r") (auto simp: applyReconciliation_def ret_def triple_def)
qed

theorem failed_scan_persists_nothing_witness:
  "triple (\<lambda>s. queued s = [] \<and> trace s = [])
     (bnd (reconcileProcessedId (record_release demo_blind demo_entry 5) demo_blind)
        (\<lambda>r. applyReconciliation demo_w (record_release demo_blind demo_entry 5) r demo_blind ''x''))
     (\<lambda>out s. out = skipped_rpc \<and> only_read [] [] s) (\<lambda>_. only_read [] [])"
  by (rule failed_scan_persists_nothing) (simp_all add: demo_blind_def demo_fields)

text \<open>The confirmation depth required before a fulfilment is at least the daemon's (which is positive),
  whenever the relayer's own \<open>CONFIRMATIONS\<close> is a number.\<close>

theorem fulfil_depth_at_least_daemon:
  assumes "dp_fulfillConfirmations d \<noteq> Some NaN"
  shows "\<not> num_less (evmFulfillDepth d) (daemonMinConfirmations (dp_env d)) \<and>
    num_less (JInt 0) (evmFulfillDepth d)"
proof -
  obtain j where j: "daemonMinConfirmations (dp_env d) = JInt j" "0 < j"
    using daemonMinConfirmations_positive by blast
  have "\<not> num_less (Math_max x (JInt j)) (JInt j) \<and> num_less (JInt 0) (Math_max x (JInt j))"
    if "x \<noteq> NaN" for x
    using that j(2) by (cases x) (auto simp: Math_max_def)
  then show ?thesis
    using assms j by (auto simp: evmFulfillDepth_def split: option.splits)
qed

theorem fulfil_depth_at_least_daemon_witness:
  "\<not> num_less (evmFulfillDepth (demo_deps False (Inr ''0x77''))) (daemonMinConfirmations (\<lambda>k. None))"
  using fulfil_depth_at_least_daemon [of "demo_deps False (Inr ''0x77'')"] by (simp add: demo_deps_def)

text \<open>C14: When \<open>CONFIRMATIONS\<close> does not parse (\<open>NaN\<close>) the depth gate lets every mined payout
  through, whatever the daemon requires and whatever the head is.\<close>

theorem nan_confirmations_disable_depth_gate:
  assumes "dp_fulfillConfirmations d = Some NaN" and "d_headBlock (dp_chain d) (world s) = (Inr head, x)"
  shows "fst (payoutDeepEnough h (Some b) d s) = Inr True"
  using assms by (simp add: payoutDeepEnough_def evmFulfillDepth_def headBlock_def io_defs)

theorem nan_confirmations_disable_depth_gate_witness:
  "fst (payoutDeepEnough ''0x77'' (Some 1000000)
     ((demo_deps False (Inr ''0x77''))\<lparr>dp_fulfillConfirmations := Some NaN\<rparr>) demo_init) = Inr True"
  by (rule nan_confirmations_disable_depth_gate [where head = 30 and x = False])
    (simp_all add: demo_fields demo_calls world_demo_init)

definition pending_chain :: "bool EvmChainDeps" where
  "pending_chain = (demo_chain (Inr ''0x77''))\<lparr>d_releaseETH := (\<lambda>to n i k w. (Inr ''0x77'', w)), d_waitForReceipt := (\<lambda>h w. (Inl ''timeout'', w))\<rparr>"


end
