(* ===== verification/State_Files.thy ===== *)
theory State_Files
  imports Evm_Payout
begin

text \<open>
  The relayer's state files: JSON values, a disk on which every call can fail and on which a write
  passes through partial contents, \<open>atomicWriteFile\<close> with \<open>loadQueuedState\<close> and \<open>saveQueuedState\<close> of
  \<open>scripts/bridge-relayer-core.ts\<close>, and \<open>loadProcessedTxIds\<close>, \<open>saveProcessedTxIds\<close> of
  \<open>scripts/bridge-relayer.ts\<close>.

  A file is what \<open>JSON.parse\<close> makes of its text: a value, or nothing for a text that is not JSON.
  Every disk state passed through is recorded, so that what a crash can leave behind is a statement
  about the recorded states.
\<close>

section \<open>JSON values\<close>

datatype 'n JsonV = VNull | VBool bool | VNum 'n | VStr string | VArr "'n JsonV list" | VObj "(string \<times> 'n JsonV) list"

text \<open>\<open>v?.k\<close>, with \<^const>\<open>None\<close> for \<open>undefined\<close>.\<close>

fun prop_of :: "'n JsonV \<Rightarrow> string \<Rightarrow> 'n JsonV option" where
  "prop_of (VObj kvs) k = map_of kvs k"
| "prop_of _ k = None"

fun str_val :: "'n JsonV option \<Rightarrow> string option" where
  "str_val (Some (VStr s)) = Some s"
| "str_val _ = None"

definition str_field :: "'n JsonV \<Rightarrow> string \<Rightarrow> string" where
  "str_field r k = (case str_val (prop_of r k) of None \<Rightarrow> '''' | Some s \<Rightarrow> s)"

fun array_items :: "'n JsonV option \<Rightarrow> 'n JsonV list option" where
  "array_items (Some (VArr xs)) = Some xs"
| "array_items _ = None"

section \<open>The disk\<close>

type_synonym 'c disk = "string \<Rightarrow> 'c option"

record ('w, 'c) fs_state =
  fs_world :: 'w
  files :: "'c disk"
  seen :: "'c disk list"

text \<open>A write puts some partial contents on the disk one after the other and then completes or fails;
  renaming and deleting happen at once or fail.\<close>

record ('w, 'c) FsEnv =
  fe_write :: "string \<Rightarrow> 'c \<Rightarrow> 'w \<Rightarrow> ('c list \<times> exn option) \<times> 'w"
  fe_rename :: "'w \<Rightarrow> exn option \<times> 'w"
  fe_unlink :: "'w \<Rightarrow> exn option \<times> 'w"
  fe_read :: "'w \<Rightarrow> exn option \<times> 'w"
  fe_now :: "'w \<Rightarrow> int \<times> 'w"
  fe_pid :: int

definition to_disk :: "'c disk list \<Rightarrow> 'w \<Rightarrow> ('w, 'c) fs_state \<Rightarrow> ('w, 'c) fs_state" where
  "to_disk ds w s = s\<lparr>fs_world := w, files := last (files s # ds), seen := rev ds @ seen s\<rparr>"

definition fs_result :: "exn option \<Rightarrow> exn + unit" where
  "fs_result e = (case e of None \<Rightarrow> Inr () | Some x \<Rightarrow> Inl x)"

definition writeFileSync :: "('w, 'c) FsEnv \<Rightarrow> string \<Rightarrow> 'c \<Rightarrow> (('w, 'c) fs_state, unit) io" where
  "writeFileSync d f c s = (case fe_write d f c (fs_world s) of ((parts, e), w) \<Rightarrow>
     (fs_result e, to_disk (map (\<lambda>g. (files s)(f \<mapsto> g)) (parts @ (if e = None then [c] else []))) w s))"

definition renameSync :: "('w, 'c) FsEnv \<Rightarrow> string \<Rightarrow> string \<Rightarrow> (('w, 'c) fs_state, unit) io" where
  "renameSync d a b s = (case fe_rename d (fs_world s) of (e, w) \<Rightarrow>
     (case files s a of
        None \<Rightarrow> (Inl ''ENOENT'', to_disk [] w s)
      | Some c \<Rightarrow> (fs_result e, to_disk (if e = None then [(files s)(a := None, b \<mapsto> c)] else []) w s)))"

definition unlinkSync :: "('w, 'c) FsEnv \<Rightarrow> string \<Rightarrow> (('w, 'c) fs_state, unit) io" where
  "unlinkSync d f s = (case fe_unlink d (fs_world s) of (e, w) \<Rightarrow>
     (fs_result e, to_disk (if e = None then [(files s)(f := None)] else []) w s))"

definition existsSync :: "string \<Rightarrow> (('w, 'c) fs_state, bool) io" where
  "existsSync f = gets (\<lambda>s. files s f \<noteq> None)"

definition readFileSync :: "('w, 'c) FsEnv \<Rightarrow> string \<Rightarrow> (('w, 'c) fs_state, 'c) io" where
  "readFileSync d f s = (case fe_read d (fs_world s) of (e, w) \<Rightarrow>
     (case (e, files s f) of
        (None, Some c) \<Rightarrow> (Inr c, to_disk [] w s)
      | (Some x, _) \<Rightarrow> (Inl x, to_disk [] w s)
      | (None, None) \<Rightarrow> (Inl ''ENOENT'', to_disk [] w s)))"

definition dateNow :: "('w, 'c) FsEnv \<Rightarrow> (('w, 'c) fs_state, int) io" where
  "dateNow d s = (case fe_now d (fs_world s) of (t, w) \<Rightarrow> (Inr t, to_disk [] w s))"

section \<open>Atomic writes\<close>

definition tmp_name :: "string \<Rightarrow> int \<Rightarrow> int \<Rightarrow> string" where
  "tmp_name f pid t = f @ ''.tmp-'' @ dec_int pid @ ''-'' @ dec_int t"

definition atomicWriteFile :: "('w, 'c) FsEnv \<Rightarrow> string \<Rightarrow> 'c \<Rightarrow> (('w, 'c) fs_state, unit) io" where
  "atomicWriteFile d f c = bnd (dateNow d) (\<lambda>t. let tmp = tmp_name f (fe_pid d) t in
     try_catch (bnd (writeFileSync d tmp c) (\<lambda>_. renameSync d tmp f)) (\<lambda>e.
       bnd (try_catch (bnd (existsSync tmp) (\<lambda>x. if x then unlinkSync d tmp else ret ())) (\<lambda>_. ret ())) (\<lambda>_.
       throw e)))"

section \<open>The queue of timelocked withdrawals\<close>

type_synonym json_file = "jsnum JsonV option"

fun asset_text :: "EvmAsset \<Rightarrow> string" where
  "asset_text Eth = ''Eth''"
| "asset_text Usdc = ''Usdc''"

fun status_text :: "QueuedStatus \<Rightarrow> string" where
  "status_text SQueued = ''queued''"
| "status_text SCancelledRefundCandidate = ''cancelled_refund_candidate''"
| "status_text SAmbiguous = ''ambiguous''"

text \<open>An optional field that is absent is left out of the text.\<close>

definition opt_field :: "string \<Rightarrow> string \<Rightarrow> (string \<times> 'n JsonV) list" where
  "opt_field k v = (if v = '''' then [] else [(k, VStr v)])"

definition queued_json :: "QueuedRecord \<Rightarrow> jsnum JsonV" where
  "queued_json q = VObj ([(''stored_tx_id'', VStr (q_stored_tx_id q)), (''canonical_l1_tx_id'', VStr (q_canonical_l1_tx_id q)),
     (''request_id'', VStr (q_request_id q)), (''asset'', VStr (asset_text (q_asset q))), (''recipient'', VStr (q_recipient q)),
     (''amount'', VStr (q_amount q)), (''execute_after'', VStr (q_execute_after q)),
     (''release_submission_tx_hash'', VStr (q_release_submission_tx_hash q)), (''status'', VStr (status_text (q_status q)))]
     @ opt_field ''note'' (q_note q) @ opt_field ''updated_at'' (q_updated_at q))"

text \<open>An entry of the file as a \<open>QueuedRecord\<close>; \<^const>\<open>None\<close> when its \<open>asset\<close> or \<open>status\<close> is none of
  the declared texts.\<close>

definition queued_of :: "'n JsonV \<Rightarrow> QueuedRecord option" where
  "queued_of r = (case (map_of [(''Eth'', Eth), (''Usdc'', Usdc)] (str_field r ''asset''),
       map_of [(''queued'', SQueued), (''cancelled_refund_candidate'', SCancelledRefundCandidate), (''ambiguous'', SAmbiguous)]
         (str_field r ''status'')) of
      (Some a, Some st) \<Rightarrow> Some \<lparr>q_stored_tx_id = str_field r ''stored_tx_id'', q_canonical_l1_tx_id = str_field r ''canonical_l1_tx_id'',
        q_request_id = str_field r ''request_id'', q_asset = a, q_recipient = str_field r ''recipient'', q_amount = str_field r ''amount'',
        q_execute_after = str_field r ''execute_after'', q_release_submission_tx_hash = str_field r ''release_submission_tx_hash'',
        q_status = st, q_note = str_field r ''note'', q_updated_at = str_field r ''updated_at''\<rparr>
    | _ \<Rightarrow> None)"

definition queue_entries :: "'n JsonV \<Rightarrow> 'n JsonV list" where
  "queue_entries data = (case array_items (Some data) of Some xs \<Rightarrow> xs
     | None \<Rightarrow> (case array_items (prop_of data ''entries'') of Some xs \<Rightarrow> xs | None \<Rightarrow> []))"

definition usable_entry :: "'n JsonV \<Rightarrow> bool" where
  "usable_entry r = (str_val (prop_of r ''canonical_l1_tx_id'') \<noteq> None \<and> str_val (prop_of r ''stored_tx_id'') \<noteq> None)"

text \<open>The loop over the entries; \<^const>\<open>None\<close> when a usable entry is not of the declared type.\<close>

fun fill_queue :: "'n JsonV list \<Rightarrow> QueuedState \<Rightarrow> QueuedState option" where
  "fill_queue [] st = Some st"
| "fill_queue (r # rs) st = (if \<not> usable_entry r then fill_queue rs st
     else case queued_of r of None \<Rightarrow> None | Some q \<Rightarrow> fill_queue rs (map_set (queuedKey (str_field r ''canonical_l1_tx_id'')) q st))"

definition loadQueuedState :: "('w, json_file) FsEnv \<Rightarrow> string \<Rightarrow> (('w, json_file) fs_state, QueuedState option) io" where
  "loadQueuedState d f = try_catch
     (bnd (existsSync f) (\<lambda>x. if \<not> x then ret (Some []) else
        bnd (readFileSync d f) (\<lambda>c. bnd (lift_opt ''SyntaxError'' c) (\<lambda>data. ret (fill_queue (queue_entries data) [])))))
     (\<lambda>e. ret (Some []))"

definition queue_file :: "QueuedState \<Rightarrow> json_file" where
  "queue_file st = Some (VObj [(''version'', VNum (JInt 1)), (''entries'', VArr (map queued_json (map_values st)))])"

definition saveQueuedState :: "('w, json_file) FsEnv \<Rightarrow> string \<Rightarrow> QueuedState \<Rightarrow> (('w, json_file) fs_state, unit) io" where
  "saveQueuedState d f st = try_catch (atomicWriteFile d f (queue_file st)) (\<lambda>e. ret ())"

section \<open>The ids already processed\<close>

definition js_set :: "'a list \<Rightarrow> 'a list" where
  "js_set xs = foldl (\<lambda>acc x. if x \<in> set acc then acc else acc @ [x]) [] xs"

fun all_strings :: "'n JsonV list \<Rightarrow> string list option" where
  "all_strings [] = Some []"
| "all_strings (v # vs) = (case (str_val (Some v), all_strings vs) of (Some s, Some ss) \<Rightarrow> Some (s # ss) | _ \<Rightarrow> None)"

text \<open>The set of the ids in the file; \<^const>\<open>None\<close> when the array has elements that are no strings.\<close>

definition loadProcessedTxIds :: "('w, json_file) FsEnv \<Rightarrow> string \<Rightarrow> (('w, json_file) fs_state, string list option) io" where
  "loadProcessedTxIds d f = try_catch
     (bnd (existsSync f) (\<lambda>x. if \<not> x then ret (Some []) else
        bnd (readFileSync d f) (\<lambda>c. bnd (lift_opt ''SyntaxError'' c) (\<lambda>data. case array_items (Some data) of
            None \<Rightarrow> ret (Some [])
          | Some xs \<Rightarrow> ret (map_option js_set (all_strings xs))))))
     (\<lambda>e. ret (Some []))"

definition saveProcessedTxIds :: "('w, json_file) FsEnv \<Rightarrow> bool \<Rightarrow> string \<Rightarrow> string list \<Rightarrow> (('w, json_file) fs_state, unit) io" where
  "saveProcessedTxIds d observeOnly f ids = (if observeOnly then ret ()
     else try_catch (atomicWriteFile d f (Some (VArr (map VStr ids)))) (\<lambda>e. ret ()))"

section \<open>What a crash can leave behind\<close>

definition steady :: "string \<Rightarrow> 'c option \<Rightarrow> 'c \<Rightarrow> 'c disk \<Rightarrow> bool" where
  "steady f old new dk = (dk f = old \<or> dk f = Some new)"

definition unwritten :: "string \<Rightarrow> 'c option \<Rightarrow> 'c \<Rightarrow> ('w, 'c) fs_state \<Rightarrow> bool" where
  "unwritten f old new s = (files s f = old \<and> list_all (steady f old new) (seen s))"

definition written :: "string \<Rightarrow> 'c option \<Rightarrow> 'c \<Rightarrow> ('w, 'c) fs_state \<Rightarrow> bool" where
  "written f old new s = (files s f = Some new \<and> list_all (steady f old new) (seen s))"

lemma tmp_name_other: "tmp_name f p t \<noteq> f"
  by (simp add: tmp_name_def)

lemma unwritten_to_disk:
  "unwritten f old new s \<Longrightarrow> list_all (\<lambda>dk. dk f = old) ds \<Longrightarrow> unwritten f old new (to_disk ds w s)"
  by (auto simp: unwritten_def to_disk_def steady_def list_all_iff)

lemma keeps_unwritten:
  assumes "g \<noteq> f"
  shows "keeps (unwritten f old new) (writeFileSync d g c)" "keeps (unwritten f old new) (unlinkSync d g)"
    "keeps (unwritten f old new) (dateNow d)" "keeps (unwritten f old new) (readFileSync d h)"
proof -
  have same: "files s f = old" if "unwritten f old new s" for s
    using that by (simp add: unwritten_def)
  show "keeps (unwritten f old new) (writeFileSync d g c)"
    by (rule tripleI) (auto simp: writeFileSync_def fs_result_def list_all_iff same assms [symmetric] intro!: unwritten_to_disk split: prod.splits option.splits)
  show "keeps (unwritten f old new) (unlinkSync d g)"
    by (rule tripleI) (auto simp: unlinkSync_def fs_result_def same assms [symmetric] intro!: unwritten_to_disk split: prod.splits option.splits)
  show "keeps (unwritten f old new) (dateNow d)"
    by (rule tripleI) (auto simp: dateNow_def intro!: unwritten_to_disk split: prod.splits)
  show "keeps (unwritten f old new) (readFileSync d h)"
    by (rule tripleI) (auto simp: readFileSync_def intro!: unwritten_to_disk split: prod.splits option.splits)
qed

lemma write_result: "triple (\<lambda>_. True) (writeFileSync d g c) (\<lambda>_ s. files s g = Some c) (\<lambda>_ _. True)"
  by (rule tripleI) (auto simp: writeFileSync_def fs_result_def to_disk_def split: prod.splits option.splits)

lemma rename_result:
  assumes "g \<noteq> f"
  shows "triple (\<lambda>s. unwritten f old new s \<and> files s g = Some new) (renameSync d g f)
     (\<lambda>_. written f old new) (\<lambda>_. unwritten f old new)"
  using assms
  by (intro tripleI) (auto simp: renameSync_def fs_result_def written_def unwritten_def to_disk_def steady_def split: prod.splits option.splits if_splits)

lemma atomicWriteFile_triple:
  "triple (unwritten f old new) (atomicWriteFile d f new) (\<lambda>_. written f old new) (\<lambda>_. unwritten f old new)"
proof -
  have body: "triple (unwritten f old new) (bnd (writeFileSync d (tmp_name f p t) new) (\<lambda>_. renameSync d (tmp_name f p t) f))
      (\<lambda>_. written f old new) (\<lambda>_. unwritten f old new)" for p t
    using triple_conj [OF keeps_unwritten(1) [OF tmp_name_other] write_result] rename_result [OF tmp_name_other]
    by (rule triple_bnd)
  have clean: "keeps (unwritten f old new) (try_catch (bnd (existsSync (tmp_name f p t)) (\<lambda>x. if x then unlinkSync d (tmp_name f p t) else ret ())) (\<lambda>_. ret ()))" for p t
    unfolding existsSync_def by (intro keeps_rules keeps_unwritten tmp_name_other)
  show ?thesis unfolding atomicWriteFile_def Let_def
    by (rule triple_bnd [OF keeps_unwritten(3) [OF tmp_name_other]], rule triple_try [OF body], rule triple_bnd [OF clean], rule triple_throw)
qed

section \<open>Restoring what was saved\<close>

lemma str_field_queued:
  "str_field (queued_json q) ''stored_tx_id'' = q_stored_tx_id q" "str_field (queued_json q) ''canonical_l1_tx_id'' = q_canonical_l1_tx_id q"
  "str_field (queued_json q) ''request_id'' = q_request_id q" "str_field (queued_json q) ''recipient'' = q_recipient q"
  "str_field (queued_json q) ''amount'' = q_amount q" "str_field (queued_json q) ''execute_after'' = q_execute_after q"
  "str_field (queued_json q) ''release_submission_tx_hash'' = q_release_submission_tx_hash q"
  "str_field (queued_json q) ''asset'' = asset_text (q_asset q)" "str_field (queued_json q) ''status'' = status_text (q_status q)"
  "str_field (queued_json q) ''note'' = q_note q" "str_field (queued_json q) ''updated_at'' = q_updated_at q"
  by (simp_all add: str_field_def queued_json_def opt_field_def)

lemma queued_of_json: "queued_of (queued_json q) = Some q"
proof -
  have "map_of [(''Eth'', Eth), (''Usdc'', Usdc)] (asset_text (q_asset q)) = Some (q_asset q)"
    by (cases "q_asset q") simp_all
  moreover have "map_of [(''queued'', SQueued), (''cancelled_refund_candidate'', SCancelledRefundCandidate), (''ambiguous'', SAmbiguous)]
      (status_text (q_status q)) = Some (q_status q)"
    by (cases "q_status q") simp_all
  ultimately show ?thesis by (simp add: queued_of_def str_field_queued)
qed

lemma usable_queued: "usable_entry (queued_json q)"
  by (simp add: usable_entry_def queued_json_def)

text \<open>Every entry is filed under the key of its own id.\<close>

definition queue_keyed :: "QueuedState \<Rightarrow> bool" where
  "queue_keyed st = (map_wf st \<and> all_entries (\<lambda>k q. k = queuedKey (q_canonical_l1_tx_id q)) st)"

lemma map_set_new: "k \<notin> fst ` set m \<Longrightarrow> map_set k v m = m @ [(k, v)]"
  by (induction k v m rule: map_set.induct) auto

lemma fill_queue_values:
  "queue_keyed (st @ st') \<Longrightarrow> fill_queue (map queued_json (map_values st')) st = Some (st @ st')"
proof (induction st' arbitrary: st)
  case (Cons kq st')
  obtain k q where kq: "kq = (k, q)" by fastforce
  have "k = queuedKey (q_canonical_l1_tx_id q)" "k \<notin> fst ` set st"
    using Cons.prems kq by (auto simp: queue_keyed_def map_wf_def all_entries_def)
  moreover have "queue_keyed ((st @ [kq]) @ st')" using Cons.prems by simp
  then have "fill_queue (map queued_json (map_values st')) (st @ [kq]) = Some ((st @ [kq]) @ st')" by (rule Cons.IH)
  ultimately show ?case
    by (simp add: kq map_values_def usable_queued queued_of_json str_field_queued map_set_new)
qed (simp add: map_values_def)

lemma queue_entries_file: "queue_file st = Some data \<Longrightarrow> queue_entries data = map queued_json (map_values st)"
  by (auto simp: queue_file_def queue_entries_def)

text \<open>What loading finds on a disk.\<close>

definition queue_on :: "json_file disk \<Rightarrow> string \<Rightarrow> QueuedState option" where
  "queue_on dk f = (case dk f of Some (Some data) \<Rightarrow> fill_queue (queue_entries data) [] | _ \<Rightarrow> Some [])"

lemma queue_on_file: "queue_keyed st \<Longrightarrow> dk f = Some (queue_file st) \<Longrightarrow> queue_on dk f = Some st"
  using fill_queue_values [of "[]" st] by (auto simp: queue_on_def queue_entries_file queue_file_def queue_entries_def)

definition readable :: "('w, 'c) FsEnv \<Rightarrow> bool" where
  "readable d = (\<forall>w. fst (fe_read d w) = None)"

lemma load_queue_on: "readable d \<Longrightarrow> fst (loadQueuedState d f s) = Inr (queue_on (files s) f)"
  by (cases "fe_read d (fs_world s)")
    (auto simp: readable_def loadQueuedState_def queue_on_def existsSync_def readFileSync_def io_defs split: option.split dest: spec [of _ "fs_world s"])

text \<open>A disk on which nothing fails, and the disk a fresh process finds.\<close>

definition faultless :: "('w, 'c) FsEnv \<Rightarrow> bool" where
  "faultless d = ((\<forall>f c w. snd (fst (fe_write d f c w)) = None) \<and> (\<forall>w. fst (fe_rename d w) = None))"

definition boot :: "'c disk \<Rightarrow> 'w \<Rightarrow> ('w, 'c) fs_state" where
  "boot dk w = \<lparr>fs_world = w, files = dk, seen = []\<rparr>"

lemma faultless_write:
  assumes "faultless d"
  shows "\<exists>w parts. writeFileSync d f c s = (Inr (), to_disk (map (\<lambda>g. (files s)(f \<mapsto> g)) (parts @ [c])) w s)"
proof -
  obtain parts e w where run: "fe_write d f c (fs_world s) = ((parts, e), w)" by (metis surj_pair)
  have "snd (fst (fe_write d f c (fs_world s))) = None" using assms by (simp add: faultless_def)
  then have "e = None" using run by simp
  then show ?thesis using run by (auto simp: writeFileSync_def fs_result_def)
qed

lemma faultless_atomic:
  assumes "faultless d"
  shows "fst (atomicWriteFile d f c s) = Inr ()"
proof -
  obtain t w where now: "fe_now d (fs_world s) = (t, w)" by fastforce
  let ?tmp = "tmp_name f (fe_pid d) t" and ?s = "to_disk [] w s"
  obtain w1 parts where wr: "writeFileSync d ?tmp c ?s = (Inr (), to_disk (map (\<lambda>g. (files ?s)(?tmp \<mapsto> g)) (parts @ [c])) w1 ?s)"
    using faultless_write [OF assms] by blast
  have "fst (fe_rename d v) = None" for v using assms by (simp add: faultless_def)
  then have none: "fe_rename d v = (None, snd (fe_rename d v))" for v by (metis prod.collapse)
  have ren: "fst (renameSync d ?tmp f (to_disk (map (\<lambda>g. (files ?s)(?tmp \<mapsto> g)) (parts @ [c])) w1 ?s)) = Inr ()"
    by (subst renameSync_def, subst none) (simp add: to_disk_def fs_result_def)
  then obtain s2 where s2: "renameSync d ?tmp f (to_disk (map (\<lambda>g. (files ?s)(?tmp \<mapsto> g)) (parts @ [c])) w1 ?s) = (Inr (), s2)"
    by (metis prod.collapse)
  have "bnd (writeFileSync d ?tmp c) (\<lambda>_. renameSync d ?tmp f) ?s = (Inr (), s2)"
    by (simp only: bnd_def wr prod.case sum.case s2)
  then show ?thesis by (simp add: atomicWriteFile_def bnd_def [of "dateNow d"] dateNow_def now Let_def try_catch_def)
qed

lemma saveQueued_outcome:
  assumes "saveQueuedState d f st s = (r, s')" "seen s = []"
  shows "r = Inr () \<and> (\<forall>dk \<in> set (files s' # seen s'). steady f (files s f) (queue_file st) dk) \<and>
    (faultless d \<longrightarrow> files s' f = Some (queue_file st))"
proof -
  obtain r1 s1 where run: "atomicWriteFile d f (queue_file st) s = (r1, s1)" by fastforce
  have start: "unwritten f (files s f) (queue_file st) s" using assms(2) by (simp add: unwritten_def)
  have "case r1 of Inl e \<Rightarrow> unwritten f (files s f) (queue_file st) s1 | Inr a \<Rightarrow> written f (files s f) (queue_file st) s1"
    by (rule tripleD [OF atomicWriteFile_triple start run])
  moreover have "faultless d \<Longrightarrow> r1 = Inr ()" using faultless_atomic [of d f "queue_file st" s] run by simp
  moreover have "s' = s1" "r = Inr ()" using assms(1) run
    by (auto simp: saveQueuedState_def try_catch_def ret_def split: sum.splits)
  ultimately show ?thesis
    by (auto simp: unwritten_def written_def steady_def list_all_iff split: sum.splits)
qed

text \<open>C29: The queue of timelocked withdrawals survives crashes and restarts. While it is saved, whatever
  fails and wherever the process dies, a new process that reads the file finds either the queue that was
  there before or the new queue, never a torn one. When nothing fails it finds exactly the queue that was
  saved.\<close>

theorem queue_file_survives_crashes:
  assumes "queue_keyed st" "readable d'" "seen s = []" "saveQueuedState d f st s = (r, s')"
  shows "(\<forall>dk \<in> set (files s' # seen s'). fst (loadQueuedState d' f (boot dk w)) = fst (loadQueuedState d' f (boot (files s) w))
        \<or> fst (loadQueuedState d' f (boot dk w)) = Inr (Some st)) \<and>
      (faultless d \<longrightarrow> fst (loadQueuedState d' f (boot (files s') w)) = Inr (Some st))"
proof -
  have out: "\<forall>dk \<in> set (files s' # seen s'). steady f (files s f) (queue_file st) dk"
    "faultless d \<longrightarrow> files s' f = Some (queue_file st)"
    using saveQueued_outcome [OF assms(4,3)] by blast+
  have load: "fst (loadQueuedState d' f (boot dk w)) = Inr (queue_on dk f)" for dk
    using load_queue_on [OF assms(2), of f "boot dk w"] by (simp add: boot_def)
  have new: "dk f = Some (queue_file st) \<Longrightarrow> queue_on dk f = Some st" for dk by (rule queue_on_file [OF assms(1)])
  have old: "dk f = files s f \<Longrightarrow> queue_on dk f = queue_on (files s) f" for dk by (simp add: queue_on_def)
  show ?thesis unfolding load
  proof (intro conjI ballI impI)
    fix dk
    assume "dk \<in> set (files s' # seen s')"
    then have "dk f = files s f \<or> dk f = Some (queue_file st)" using out(1) by (simp only: steady_def)
    then show "Inr (queue_on dk f) = Inr (queue_on (files s) f) \<or> Inr (queue_on dk f) = Inr (Some st)"
      using new [of dk] old [of dk] by auto
  next
    assume "faultless d"
    then show "Inr (queue_on (files s') f) = Inr (Some st)" using out(2) new [of "files s'"] by simp
  qed
qed

definition sample_fs :: "(unit, json_file) FsEnv" where
  "sample_fs = \<lparr>fe_write = (\<lambda>f c w. (([], None), w)), fe_rename = Pair None, fe_unlink = Pair None, fe_read = Pair None,
     fe_now = Pair 1700000000000, fe_pid = 42\<rparr>"

definition sample_queue :: QueuedState where
  "sample_queue = [(''0xab'', \<lparr>q_stored_tx_id = ''ab'', q_canonical_l1_tx_id = ''0xAB'', q_request_id = ''7'', q_asset = Eth,
     q_recipient = ''0xcc'', q_amount = ''5'', q_execute_after = ''9'', q_release_submission_tx_hash = ''0xdd'', q_status = SQueued,
     q_note = '''', q_updated_at = ''''\<rparr>)]"

theorem queue_file_survives_crashes_witness:
  "fst (loadQueuedState sample_fs ''q.json'' (boot (files (snd (saveQueuedState sample_fs ''q.json'' sample_queue (boot Map.empty ())))) ()))
     = Inr (Some sample_queue)"
proof -
  have keyed: "queue_keyed sample_queue"
    by (simp add: queue_keyed_def sample_queue_def map_wf_def all_entries_def queuedKey_def js_eval)
  have fs: "readable sample_fs" "faultless sample_fs" by (simp_all add: readable_def faultless_def sample_fs_def)
  have "seen (boot Map.empty ()) = []" by (simp add: boot_def)
  from mp [OF conjunct2 [OF queue_file_survives_crashes [OF keyed fs(1) this prod.collapse [symmetric]]] fs(2)] show ?thesis .
qed

end
