(* ===== verification/Log_Scan.thy ===== *)
theory Log_Scan
  imports Effects "HOL-Library.Multiset"
begin

text \<open>
  Paginated log scans (\<open>scripts/bridge-relayer-core.ts\<close>): the block ranges a scan pages through,
  the scan with its bounded retries, and the search for vault releases. Block numbers are the
  code's \<open>bigint\<close>s; the pacing numbers are the literals the relayer passes.
\<close>

section \<open>Block ranges\<close>

definition MAX_LOG_SCAN_SPAN :: int where
  "MAX_LOG_SCAN_SPAN = 2000"

text \<open>The loop, from the newest block down; \<open>n\<close> is \<open>maxSpan - 1\<close>.\<close>

function ranges_from :: "int \<Rightarrow> nat \<Rightarrow> int \<Rightarrow> (int \<times> int) list" where
  "ranges_from from n hi =
     (if hi < from then []
      else let lo = (if hi - int n > from then hi - int n else from)
           in (lo, hi) # (if lo = 0 \<or> lo = from then [] else ranges_from from n (lo - 1)))"
  by pat_completeness auto
termination
  by (relation "measure (\<lambda>(from, n, hi). nat (hi - from + 1))") (auto split: if_splits)

declare ranges_from.simps [simp del]

definition blockRangesDescending :: "int \<Rightarrow> int \<Rightarrow> int \<Rightarrow> exn + (int \<times> int) list" where
  "blockRangesDescending from to maxSpan =
     (if maxSpan \<le> 0 \<or> maxSpan > MAX_LOG_SCAN_SPAN then Inl ''maxSpan must be 1..2000''
      else if to < from then Inr []
      else Inr (ranges_from from (nat (maxSpan - 1)) to))"

section \<open>The scan\<close>

record ScanPacing =
  pauseMs :: "nat option"
  retries :: "nat option"
  backoffMs :: "nat option"

definition opt_or :: "'a option \<Rightarrow> 'a \<Rightarrow> 'a" where
  "opt_or x y = (case x of None \<Rightarrow> y | Some z \<Rightarrow> z)"

text \<open>One page: \<open>n\<close> retries left, \<open>k\<close> the number of the attempt. The last failure escapes.\<close>

fun fetchWithRetry ::
  "(int \<times> int \<Rightarrow> ('s, 'a list) io) \<Rightarrow> (nat \<Rightarrow> ('s, unit) io) \<Rightarrow> nat \<Rightarrow> nat \<Rightarrow> nat \<Rightarrow> int \<times> int \<Rightarrow> ('s, 'a list) io" where
  "fetchWithRetry fetchPage sleep backoff 0 k r = fetchPage r"
| "fetchWithRetry fetchPage sleep backoff (Suc n) k r =
     attempt (fetchPage r) (\<lambda>res. case res of
         Inr page \<Rightarrow> ret page
       | Inl e \<Rightarrow> bnd (sleep (backoff * (k + 1))) (\<lambda>_. fetchWithRetry fetchPage sleep backoff n (k + 1) r))"

fun scanPages ::
  "(int \<times> int \<Rightarrow> ('s, 'a list) io) \<Rightarrow> (nat \<Rightarrow> ('s, unit) io) \<Rightarrow> ScanPacing \<Rightarrow> (int \<times> int) list \<Rightarrow> ('s, 'a list) io" where
  "scanPages fetchPage sleep p [] = ret []"
| "scanPages fetchPage sleep p (r # rs) =
     bnd (fetchWithRetry fetchPage sleep (opt_or (backoffMs p) 1500) (opt_or (retries p) 0) 0 r) (\<lambda>page.
     bnd (if opt_or (pauseMs p) 0 > 0 then sleep (opt_or (pauseMs p) 0) else ret ()) (\<lambda>_.
     bnd (scanPages fetchPage sleep p rs) (\<lambda>out. ret (page @ out))))"

definition scanLogPagesDescending ::
  "(int \<times> int \<Rightarrow> ('s, 'a list) io) \<Rightarrow> (nat \<Rightarrow> ('s, unit) io) \<Rightarrow> int \<Rightarrow> int \<Rightarrow> int \<Rightarrow> ScanPacing \<Rightarrow> ('s, 'a list) io" where
  "scanLogPagesDescending fetchPage sleep from to maxSpan p =
     bnd (lift_sum (blockRangesDescending from to maxSpan)) (scanPages fetchPage sleep p)"

record VaultReleaseLog =
  vr_txHash :: string
  vr_blockNumber :: int
  vr_recipient :: string
  vr_amount :: int
  vr_l1TxId :: string

definition findVaultReleases ::
  "(int \<times> int \<Rightarrow> ('s, VaultReleaseLog list) io) \<Rightarrow> (nat \<Rightarrow> ('s, unit) io) \<Rightarrow> string \<Rightarrow> int \<Rightarrow> int \<Rightarrow> int \<Rightarrow> ScanPacing
   \<Rightarrow> ('s, VaultReleaseLog list) io" where
  "findVaultReleases fetchLogs sleep l1TxId head lookbackBlocks maxSpan p =
     (let from = (if head > lookbackBlocks then head - lookbackBlocks else 0) in
      bnd (scanLogPagesDescending fetchLogs sleep from head maxSpan p) (\<lambda>logs.
      ret (filter (\<lambda>lg. vr_l1TxId lg = l1TxId) logs)))"

section \<open>The ranges partition the window\<close>

lemma ranges_from_cover:
  "0 \<le> lb \<Longrightarrow> concat (map (\<lambda>(lo, hi). [lo..hi]) (rev (ranges_from lb n hi))) = [lb..hi]"
proof (induction lb n hi rule: ranges_from.induct)
  case (1 lb n hi)
  show ?case
  proof (cases "hi < lb")
    case False
    define lo where "lo = (if hi - int n > lb then hi - int n else lb)"
    have lo: "lb \<le> lo" "lo \<le> hi" using False by (auto simp: lo_def)
    have rec: "ranges_from lb n hi =
        (lo, hi) # (if lo = 0 \<or> lo = lb then [] else ranges_from lb n (lo - 1))"
      using False by (subst ranges_from.simps) (simp add: lo_def Let_def)
    show ?thesis
    proof (cases "lo = lb")
      case True
      then show ?thesis unfolding rec by simp
    next
      case ne: False
      with lo "1.prems" have "lo \<noteq> 0" by simp
      with ne False "1.IH" [OF _ refl, folded lo_def] "1.prems"
      have "concat (map (\<lambda>(lo, hi). [lo..hi]) (rev (ranges_from lb n (lo - 1)))) = [lb..lo - 1]"
        by simp
      moreover have "[lb..hi] = [lb..lo - 1] @ [lo..hi]"
        using lo upto_split1 [of lb lo hi] by simp
      ultimately show ?thesis unfolding rec using ne \<open>lo \<noteq> 0\<close> by simp
    qed
  qed (subst ranges_from.simps, simp)
qed

lemma ranges_from_spans:
  "(lo, h) \<in> set (ranges_from lb n hi) \<Longrightarrow> lb \<le> lo \<and> lo \<le> h \<and> h - lo \<le> int n \<and> h \<le> hi"
proof (induction lb n hi rule: ranges_from.induct)
  case (1 lb n hi)
  then show ?case
    by (subst (asm) (2) ranges_from.simps) (fastforce simp: Let_def split: if_splits)
qed

section \<open>A scan that returns has read every page\<close>

datatype 'a page_event = EvPage "int \<times> int" "exn + 'a list"

abbreviation fetch_io :: "(int \<times> int \<Rightarrow> ('w, 'a list) eff) \<Rightarrow> int \<times> int \<Rightarrow> (('w, 'a page_event) io_state, 'a list) io" where
  "fetch_io f \<equiv> \<lambda>r. call (EvPage r) (f r)"

abbreviation sleep_io :: "(nat \<Rightarrow> ('w, unit) eff) \<Rightarrow> nat \<Rightarrow> (('w, 'a page_event) io_state, unit) io" where
  "sleep_io sl \<equiv> \<lambda>n. quiet (sl n)"

text \<open>\<open>scanned n rs es xs\<close>: the events \<open>es\<close>, in order, read every range of \<open>rs\<close> in turn, each after
  at most \<open>n\<close> failures, and \<open>xs\<close> is what they read.\<close>

inductive scanned :: "nat \<Rightarrow> (int \<times> int) list \<Rightarrow> 'a page_event list \<Rightarrow> 'a list \<Rightarrow> bool" for n where
  Nil: "scanned n [] [] []"
| Cons: "length es \<le> n \<Longrightarrow> \<forall>e \<in> set es. \<exists>m. e = EvPage r (Inl m) \<Longrightarrow> scanned n rs ts xs \<Longrightarrow>
    scanned n (r # rs) (es @ EvPage r (Inr page) # ts) (page @ xs)"

definition failed_reads :: "nat \<Rightarrow> int \<times> int \<Rightarrow> 'a page_event list \<Rightarrow> bool" where
  "failed_reads n r es = (length es \<le> n \<and> (\<forall>e \<in> set es. \<exists>m. e = EvPage r (Inl m)))"

lemma failed_reads_Cons:
  "failed_reads n r es \<Longrightarrow> \<exists>es'. failed_reads (Suc n) r es' \<and> rev es @ [EvPage r (Inl m)] = rev es'"
  by (intro exI [of _ "EvPage r (Inl m) # es"]) (auto simp: failed_reads_def)

lemma fetchWithRetry_triple:
  "triple (\<lambda>s. trace s = t) (fetchWithRetry (fetch_io f) (sleep_io sl) b n k r)
     (\<lambda>page s. \<exists>es. failed_reads n r es \<and> trace s = EvPage r (Inr page) # rev es @ t) (\<lambda>_ _. True)"
proof (induction n arbitrary: k t)
  case 0
  show ?case
    by (auto intro!: triple_call exI [of _ "[]"] simp: failed_reads_def)
next
  case (Suc n)
  let ?Q = "\<lambda>page s. \<exists>es. failed_reads (Suc n) r es \<and> trace s = EvPage r (Inr page) # rev es @ t"
  show ?case
    unfolding fetchWithRetry.simps
  proof (rule triple_attempt [where R = "\<lambda>x s. trace s = EvPage r x # t"])
    show "triple (\<lambda>s. trace s = t) (fetch_io f r) (\<lambda>a s. trace s = EvPage r (Inr a) # t)
       (\<lambda>e s. trace s = EvPage r (Inl e) # t)"
      by (rule triple_call) simp_all
    show "triple (\<lambda>s. trace s = EvPage r x # t) (case x of Inr page \<Rightarrow> ret page
         | Inl e \<Rightarrow> bnd (sleep_io sl (b * (k + 1))) (\<lambda>_. fetchWithRetry (fetch_io f) (sleep_io sl) b n (k + 1) r))
       ?Q (\<lambda>_ _. True)" for x
    proof (cases x)
      case (Inr page)
      then show ?thesis
        by (auto intro!: triple_ret exI [of _ "[]"] simp: failed_reads_def)
    next
      case (Inl m)
      have "triple (\<lambda>s. trace s = EvPage r (Inl m) # t) (fetchWithRetry (fetch_io f) (sleep_io sl) b n (k + 1) r)
         ?Q (\<lambda>_ _. True)"
        by (rule triple_conseq [OF Suc.IH]) (auto dest: failed_reads_Cons [of _ _ _ m])
      then show ?thesis unfolding Inl sum.case
        by (intro triple_bnd [OF triple_quiet]) auto
    qed
  qed
qed

lemma scanPages_triple:
  "triple (\<lambda>s. trace s = t) (scanPages (fetch_io f) (sleep_io sl) p rs)
     (\<lambda>xs s. \<exists>ts. scanned (opt_or (retries p) 0) rs ts xs \<and> trace s = rev ts @ t) (\<lambda>_ _. True)"
proof (induction rs arbitrary: t)
  case Nil
  show ?case by (auto intro!: triple_ret scanned.Nil)
next
  case (Cons r rs)
  let ?n = "opt_or (retries p) 0"
  let ?P = "\<lambda>page s. \<exists>es. failed_reads ?n r es \<and> trace s = EvPage r (Inr page) # rev es @ t"
  show ?case
    unfolding scanPages.simps
  proof (rule triple_bnd [OF fetchWithRetry_triple], rule triple_bnd)
    fix page
    show "triple (?P page) (if opt_or (pauseMs p) 0 > 0 then sleep_io sl (opt_or (pauseMs p) 0) else ret ())
       (\<lambda>_. ?P page) (\<lambda>_ _. True)"
      by (intro triple_if triple_quiet triple_ret) auto
    show "triple (?P page) (bnd (scanPages (fetch_io f) (sleep_io sl) p rs) (\<lambda>out. ret (page @ out)))
       (\<lambda>xs s. \<exists>ts. scanned ?n (r # rs) ts xs \<and> trace s = rev ts @ t) (\<lambda>_ _. True)"
    proof (rule triple_bnd [where R = "\<lambda>out s. \<exists>ts es. scanned ?n rs ts out \<and> failed_reads ?n r es \<and>
          trace s = rev ts @ EvPage r (Inr page) # rev es @ t"])
      show "triple (?P page) (scanPages (fetch_io f) (sleep_io sl) p rs) (\<lambda>out s. \<exists>ts es. scanned ?n rs ts out \<and>
          failed_reads ?n r es \<and> trace s = rev ts @ EvPage r (Inr page) # rev es @ t) (\<lambda>_ _. True)"
        using Cons.IH unfolding triple_def by (fastforce split: sum.splits)
    next
      fix out
      have "\<exists>us. scanned ?n (r # rs) us (page @ out) \<and> rev us @ t = rev ts @ EvPage r (Inr page) # rev es @ t"
        if "scanned ?n rs ts out" "failed_reads ?n r es" for ts es
        using scanned.Cons [OF _ _ that(1), of es r page] that(2)
        by (intro exI [of _ "es @ EvPage r (Inr page) # ts"]) (simp add: failed_reads_def)
      then show "triple (\<lambda>s. \<exists>ts es. scanned ?n rs ts out \<and> failed_reads ?n r es \<and>
          trace s = rev ts @ EvPage r (Inr page) # rev es @ t) (ret (page @ out))
          (\<lambda>xs s. \<exists>ts. scanned ?n (r # rs) ts xs \<and> trace s = rev ts @ t) (\<lambda>_ _. True)"
        by (intro triple_ret) metis
    qed
  qed
qed

section \<open>Completeness of the scan\<close>

definition in_range :: "int \<times> int \<Rightarrow> VaultReleaseLog \<Rightarrow> bool" where
  "in_range r lg = (fst r \<le> vr_blockNumber lg \<and> vr_blockNumber lg \<le> snd r)"

text \<open>For anything with a block number.\<close>

definition in_blocks :: "('a \<Rightarrow> int) \<Rightarrow> int \<times> int \<Rightarrow> 'a \<Rightarrow> bool" where
  "in_blocks blk r x = (fst r \<le> blk x \<and> blk x \<le> snd r)"

lemma ranges_from_blocks:
  "0 \<le> lb \<Longrightarrow> mset (concat (map (\<lambda>r. filter (in_blocks blk r) logs) (ranges_from lb n hi))) =
     mset (filter (in_blocks blk (lb, hi)) logs)"
proof (induction lb n hi rule: ranges_from.induct)
  case (1 lb n hi)
  show ?case
  proof (cases "hi < lb")
    case True
    then show ?thesis by (subst ranges_from.simps) (simp add: in_blocks_def filter_empty_conv)
  next
    case False
    define lo where "lo = (if hi - int n > lb then hi - int n else lb)"
    have lo: "lb \<le> lo" "lo \<le> hi" using False by (auto simp: lo_def)
    have rec: "ranges_from lb n hi = (lo, hi) # (if lo = 0 \<or> lo = lb then [] else ranges_from lb n (lo - 1))"
      using False by (subst ranges_from.simps) (simp add: lo_def Let_def)
    have "mset (filter (in_blocks blk (lb, hi)) logs) =
        mset (filter (in_blocks blk (lo, hi)) logs) + mset (filter (in_blocks blk (lb, lo - 1)) logs)"
      using lo by (induction logs) (auto simp: in_blocks_def)
    moreover have "mset (concat (map (\<lambda>r. filter (in_blocks blk r) logs) (if lo = 0 \<or> lo = lb then [] else ranges_from lb n (lo - 1)))) =
        mset (filter (in_blocks blk (lb, lo - 1)) logs)"
    proof (cases "lo = lb")
      case True
      then show ?thesis by (simp add: in_blocks_def filter_empty_conv)
    next
      case ne: False
      with lo "1.prems" have "lo \<noteq> 0" by simp
      with ne False "1.IH" [OF _ refl, folded lo_def] "1.prems" show ?thesis by simp
    qed
    ultimately show ?thesis unfolding rec by simp
  qed
qed

lemma in_range_blocks: "in_range = in_blocks vr_blockNumber"
  by (simp add: fun_eq_iff in_range_def in_blocks_def)

lemma ranges_from_logs:
  "0 \<le> lb \<Longrightarrow> mset (concat (map (\<lambda>r. filter (in_range r) logs) (ranges_from lb n hi))) =
     mset (filter (in_range (lb, hi)) logs)"
  unfolding in_range_blocks by (rule ranges_from_blocks)

text \<open>The log service answers a page with an error or with exactly the chain's logs in the range.\<close>

definition honest_logs :: "VaultReleaseLog list \<Rightarrow> (int \<times> int \<Rightarrow> ('w, VaultReleaseLog list) eff) \<Rightarrow> bool" where
  "honest_logs logs f = (\<forall>r w. case fst (f r w) of Inl m \<Rightarrow> True | Inr page \<Rightarrow> mset page = mset (filter (in_range r) logs))"

fun honest_page :: "VaultReleaseLog list \<Rightarrow> VaultReleaseLog page_event \<Rightarrow> bool" where
  "honest_page logs (EvPage r (Inl m)) = True"
| "honest_page logs (EvPage r (Inr page)) = (mset page = mset (filter (in_range r) logs))"

abbreviation honest_trace :: "VaultReleaseLog list \<Rightarrow> ('w, VaultReleaseLog page_event) io_state \<Rightarrow> bool" where
  "honest_trace logs s \<equiv> list_all (honest_page logs) (trace s)"

lemma keeps_honest_fetch:
  assumes "honest_logs logs f"
  shows "keeps (honest_trace logs) (fetch_io f r)"
proof (rule tripleI)
  fix s x s'
  assume s: "honest_trace logs s" and run: "fetch_io f r s = (x, s')"
  obtain w where w: "f r (world s) = (x, w)" using run by (auto simp: call_def split: prod.splits)
  with assms have "case x of Inl m \<Rightarrow> True | Inr page \<Rightarrow> mset page = mset (filter (in_range r) logs)"
    unfolding honest_logs_def by (metis fst_conv)
  with s run w show "case x of Inl e \<Rightarrow> honest_trace logs s' | Inr a \<Rightarrow> honest_trace logs s'"
    by (cases x) (auto simp: call_def)
qed

lemma keeps_fetchWithRetry:
  "(\<And>r. keeps I (fp r)) \<Longrightarrow> (\<And>n. keeps I (sl n)) \<Longrightarrow> keeps I (fetchWithRetry fp sl b n k r)"
proof (induction n arbitrary: k)
  case 0
  show ?case unfolding fetchWithRetry.simps by (rule 0)
next
  case (Suc n)
  show ?case unfolding fetchWithRetry.simps by (intro keeps_rules Suc)
qed

lemma keeps_scanPages:
  "(\<And>r. keeps I (fp r)) \<Longrightarrow> (\<And>n. keeps I (sl n)) \<Longrightarrow> keeps I (scanPages fp sl p rs)"
proof (induction rs)
  case Nil
  show ?case unfolding scanPages.simps by (rule keeps_ret)
next
  case (Cons r rs)
  show ?case unfolding scanPages.simps by (intro keeps_rules keeps_fetchWithRetry Cons)
qed

lemma scanned_honest:
  "scanned n rs es xs \<Longrightarrow> list_all (honest_page logs) es \<Longrightarrow>
   mset xs = mset (concat (map (\<lambda>r. filter (in_range r) logs) rs))"
  by (induction rule: scanned.induct) auto

lemma scan_complete:
  assumes "honest_logs logs f" and "0 \<le> lb" and "trace s = []"
    and "scanLogPagesDescending (fetch_io f) (sleep_io sl) lb hi sp p s = (Inr xs, s')"
  shows "mset xs = mset (filter (in_range (lb, hi)) logs)"
proof -
  obtain rs where rs: "blockRangesDescending lb hi sp = Inr rs"
    and run: "scanPages (fetch_io f) (sleep_io sl) p rs s = (Inr xs, s')"
    using assms(4) by (cases "blockRangesDescending lb hi sp") (simp_all add: scanLogPagesDescending_def lift_sum_def throw_def)
  have "mset xs = mset (concat (map (\<lambda>r. filter (in_range r) logs) rs))"
  proof -
    obtain ts where ts: "scanned (opt_or (retries p) 0) rs ts xs" "trace s' = rev ts"
    proof -
      from triple_result(1) [OF scanPages_triple [where t = "[]"] assms(3) run]
      obtain ts where "scanned (opt_or (retries p) 0) rs ts xs \<and> trace s' = rev ts @ []" ..
      then show thesis by (intro that) simp_all
    qed
    have "keeps (honest_trace logs) (scanPages (fetch_io f) (sleep_io sl) p rs)"
      by (intro keeps_scanPages keeps_honest_fetch [OF assms(1)] triple_quiet) simp_all
    from triple_result(1) [OF this _ run] assms(3) ts(2) have "list_all (honest_page logs) ts"
      by (simp add: list_all_rev)
    with ts(1) show ?thesis by (rule scanned_honest)
  qed
  moreover have "mset (concat (map (\<lambda>r. filter (in_range r) logs) rs)) = mset (filter (in_range (lb, hi)) logs)"
  proof (cases "hi < lb")
    case True
    with rs have "rs = []" by (simp add: blockRangesDescending_def split: if_splits)
    with True show ?thesis by (simp add: in_range_def filter_empty_conv)
  next
    case False
    with rs have "rs = ranges_from lb (nat (sp - 1)) hi" by (simp add: blockRangesDescending_def split: if_splits)
    then show ?thesis using ranges_from_logs [OF assms(2)] by simp
  qed
  ultimately show ?thesis by simp
qed

section \<open>Properties\<close>

text \<open>For a valid span the ranges of a scan partition the window: read from the last to the first they list
  every block of \<open>[from, to]\<close> exactly once, in order, and no range is longer than the span.\<close>

theorem ranges_partition_window:
  assumes "0 \<le> lb" and "0 < sp" and "sp \<le> 2000"
  shows "\<exists>rs. blockRangesDescending lb hi sp = Inr rs \<and>
    concat (map (\<lambda>(lo, h). [lo..h]) (rev rs)) = [lb..hi] \<and> (\<forall>(lo, h) \<in> set rs. lo \<le> h \<and> h - lo + 1 \<le> sp)"
proof (cases "hi < lb")
  case True
  then show ?thesis using assms by (simp add: blockRangesDescending_def MAX_LOG_SCAN_SPAN_def)
next
  case False
  have "h - lo + 1 \<le> sp \<and> lo \<le> h" if "(lo, h) \<in> set (ranges_from lb (nat (sp - 1)) hi)" for lo h
    using ranges_from_spans [OF that] assms(2) by auto
  then show ?thesis
    using False assms ranges_from_cover [OF assms(1), of "nat (sp - 1)" hi]
    by (auto simp: blockRangesDescending_def MAX_LOG_SCAN_SPAN_def)
qed

theorem ranges_partition_window_witness:
  "\<exists>rs. blockRangesDescending 5 4204 2000 = Inr rs \<and>
    concat (map (\<lambda>(lo, h). [lo..h]) (rev rs)) = [5..4204] \<and> (\<forall>(lo, h) \<in> set rs. lo \<le> h \<and> h - lo + 1 \<le> 2000)"
  by (rule ranges_partition_window) simp_all

text \<open>C28: When the log service answers every page with an error or with exactly the chain's logs of that range, a
  search that returns has found every release of the id in its window, each as often as the chain
  has it: an unreadable page makes the search throw, so it never passes for ``nothing found''.\<close>

theorem vault_search_is_complete:
  assumes "honest_logs logs f" and "0 \<le> lookback" and "0 \<le> head" and "trace s = []"
    and "findVaultReleases (fetch_io f) (sleep_io sl) i head lookback sp p s = (Inr hits, s')"
  shows "mset hits = mset (filter (\<lambda>lg. vr_l1TxId lg = i \<and>
     max 0 (head - lookback) \<le> vr_blockNumber lg \<and> vr_blockNumber lg \<le> head) logs)"
proof -
  define lb where "lb = (if head > lookback then head - lookback else 0)"
  obtain xs where "scanLogPagesDescending (fetch_io f) (sleep_io sl) lb head sp p s = (Inr xs, s')"
    and hits: "hits = filter (\<lambda>lg. vr_l1TxId lg = i) xs"
    using assms(5) unfolding findVaultReleases_def Let_def lb_def [symmetric] by (rule bnd_Inr_E) (simp add: ret_def)
  then have "mset xs = mset (filter (in_range (lb, head)) logs)"
    using assms by (intro scan_complete) (auto simp: lb_def)
  then have "mset hits = mset (filter (\<lambda>lg. vr_l1TxId lg = i) (filter (in_range (lb, head)) logs))"
    unfolding hits mset_filter by simp
  moreover have "lb = max 0 (head - lookback)" by (simp add: lb_def max_def)
  ultimately show ?thesis by (simp add: in_range_def conj_commute conj_left_commute)
qed

definition demo_logs :: "VaultReleaseLog list" where
  "demo_logs = [\<lparr>vr_txHash = ''0xa'', vr_blockNumber = 7, vr_recipient = ''r'', vr_amount = 1, vr_l1TxId = ''id''\<rparr>,
     \<lparr>vr_txHash = ''0xb'', vr_blockNumber = 8, vr_recipient = ''r'', vr_amount = 1, vr_l1TxId = ''other''\<rparr>]"

definition demo_fetch :: "int \<times> int \<Rightarrow> (nat, VaultReleaseLog list) eff" where
  "demo_fetch r w = (if w = 0 then (Inl ''timeout'', 1) else (Inr (filter (in_range r) demo_logs), w))"

definition demo_pacing :: ScanPacing where
  "demo_pacing = \<lparr>pauseMs = Some 200, retries = Some 5, backoffMs = Some 2000\<rparr>"

lemma demo_search:
  "findVaultReleases (fetch_io demo_fetch) (sleep_io (\<lambda>n w. (Inr (), w))) ''id'' 10 20 2000 demo_pacing \<lparr>world = 0, trace = []\<rparr> =
     (Inr [hd demo_logs], \<lparr>world = 1, trace = [EvPage (0, 10) (Inr demo_logs), EvPage (0, 10) (Inl ''timeout'')]\<rparr>)"
proof -
  have "blockRangesDescending 0 10 2000 = Inr [(0, 10)]"
    by (simp add: blockRangesDescending_def MAX_LOG_SCAN_SPAN_def ranges_from.simps)
  moreover have "opt_or (retries demo_pacing) 0 = Suc 4"
    by (simp add: demo_pacing_def opt_or_def)
  moreover have "filter (in_range (0, 10)) demo_logs = demo_logs"
    by (simp add: demo_logs_def in_range_def)
  ultimately show ?thesis
    by (simp add: findVaultReleases_def scanLogPagesDescending_def io_defs demo_fetch_def fetchWithRetry.simps numeral_eq_Suc)
      (simp add: demo_logs_def)
qed

theorem vault_search_is_complete_witness:
  "honest_logs demo_logs demo_fetch \<and>
   mset [hd demo_logs] = mset (filter (\<lambda>lg. vr_l1TxId lg = ''id'' \<and> max 0 (10 - 20) \<le> vr_blockNumber lg \<and> vr_blockNumber lg \<le> 10) demo_logs)"
proof (rule conjI)
  show h: "honest_logs demo_logs demo_fetch" by (simp add: honest_logs_def demo_fetch_def)
  show "mset [hd demo_logs] = mset (filter (\<lambda>lg. vr_l1TxId lg = ''id'' \<and> max 0 (10 - 20) \<le> vr_blockNumber lg \<and> vr_blockNumber lg \<le> 10) demo_logs)"
    by (rule vault_search_is_complete [OF h _ _ _ demo_search]) simp_all
qed

end
