(* ===== verification/Xrge_Payout.thy ===== *)
theory Xrge_Payout
  imports Evm_Payout Log_Scan
begin

text \<open>
  The XRGE vault payout lifecycle of \<open>scripts/bridge-relayer-core.ts\<close>: the handler of one pending
  XRGE withdrawal, the deferred fulfilment of a mined payout, the read-only observation of a
  withdrawal, the confirmation depths of the XRGE path and of the deposit watcher, and the health
  gate. The theorems are about every sequence of handler calls over every behaviour of the vault,
  the chain and the daemon.
\<close>

section \<open>Health gate and confirmation depths\<close>

text \<open>The \<open>degraded\<close> field of the health answer, as far as the gate looks at it.\<close>

datatype degraded_field = DAbsent | DBool bool | DOther

record BridgeHealthResponse =
  bh_status :: int
  bh_degraded :: degraded_field

definition bridgeHealthAllowsPayouts :: "BridgeHealthResponse option \<Rightarrow> bool" where
  "bridgeHealthAllowsPayouts h = (case h of None \<Rightarrow> False
     | Some r \<Rightarrow> if bh_status r \<noteq> 200 then False else bh_degraded r = DBool False)"

definition xrgeFulfillConfirmations :: "jsnum \<Rightarrow> env \<Rightarrow> jsnum" where
  "xrgeFulfillConfirmations relayerConfirmations en =
     Math_max (if isFinite relayerConfirmations then relayerConfirmations else JInt 0) (daemonMinConfirmations en)"

definition depositWatcherSafeHead :: "int \<Rightarrow> jsnum \<Rightarrow> env \<Rightarrow> exn + int option" where
  "depositWatcherSafeHead head relayerConfirmations en =
     (case BigInt_num (Math_max (if isFinite relayerConfirmations then relayerConfirmations else JInt 0)
         (daemonMinConfirmations en)) of
        Inl e \<Rightarrow> Inl e
      | Inr depth \<Rightarrow> let safe = head - depth in Inr (if safe > 0 then Some safe else None))"

section \<open>Fulfil answers\<close>

record XrgeFulfillResult =
  xf_ok :: bool
  xf_status :: int
  xf_error :: "string option"

fun contains_text :: "string \<Rightarrow> string \<Rightarrow> bool" where
  "contains_text pat [] = (pat = [])"
| "contains_text pat (c # cs) = (take (length pat) (c # cs) = pat \<or> contains_text pat cs)"

text \<open>The test \<open>/confirmation/i\<close>. The pattern is ASCII, and no other code unit folds onto it.\<close>

definition isAwaitingConfirmationsError :: "XrgeFulfillResult \<Rightarrow> bool" where
  "isAwaitingConfirmationsError r =
     (\<not> xf_ok r \<and> contains_text ''confirmation'' (toLowerCase (opt_or (xf_error r) '''')))"

section \<open>Withdrawals and dependencies\<close>

record XrgeWithdrawal =
  xw_tx_id :: string
  xw_evm_address :: string
  xw_amount :: jsnum

record KnownPayout =
  kp_txHash :: string
  kp_blockNumber :: int

record 'w XrgePayoutDeps =
  x_requiredConfirmations :: jsnum
  x_processedOnVault :: "string \<Rightarrow> ('w, bool) eff"
  x_release :: "string \<Rightarrow> int \<Rightarrow> string \<Rightarrow> ('w, string) eff"
  x_waitForReceipt :: "string \<Rightarrow> ('w, receipt_status \<times> int) eff"
  x_headBlock :: "('w, int) eff"
  x_findReleases :: "string \<Rightarrow> ('w, VaultReleaseLog list) eff"
  x_fulfill :: "string \<Rightarrow> string \<Rightarrow> ('w, XrgeFulfillResult) eff"
  x_handleFailure :: "string \<Rightarrow> string \<Rightarrow> ('w, unit) eff"
  x_markProcessed :: "string \<Rightarrow> ('w, unit) eff"
  x_alert :: "string \<Rightarrow> ('w, unit) eff"

datatype xrge_event =
    XProcessed string "exn + bool"
  | XRelease string int string "exn + string"
  | XReceipt string "exn + receipt_status \<times> int"
  | XHead "exn + int"
  | XFind string "exn + VaultReleaseLog list"
  | XFulfill string string "exn + XrgeFulfillResult"
  | XFailure string string "exn + unit"
  | XMark string "exn + unit"
  | XAlert string "exn + unit"

text \<open>\<open>pendingFulfill\<close>, the mined payouts not fulfilled yet, is part of the state.\<close>

record 'w xrge_state = "('w, xrge_event) io_state" +
  pendingFulfill :: "(string, KnownPayout) jsmap"

datatype XrgeOutcome = XoFulfilled | XoReconciledFulfilled | XoAwaitingConfirmations | XoFulfillRejected
  | XoSkippedRpc | XoProcessedNoReleaseFound | XoAmbiguous | XoFailed

definition xrgeToWeiExact :: "jsnum \<Rightarrow> exn + int" where
  "xrgeToWeiExact amt = (case BigInt_num amt of Inl e \<Rightarrow> Inl e | Inr i \<Rightarrow> Inr (i * 10 ^ 18))"

definition deferFulfill :: "string \<Rightarrow> KnownPayout \<Rightarrow> ('w xrge_state, unit) io" where
  "deferFulfill i payout = modify (\<lambda>s. s\<lparr>pendingFulfill := map_set i payout (pendingFulfill s)\<rparr>)"

definition dropPending :: "string \<Rightarrow> ('w xrge_state, unit) io" where
  "dropPending i = modify (\<lambda>s. s\<lparr>pendingFulfill := map_delete i (pendingFulfill s)\<rparr>)"

section \<open>The handler\<close>

definition payoutDepth :: "int \<Rightarrow> KnownPayout \<Rightarrow> int" where
  "payoutDepth head payout = (if head \<ge> kp_blockNumber payout then head - kp_blockNumber payout + 1 else 0)"

definition fulfillKnownXrgePayout ::
  "XrgeWithdrawal \<Rightarrow> KnownPayout \<Rightarrow> 'w XrgePayoutDeps \<Rightarrow> bool \<Rightarrow> ('w xrge_state, XrgeOutcome) io" where
  "fulfillKnownXrgePayout w payout deps reconciled =
     attempt (call XHead (x_headBlock deps)) (\<lambda>hr. case hr of
       Inl e \<Rightarrow> bnd (deferFulfill (xw_tx_id w) payout) (\<lambda>_. ret XoAwaitingConfirmations)
     | Inr head \<Rightarrow>
         if num_less (JInt (payoutDepth head payout)) (x_requiredConfirmations deps)
         then bnd (deferFulfill (xw_tx_id w) payout) (\<lambda>_. ret XoAwaitingConfirmations)
         else bnd (call (XFulfill (xw_tx_id w) (kp_txHash payout)) (x_fulfill deps (xw_tx_id w) (kp_txHash payout))) (\<lambda>r.
           if xf_ok r
           then bnd (dropPending (xw_tx_id w)) (\<lambda>_.
                bnd (call (XMark (xw_tx_id w)) (x_markProcessed deps (xw_tx_id w))) (\<lambda>_.
                ret (if reconciled then XoReconciledFulfilled else XoFulfilled)))
           else bnd (deferFulfill (xw_tx_id w) payout) (\<lambda>_.
             if isAwaitingConfirmationsError r then ret XoAwaitingConfirmations
             else bnd (call (XAlert (''xrge-fulfill:'' @ xw_tx_id w)) (x_alert deps (''xrge-fulfill:'' @ xw_tx_id w))) (\<lambda>_.
                  ret XoFulfillRejected))))"

text \<open>The releases the logs show for a processed id: fulfil the only one if it matches.\<close>

definition fulfillFromLogs ::
  "XrgeWithdrawal \<Rightarrow> 'w XrgePayoutDeps \<Rightarrow> VaultReleaseLog list \<Rightarrow> ('w xrge_state, XrgeOutcome) io" where
  "fulfillFromLogs w deps hits =
     (if hits = [] then bnd (call (XAlert (''reconcile:'' @ xw_tx_id w)) (x_alert deps (''reconcile:'' @ xw_tx_id w)))
         (\<lambda>_. ret XoProcessedNoReleaseFound)
      else bnd (lift_sum (xrgeToWeiExact (xw_amount w))) (\<lambda>want.
        let good = filter (\<lambda>h. sameAddress (vr_recipient h) (xw_evm_address w) \<and> vr_amount h = want) hits in
        if length hits \<noteq> 1 \<or> length good \<noteq> 1
        then bnd (call (XAlert (''ambiguous:'' @ xw_tx_id w)) (x_alert deps (''ambiguous:'' @ xw_tx_id w)))
             (\<lambda>_. ret XoAmbiguous)
        else fulfillKnownXrgePayout w \<lparr>kp_txHash = vr_txHash (good ! 0), kp_blockNumber = vr_blockNumber (good ! 0)\<rparr>
             deps True))"

text \<open>The processed branch: fulfil the payout already known, or search for it.\<close>

definition reconcileProcessedXrge ::
  "XrgeWithdrawal \<Rightarrow> 'w XrgePayoutDeps \<Rightarrow> ('w xrge_state, XrgeOutcome) io" where
  "reconcileProcessedXrge w deps =
     bnd (gets (\<lambda>s. map_get (pendingFulfill s) (xw_tx_id w))) (\<lambda>known. case known of
       Some payout \<Rightarrow> fulfillKnownXrgePayout w payout deps True
     | None \<Rightarrow> attempt (call (XFind (xw_tx_id w)) (x_findReleases deps (xw_tx_id w))) (\<lambda>res. case res of
         Inl e \<Rightarrow> ret XoSkippedRpc
       | Inr hits \<Rightarrow> fulfillFromLogs w deps hits))"

text \<open>A release that threw or reverted is a failure only when the vault still has not processed the id.\<close>

definition failUnlessLanded ::
  "XrgeWithdrawal \<Rightarrow> 'w XrgePayoutDeps \<Rightarrow> string \<Rightarrow> ('w xrge_state, XrgeOutcome) io" where
  "failUnlessLanded w deps msg =
     attempt (call (XProcessed (xw_tx_id w)) (x_processedOnVault deps (xw_tx_id w))) (\<lambda>res. case res of
       Inl e \<Rightarrow> ret XoSkippedRpc
     | Inr landed \<Rightarrow>
         if landed then ret XoAwaitingConfirmations
         else bnd (call (XFailure (xw_tx_id w) msg) (x_handleFailure deps (xw_tx_id w) msg)) (\<lambda>_. ret XoFailed))"

definition awaitXrgeReceipt ::
  "XrgeWithdrawal \<Rightarrow> 'w XrgePayoutDeps \<Rightarrow> string \<Rightarrow> ('w xrge_state, XrgeOutcome) io" where
  "awaitXrgeReceipt w deps hash =
     attempt (call (XReceipt hash) (x_waitForReceipt deps hash)) (\<lambda>res. case res of
       Inl e \<Rightarrow> ret XoAwaitingConfirmations
     | Inr (status, bn) \<Rightarrow>
         if status \<noteq> Success then failUnlessLanded w deps (''release tx reverted: '' @ hash)
         else fulfillKnownXrgePayout w \<lparr>kp_txHash = hash, kp_blockNumber = bn\<rparr> deps False)"

definition releaseXrge ::
  "XrgeWithdrawal \<Rightarrow> 'w XrgePayoutDeps \<Rightarrow> ('w xrge_state, XrgeOutcome) io" where
  "releaseXrge w deps =
     attempt (bnd (lift_sum (xrgeToWeiExact (xw_amount w))) (\<lambda>wei.
         call (XRelease (xw_evm_address w) wei (xw_tx_id w)) (x_release deps (xw_evm_address w) wei (xw_tx_id w)))) (\<lambda>res. case res of
       Inl e \<Rightarrow> failUnlessLanded w deps (str_or e ''release failed'')
     | Inr hash \<Rightarrow> awaitXrgeReceipt w deps hash)"

definition processXrgeWithdrawal ::
  "XrgeWithdrawal \<Rightarrow> 'w XrgePayoutDeps \<Rightarrow> ('w xrge_state, XrgeOutcome) io" where
  "processXrgeWithdrawal w deps =
     attempt (call (XProcessed (xw_tx_id w)) (x_processedOnVault deps (xw_tx_id w))) (\<lambda>res. case res of
       Inl e \<Rightarrow> ret XoSkippedRpc
     | Inr processed \<Rightarrow> if processed then reconcileProcessedXrge w deps else releaseXrge w deps)"

section \<open>Observation of a withdrawal\<close>

record 'w XrgeObserveDeps =
  xo_processedOnVault :: "string \<Rightarrow> ('w, bool) eff"
  xo_findReleaseTx :: "string \<Rightarrow> ('w, string) eff"

datatype XrgeObserveOutcome = XoWouldRelease | XoWouldFulfill | XoNoReleaseFound | XoReadFailed

text \<open>\<open>findReleaseTx\<close> answers \<open>null\<close> as the empty string.\<close>

definition observeXrgeWithdrawal ::
  "XrgeWithdrawal \<Rightarrow> 'w XrgeObserveDeps \<Rightarrow> (('w, 'e, 'z) io_state_scheme, XrgeObserveOutcome) io" where
  "observeXrgeWithdrawal w deps =
     attempt (quiet (xo_processedOnVault deps (xw_tx_id w))) (\<lambda>res. case res of
       Inl e \<Rightarrow> ret XoReadFailed
     | Inr processed \<Rightarrow>
         if \<not> processed then ret XoWouldRelease
         else bnd (quiet (xo_findReleaseTx deps (xw_tx_id w))) (\<lambda>rel.
           ret (if rel \<noteq> '''' then XoWouldFulfill else XoNoReleaseFound)))"

section \<open>What a trace may contain\<close>

text \<open>\<open>xrge_known ws t i p\<close>: \<open>p\<close> is a payout of a withdrawal of \<open>ws\<close> with id \<open>i\<close>, shown by \<open>t\<close>:
  the relayer's own release of the exact amount with a successful receipt, or the only release the
  logs show for the id, to the right recipient with the right amount.\<close>

definition xrge_known :: "XrgeWithdrawal set \<Rightarrow> xrge_event list \<Rightarrow> string \<Rightarrow> KnownPayout \<Rightarrow> bool" where
  "xrge_known ws t i p = (\<exists>w \<in> ws. xw_tx_id w = i \<and> (\<exists>wei. xrgeToWeiExact (xw_amount w) = Inr wei \<and>
     (XRelease (xw_evm_address w) wei i (Inr (kp_txHash p)) \<in> set t \<and> XReceipt (kp_txHash p) (Inr (Success, kp_blockNumber p)) \<in> set t \<or>
      (\<exists>lg. XFind i (Inr [lg]) \<in> set t \<and> vr_txHash lg = kp_txHash p \<and> vr_blockNumber lg = kp_blockNumber p \<and>
         sameAddress (vr_recipient lg) (xw_evm_address w) \<and> vr_amount lg = wei))))"

text \<open>What the events before an event (newest first) must be.\<close>

fun xrge_event_ok :: "XrgeWithdrawal set \<Rightarrow> jsnum \<Rightarrow> xrge_event list \<Rightarrow> xrge_event \<Rightarrow> bool" where
  "xrge_event_ok ws req t (XRelease to wei i r) = ((\<exists>t'. t = XProcessed i (Inr False) # t') \<and>
     (\<exists>w \<in> ws. xw_tx_id w = i \<and> xw_evm_address w = to \<and> xrgeToWeiExact (xw_amount w) = Inr wei))"
| "xrge_event_ok ws req t (XFailure i m r) = (\<exists>t'. t = XProcessed i (Inr False) # t')"
| "xrge_event_ok ws req t (XFulfill i h r) = (\<exists>p head t'. t = XHead (Inr head) # t' \<and> kp_txHash p = h \<and>
     xrge_known ws t i p \<and> \<not> num_less (JInt (payoutDepth head p)) req)"
| "xrge_event_ok ws req t (XMark i r) = (\<exists>h res t'. t = XFulfill i h (Inr res) # t' \<and> xf_ok res)"
| "xrge_event_ok ws req t e = True"

fun xrge_trace_ok :: "XrgeWithdrawal set \<Rightarrow> jsnum \<Rightarrow> xrge_event list \<Rightarrow> bool" where
  "xrge_trace_ok ws req [] = True"
| "xrge_trace_ok ws req (e # t) = (xrge_event_ok ws req t e \<and> xrge_trace_ok ws req t)"

definition xrge_inv :: "XrgeWithdrawal set \<Rightarrow> jsnum \<Rightarrow> 'w xrge_state \<Rightarrow> bool" where
  "xrge_inv ws req s = (xrge_trace_ok ws req (trace s) \<and> all_entries (xrge_known ws (trace s)) (pendingFulfill s))"

lemma xrge_known_Cons: "xrge_known ws t i p \<Longrightarrow> xrge_known ws (e # t) i p"
  unfolding xrge_known_def by (meson list.set_intros(2))

lemma all_known_Cons: "all_entries (xrge_known ws t) m \<Longrightarrow> all_entries (xrge_known ws (e # t)) m"
  by (auto simp: all_entries_def list_all_iff intro: xrge_known_Cons)

lemma xrge_trace_okD: "xrge_trace_ok ws req (t2 @ e # t1) \<Longrightarrow> xrge_event_ok ws req t1 e"
  by (induction t2) auto

lemma triple_xrge_call:
  assumes "\<And>t r. P t \<Longrightarrow> xrge_event_ok ws req t (mk r)"
  shows "triple (\<lambda>s. xrge_inv ws req s \<and> P (trace s)) (call mk f)
     (\<lambda>a s. xrge_inv ws req s \<and> (\<exists>t. trace s = mk (Inr a) # t \<and> P t))
     (\<lambda>e s. xrge_inv ws req s \<and> (\<exists>t. trace s = mk (Inl e) # t \<and> P t))"
  using assms by (intro triple_call) (auto simp: xrge_inv_def all_known_Cons)

lemma keeps_xrge_call:
  assumes "\<And>t r. xrge_event_ok ws req t (mk r)"
  shows "keeps (xrge_inv ws req) (call mk f)"
  by (rule triple_conseq [OF triple_xrge_call [where P = "\<lambda>_. True"]]) (auto simp: assms)

lemma triple_deferFulfill:
  "triple (\<lambda>s. xrge_inv ws req s \<and> xrge_known ws (trace s) i p) (deferFulfill i p) (\<lambda>_. xrge_inv ws req) E"
  unfolding deferFulfill_def by (rule triple_modify) (auto simp: xrge_inv_def intro: all_entries_set)

lemma triple_defer_ret:
  "triple (\<lambda>s. xrge_inv ws req s \<and> xrge_known ws (trace s) i p) (bnd (deferFulfill i p) (\<lambda>_. ret a))
     (\<lambda>_. xrge_inv ws req) (\<lambda>_. xrge_inv ws req)"
  by (rule triple_bnd [OF triple_deferFulfill]) (rule triple_ret)

lemma triple_dropPending:
  "triple (\<lambda>s. xrge_inv ws req s \<and> P (trace s)) (dropPending i) (\<lambda>_ s. xrge_inv ws req s \<and> P (trace s)) E"
  unfolding dropPending_def by (rule triple_modify) (auto simp: xrge_inv_def intro: all_entries_delete)

text \<open>The answer of the daemon: drop the payout and mark the id, or keep the payout pending.\<close>

lemma triple_fulfil_answer:
  fixes deps :: "'w XrgePayoutDeps"
  shows "triple (\<lambda>s. xrge_inv ws req s \<and> xrge_known ws (trace s) i p \<and> (\<exists>t. trace s = XFulfill i h (Inr r) # t))
    (if xf_ok r
     then bnd (dropPending i) (\<lambda>_. bnd (call (XMark i) (x_markProcessed deps i)) (\<lambda>_. ret out))
     else bnd (deferFulfill i p) (\<lambda>_. if isAwaitingConfirmationsError r then ret XoAwaitingConfirmations
        else bnd (call (XAlert key) (x_alert deps key)) (\<lambda>_. ret XoFulfillRejected)))
    (\<lambda>_. xrge_inv ws req) (\<lambda>_. xrge_inv ws req)"
proof (rule triple_if)
  assume ok: "xf_ok r"
  let ?P = "\<lambda>t. \<exists>t'. t = XFulfill i h (Inr r) # t'"
  have "triple (\<lambda>s. xrge_inv ws req s \<and> ?P (trace s)) (call (XMark i) (x_markProcessed deps i))
      (\<lambda>_. xrge_inv ws req) (\<lambda>_. xrge_inv ws req)"
    by (rule triple_conseq [OF triple_xrge_call [where P = ?P]]) (use ok in auto)
  then show "triple (\<lambda>s. xrge_inv ws req s \<and> xrge_known ws (trace s) i p \<and> ?P (trace s))
      (bnd (dropPending i) (\<lambda>_. bnd (call (XMark i) (x_markProcessed deps i)) (\<lambda>_. ret out)))
      (\<lambda>_. xrge_inv ws req) (\<lambda>_. xrge_inv ws req)"
    by (intro triple_bnd [OF triple_pre [OF triple_dropPending [where P = ?P]]] triple_bnd triple_ret) auto
next
  have "keeps (xrge_inv ws req) (call (XAlert key) (x_alert deps key))"
    by (rule keeps_xrge_call) simp
  then have "keeps (xrge_inv ws req) (if isAwaitingConfirmationsError r then ret XoAwaitingConfirmations
        else bnd (call (XAlert key) (x_alert deps key)) (\<lambda>_. ret XoFulfillRejected))"
    by (intro keeps_rules)
  then show "triple (\<lambda>s. xrge_inv ws req s \<and> xrge_known ws (trace s) i p \<and> (\<exists>t. trace s = XFulfill i h (Inr r) # t))
     (bnd (deferFulfill i p) (\<lambda>_. if isAwaitingConfirmationsError r then ret XoAwaitingConfirmations
        else bnd (call (XAlert key) (x_alert deps key)) (\<lambda>_. ret XoFulfillRejected)))
     (\<lambda>_. xrge_inv ws req) (\<lambda>_. xrge_inv ws req)"
    by (intro triple_bnd [OF triple_pre [OF triple_deferFulfill]]) auto
qed

lemma triple_fulfillKnown:
  fixes deps :: "'w XrgePayoutDeps"
  shows "triple (\<lambda>s. xrge_inv ws (x_requiredConfirmations deps) s \<and> xrge_known ws (trace s) (xw_tx_id w) p)
     (fulfillKnownXrgePayout w p deps b) (\<lambda>_. xrge_inv ws (x_requiredConfirmations deps)) (\<lambda>_. xrge_inv ws (x_requiredConfirmations deps))"
    (is "triple (\<lambda>s. ?I s \<and> ?K (trace s)) _ _ _")
  unfolding fulfillKnownXrgePayout_def
proof (rule triple_attempt [where R = "\<lambda>r s. ?I s \<and> (\<exists>t. trace s = XHead r # t \<and> ?K t)"])
  show "triple (\<lambda>s. ?I s \<and> ?K (trace s)) (call XHead (x_headBlock deps))
     (\<lambda>a s. ?I s \<and> (\<exists>t. trace s = XHead (Inr a) # t \<and> ?K t)) (\<lambda>e s. ?I s \<and> (\<exists>t. trace s = XHead (Inl e) # t \<and> ?K t))"
    by (rule triple_xrge_call) simp
next
  fix hr
  have dfr: "triple (\<lambda>s. ?I s \<and> (\<exists>t. trace s = XHead hr # t \<and> ?K t))
      (bnd (deferFulfill (xw_tx_id w) p) (\<lambda>_. ret XoAwaitingConfirmations)) (\<lambda>_. ?I) (\<lambda>_. ?I)"
    by (rule triple_pre [OF triple_defer_ret]) (auto intro: xrge_known_Cons)
  let ?P = "\<lambda>head t. \<exists>t'. t = XHead (Inr head) # t' \<and> ?K t'"
  let ?D = "\<lambda>head. num_less (JInt (payoutDepth head p)) (x_requiredConfirmations deps)"
  have ful: "triple (\<lambda>s. ?I s \<and> ?P head (trace s))
      (call (XFulfill (xw_tx_id w) (kp_txHash p)) (x_fulfill deps (xw_tx_id w) (kp_txHash p)))
      (\<lambda>a s. ?I s \<and> ?K (trace s) \<and> (\<exists>t. trace s = XFulfill (xw_tx_id w) (kp_txHash p) (Inr a) # t)) (\<lambda>_. ?I)"
    if "\<not> ?D head" for head
    by (rule triple_conseq [OF triple_xrge_call [where P = "?P head"]]) (use that in \<open>auto intro!: xrge_known_Cons\<close>)
  show "triple (\<lambda>s. ?I s \<and> (\<exists>t. trace s = XHead hr # t \<and> ?K t))
     (case hr of
       Inl e \<Rightarrow> bnd (deferFulfill (xw_tx_id w) p) (\<lambda>_. ret XoAwaitingConfirmations)
     | Inr head \<Rightarrow>
         if ?D head then bnd (deferFulfill (xw_tx_id w) p) (\<lambda>_. ret XoAwaitingConfirmations)
         else bnd (call (XFulfill (xw_tx_id w) (kp_txHash p)) (x_fulfill deps (xw_tx_id w) (kp_txHash p))) (\<lambda>r.
           if xf_ok r
           then bnd (dropPending (xw_tx_id w)) (\<lambda>_.
                bnd (call (XMark (xw_tx_id w)) (x_markProcessed deps (xw_tx_id w))) (\<lambda>_.
                ret (if b then XoReconciledFulfilled else XoFulfilled)))
           else bnd (deferFulfill (xw_tx_id w) p) (\<lambda>_.
             if isAwaitingConfirmationsError r then ret XoAwaitingConfirmations
             else bnd (call (XAlert (''xrge-fulfill:'' @ xw_tx_id w)) (x_alert deps (''xrge-fulfill:'' @ xw_tx_id w))) (\<lambda>_.
                  ret XoFulfillRejected))))
     (\<lambda>_. ?I) (\<lambda>_. ?I)"
  proof (cases hr)
    case (Inl e)
    show ?thesis using dfr unfolding Inl sum.case .
  next
    case (Inr head)
    show ?thesis unfolding Inr sum.case
      by (rule triple_if) (use dfr [unfolded Inr] triple_bnd [OF ful triple_fulfil_answer] in \<open>simp_all only: not_False_eq_True\<close>)
  qed
qed

lemma keeps_failUnlessLanded: "keeps (xrge_inv ws req) (failUnlessLanded w deps msg)"
  unfolding failUnlessLanded_def
proof (rule triple_attempt [where R = "\<lambda>r s. xrge_inv ws req s \<and> (\<exists>t. trace s = XProcessed (xw_tx_id w) r # t \<and> True)"])
  show "triple (xrge_inv ws req) (call (XProcessed (xw_tx_id w)) (x_processedOnVault deps (xw_tx_id w)))
     (\<lambda>a s. xrge_inv ws req s \<and> (\<exists>t. trace s = XProcessed (xw_tx_id w) (Inr a) # t \<and> True))
     (\<lambda>e s. xrge_inv ws req s \<and> (\<exists>t. trace s = XProcessed (xw_tx_id w) (Inl e) # t \<and> True))"
    by (rule triple_pre [OF triple_xrge_call [where P = "\<lambda>_. True"]]) auto
next
  fix res
  let ?P = "\<lambda>t. \<exists>t'. t = XProcessed (xw_tx_id w) (Inr False) # t'"
  have "triple (\<lambda>s. xrge_inv ws req s \<and> ?P (trace s)) (call (XFailure (xw_tx_id w) msg) (x_handleFailure deps (xw_tx_id w) msg))
      (\<lambda>_. xrge_inv ws req) (\<lambda>_. xrge_inv ws req)"
    by (rule triple_conseq [OF triple_xrge_call [where P = ?P]]) auto
  then have "triple (\<lambda>s. xrge_inv ws req s \<and> ?P (trace s))
      (bnd (call (XFailure (xw_tx_id w) msg) (x_handleFailure deps (xw_tx_id w) msg)) (\<lambda>_. ret XoFailed))
      (\<lambda>_. xrge_inv ws req) (\<lambda>_. xrge_inv ws req)"
    by (rule triple_bnd) (rule triple_ret)
  then show "triple (\<lambda>s. xrge_inv ws req s \<and> (\<exists>t. trace s = XProcessed (xw_tx_id w) res # t \<and> True))
      (case res of Inl e \<Rightarrow> ret XoSkippedRpc
       | Inr landed \<Rightarrow> if landed then ret XoAwaitingConfirmations
         else bnd (call (XFailure (xw_tx_id w) msg) (x_handleFailure deps (xw_tx_id w) msg)) (\<lambda>_. ret XoFailed))
      (\<lambda>_. xrge_inv ws req) (\<lambda>_. xrge_inv ws req)"
    by (cases res) (auto intro: triple_ret)
qed

lemma triple_submit:
  fixes deps :: "'w XrgePayoutDeps"
  assumes "w \<in> ws"
  shows "triple (\<lambda>s. xrge_inv ws req s \<and> (\<exists>t'. trace s = XProcessed (xw_tx_id w) (Inr False) # t'))
    (bnd (lift_sum (xrgeToWeiExact (xw_amount w))) (\<lambda>wei.
       call (XRelease (xw_evm_address w) wei (xw_tx_id w)) (x_release deps (xw_evm_address w) wei (xw_tx_id w))))
    (\<lambda>hash s. xrge_inv ws req s \<and> (\<exists>wei. xrgeToWeiExact (xw_amount w) = Inr wei \<and>
        XRelease (xw_evm_address w) wei (xw_tx_id w) (Inr hash) \<in> set (trace s)))
    (\<lambda>_. xrge_inv ws req)"
proof (cases "xrgeToWeiExact (xw_amount w)")
  case (Inl e)
  then show ?thesis by (auto simp: lift_sum_def intro: triple_throw)
next
  case (Inr wei)
  let ?P = "\<lambda>t. \<exists>t'. t = XProcessed (xw_tx_id w) (Inr False) # t'"
  have "triple (\<lambda>s. xrge_inv ws req s \<and> ?P (trace s))
      (call (XRelease (xw_evm_address w) wei (xw_tx_id w)) (x_release deps (xw_evm_address w) wei (xw_tx_id w)))
      (\<lambda>hash s. xrge_inv ws req s \<and> XRelease (xw_evm_address w) wei (xw_tx_id w) (Inr hash) \<in> set (trace s)) (\<lambda>_. xrge_inv ws req)"
    by (rule triple_conseq [OF triple_xrge_call [where P = ?P]]) (use Inr assms in auto)
  then show ?thesis by (simp add: Inr lift_sum_def)
qed

definition xrge_sent :: "XrgeWithdrawal \<Rightarrow> string \<Rightarrow> xrge_event list \<Rightarrow> bool" where
  "xrge_sent w hash t = (\<exists>wei. xrgeToWeiExact (xw_amount w) = Inr wei \<and>
     XRelease (xw_evm_address w) wei (xw_tx_id w) (Inr hash) \<in> set t)"

lemma triple_awaitXrgeReceipt:
  fixes deps :: "'w XrgePayoutDeps"
  assumes w: "w \<in> ws"
  shows "triple (\<lambda>s. xrge_inv ws (x_requiredConfirmations deps) s \<and> xrge_sent w hash (trace s))
    (awaitXrgeReceipt w deps hash) (\<lambda>_. xrge_inv ws (x_requiredConfirmations deps)) (\<lambda>_. xrge_inv ws (x_requiredConfirmations deps))"
    (is "triple (\<lambda>s. ?I s \<and> ?S (trace s)) _ _ _")
  unfolding awaitXrgeReceipt_def
proof (rule triple_attempt [where R = "\<lambda>r s. ?I s \<and> (\<exists>t. trace s = XReceipt hash r # t \<and> ?S t)"])
  fix rres
  have fail: "triple (\<lambda>s. ?I s \<and> (\<exists>t. trace s = XReceipt hash rres # t \<and> ?S t))
     (failUnlessLanded w deps (''release tx reverted: '' @ hash)) (\<lambda>_. ?I) (\<lambda>_. ?I)"
    by (rule triple_pre [OF keeps_failUnlessLanded]) simp
  have ful: "triple (\<lambda>s. ?I s \<and> (\<exists>t. trace s = XReceipt hash (Inr (Success, bn)) # t \<and> ?S t))
     (fulfillKnownXrgePayout w \<lparr>kp_txHash = hash, kp_blockNumber = bn\<rparr> deps False) (\<lambda>_. ?I) (\<lambda>_. ?I)" for bn
    by (rule triple_pre [OF triple_fulfillKnown]) (use w in \<open>auto simp: xrge_known_def xrge_sent_def\<close>)
  show "triple (\<lambda>s. ?I s \<and> (\<exists>t. trace s = XReceipt hash rres # t \<and> ?S t)) (case rres of
       Inl e \<Rightarrow> ret XoAwaitingConfirmations
     | Inr (status, bn) \<Rightarrow>
         if status \<noteq> Success then failUnlessLanded w deps (''release tx reverted: '' @ hash)
         else fulfillKnownXrgePayout w \<lparr>kp_txHash = hash, kp_blockNumber = bn\<rparr> deps False) (\<lambda>_. ?I) (\<lambda>_. ?I)"
  proof (cases rres)
    case (Inl e)
    then show ?thesis by (auto intro: triple_ret)
  next
    case (Inr x)
    then show ?thesis using fail ful by (cases x; cases "fst x") simp_all
  qed
qed (rule triple_xrge_call, simp)

lemma triple_releaseXrge:
  fixes deps :: "'w XrgePayoutDeps"
  assumes w: "w \<in> ws"
  shows "triple (\<lambda>s. xrge_inv ws (x_requiredConfirmations deps) s \<and> (\<exists>t'. trace s = XProcessed (xw_tx_id w) (Inr False) # t'))
    (releaseXrge w deps) (\<lambda>_. xrge_inv ws (x_requiredConfirmations deps)) (\<lambda>_. xrge_inv ws (x_requiredConfirmations deps))"
    (is "triple _ _ (\<lambda>_. ?I) _")
  unfolding releaseXrge_def
proof (rule triple_attempt)
  let ?R = "\<lambda>res s. ?I s \<and> (\<forall>hash. res = Inr hash \<longrightarrow> xrge_sent w hash (trace s))"
  show "triple (\<lambda>s. ?I s \<and> (\<exists>t'. trace s = XProcessed (xw_tx_id w) (Inr False) # t'))
    (bnd (lift_sum (xrgeToWeiExact (xw_amount w))) (\<lambda>wei.
       call (XRelease (xw_evm_address w) wei (xw_tx_id w)) (x_release deps (xw_evm_address w) wei (xw_tx_id w))))
    (\<lambda>a. ?R (Inr a)) (\<lambda>e. ?R (Inl e))"
    by (rule triple_conseq [OF triple_submit [OF w]]) (auto simp: xrge_sent_def)
  show "triple (?R res) (case res of
       Inl e \<Rightarrow> failUnlessLanded w deps (str_or e ''release failed'')
     | Inr hash \<Rightarrow> awaitXrgeReceipt w deps hash) (\<lambda>_. ?I) (\<lambda>_. ?I)" for res
    using triple_awaitXrgeReceipt [OF w] keeps_failUnlessLanded by (cases res) simp_all
qed

lemma keeps_alert_ret: "keeps (xrge_inv ws req) (bnd (call (XAlert k) f) (\<lambda>_. ret a))"
  by (intro keeps_rules keeps_xrge_call) simp

text \<open>A unique release in the logs that matches is a known payout.\<close>

lemma xrge_known_unique:
  assumes "w \<in> ws" and "xrgeToWeiExact (xw_amount w) = Inr want"
    and good: "good = filter (\<lambda>h. sameAddress (vr_recipient h) (xw_evm_address w) \<and> vr_amount h = want) hits"
    and len: "length hits = 1" "length good = 1"
  shows "xrge_known ws (XFind (xw_tx_id w) (Inr hits) # t) (xw_tx_id w)
     \<lparr>kp_txHash = vr_txHash (good ! 0), kp_blockNumber = vr_blockNumber (good ! 0)\<rparr>"
proof -
  obtain lg where hits: "hits = [lg]" using len(1) by (auto simp: length_Suc_conv)
  with len(2) good have m: "sameAddress (vr_recipient lg) (xw_evm_address w) \<and> vr_amount lg = want"
    by (auto split: if_splits)
  with hits good have "good = [lg]" by simp
  with hits m assms(1,2) show ?thesis unfolding xrge_known_def by force
qed

lemma triple_fulfillFromLogs:
  fixes deps :: "'w XrgePayoutDeps"
  assumes w: "w \<in> ws"
  shows "triple (\<lambda>s. xrge_inv ws (x_requiredConfirmations deps) s \<and> (\<exists>t. trace s = XFind (xw_tx_id w) (Inr hits) # t \<and> True))
    (fulfillFromLogs w deps hits) (\<lambda>_. xrge_inv ws (x_requiredConfirmations deps)) (\<lambda>_. xrge_inv ws (x_requiredConfirmations deps))"
    (is "triple ?P _ ?Q ?E")
proof (cases "xrgeToWeiExact (xw_amount w)")
  case (Inl e)
  then show ?thesis unfolding fulfillFromLogs_def
    by (auto simp: lift_sum_def intro: triple_throw triple_pre [OF keeps_alert_ret])
next
  case (Inr want)
  define good where "good = filter (\<lambda>h. sameAddress (vr_recipient h) (xw_evm_address w) \<and> vr_amount h = want) hits"
  have "triple ?P (fulfillKnownXrgePayout w \<lparr>kp_txHash = vr_txHash (good ! 0), kp_blockNumber = vr_blockNumber (good ! 0)\<rparr> deps True) ?Q ?E"
    if "length hits = 1" "length good = 1"
    by (rule triple_pre [OF triple_fulfillKnown]) (use xrge_known_unique [OF w Inr good_def that] in auto)
  then have "triple ?P (if length hits \<noteq> 1 \<or> length good \<noteq> 1
      then bnd (call (XAlert (''ambiguous:'' @ xw_tx_id w)) (x_alert deps (''ambiguous:'' @ xw_tx_id w))) (\<lambda>_. ret XoAmbiguous)
      else fulfillKnownXrgePayout w \<lparr>kp_txHash = vr_txHash (good ! 0), kp_blockNumber = vr_blockNumber (good ! 0)\<rparr> deps True) ?Q ?E"
    by (auto intro: triple_pre [OF keeps_alert_ret])
  then show ?thesis unfolding fulfillFromLogs_def Inr lift_sum_def sum.case bnd_ret good_def [symmetric] Let_def
    by (auto intro: triple_pre [OF keeps_alert_ret])
qed

lemma keeps_reconcileProcessedXrge:
  fixes deps :: "'w XrgePayoutDeps"
  assumes w: "w \<in> ws"
  shows "keeps (xrge_inv ws (x_requiredConfirmations deps)) (reconcileProcessedXrge w deps)" (is "keeps ?I _")
  unfolding reconcileProcessedXrge_def
proof (rule triple_bnd [where R = "\<lambda>known s. ?I s \<and> known = map_get (pendingFulfill s) (xw_tx_id w)"])
  show "triple ?I (gets (\<lambda>s. map_get (pendingFulfill s) (xw_tx_id w)))
      (\<lambda>known s. ?I s \<and> known = map_get (pendingFulfill s) (xw_tx_id w)) (\<lambda>_. ?I)"
    by (rule triple_gets) simp
next
  fix known
  have pend: "triple (\<lambda>s. ?I s \<and> Some p = map_get (pendingFulfill s) (xw_tx_id w)) (fulfillKnownXrgePayout w p deps True) (\<lambda>_. ?I) (\<lambda>_. ?I)" for p
    by (rule triple_pre [OF triple_fulfillKnown]) (auto simp: xrge_inv_def dest: all_entries_get [OF _ sym])
  have hits: "triple (\<lambda>s. ?I s \<and> (\<exists>t. trace s = XFind (xw_tx_id w) res # t \<and> True))
      (case res of Inl e \<Rightarrow> ret XoSkippedRpc | Inr hits \<Rightarrow> fulfillFromLogs w deps hits) (\<lambda>_. ?I) (\<lambda>_. ?I)" for res
    using triple_fulfillFromLogs [OF w] by (cases res) (auto intro: triple_ret)
  have "triple (\<lambda>s. ?I s \<and> None = map_get (pendingFulfill s) (xw_tx_id w)) (call (XFind (xw_tx_id w)) (x_findReleases deps (xw_tx_id w)))
      (\<lambda>a s. ?I s \<and> (\<exists>t. trace s = XFind (xw_tx_id w) (Inr a) # t \<and> True)) (\<lambda>e s. ?I s \<and> (\<exists>t. trace s = XFind (xw_tx_id w) (Inl e) # t \<and> True))"
    by (rule triple_pre [OF triple_xrge_call [where P = "\<lambda>_. True"]]) auto
  from triple_attempt [where R = "\<lambda>r s. ?I s \<and> (\<exists>t. trace s = XFind (xw_tx_id w) r # t \<and> True)", OF this hits] pend
  show "triple (\<lambda>s. ?I s \<and> known = map_get (pendingFulfill s) (xw_tx_id w)) (case known of
       Some payout \<Rightarrow> fulfillKnownXrgePayout w payout deps True
     | None \<Rightarrow> attempt (call (XFind (xw_tx_id w)) (x_findReleases deps (xw_tx_id w))) (\<lambda>res. case res of
         Inl e \<Rightarrow> ret XoSkippedRpc
       | Inr hits \<Rightarrow> fulfillFromLogs w deps hits)) (\<lambda>_. ?I) (\<lambda>_. ?I)"
    by (cases known) simp_all
qed

lemma keeps_processXrgeWithdrawal:
  fixes deps :: "'w XrgePayoutDeps"
  assumes w: "w \<in> ws"
  shows "keeps (xrge_inv ws (x_requiredConfirmations deps)) (processXrgeWithdrawal w deps)" (is "keeps ?I _")
  unfolding processXrgeWithdrawal_def
proof (rule triple_attempt [where R = "\<lambda>r s. ?I s \<and> (\<exists>t. trace s = XProcessed (xw_tx_id w) r # t \<and> True)"])
  show "triple ?I (call (XProcessed (xw_tx_id w)) (x_processedOnVault deps (xw_tx_id w)))
     (\<lambda>a s. ?I s \<and> (\<exists>t. trace s = XProcessed (xw_tx_id w) (Inr a) # t \<and> True))
     (\<lambda>e s. ?I s \<and> (\<exists>t. trace s = XProcessed (xw_tx_id w) (Inl e) # t \<and> True))"
    by (rule triple_pre [OF triple_xrge_call [where P = "\<lambda>_. True"]]) auto
  have "triple (\<lambda>s. ?I s \<and> (\<exists>t. trace s = XProcessed (xw_tx_id w) (Inr True) # t \<and> True)) (reconcileProcessedXrge w deps) (\<lambda>_. ?I) (\<lambda>_. ?I)"
    by (rule triple_pre [OF keeps_reconcileProcessedXrge [OF w]]) simp
  then show "triple (\<lambda>s. ?I s \<and> (\<exists>t. trace s = XProcessed (xw_tx_id w) res # t \<and> True)) (case res of
       Inl e \<Rightarrow> ret XoSkippedRpc
     | Inr processed \<Rightarrow> if processed then reconcileProcessedXrge w deps else releaseXrge w deps) (\<lambda>_. ?I) (\<lambda>_. ?I)" for res
    using triple_releaseXrge [OF w] by (cases res) (auto intro: triple_ret)
qed

section \<open>Sequences of calls\<close>

abbreviation xrge_step :: "'w XrgePayoutDeps \<Rightarrow> XrgeWithdrawal \<Rightarrow> 'w xrge_state \<Rightarrow> 'w xrge_state" where
  "xrge_step deps w \<equiv> exec (processXrgeWithdrawal w deps)"

interpretation xrge: invariant_machine "xrge_step deps" "\<lambda>w. w \<in> ws" "xrge_inv ws (x_requiredConfirmations deps)"
  for deps :: "'w XrgePayoutDeps" and ws
  by unfold_locales (rule keeps_exec [OF keeps_processXrgeWithdrawal])

definition xrge_start :: "'w xrge_state \<Rightarrow> bool" where
  "xrge_start s = (trace s = [] \<and> pendingFulfill s = [])"

lemma xrge_run_event:
  assumes "xrge_start s" and "trace (fold (xrge_step deps) ws s) = t2 @ e # t1"
  shows "xrge_event_ok (set ws) (x_requiredConfirmations deps) t1 e"
proof -
  have "list_all (\<lambda>w. w \<in> set ws) ws" by (simp add: list_all_iff)
  moreover have "xrge_inv (set ws) (x_requiredConfirmations deps) s"
    using assms(1) by (simp add: xrge_inv_def xrge_start_def)
  ultimately have "xrge_inv (set ws) (x_requiredConfirmations deps) (fold (xrge_step deps) ws s)"
    by (rule xrge.run_inv)
  then show ?thesis using assms(2) xrge_trace_okD by (metis xrge_inv_def)
qed

section \<open>A vault that pays\<close>

definition demo_xw :: XrgeWithdrawal where
  "demo_xw = \<lparr>xw_tx_id = ''tx1'', xw_evm_address = ''0xcc'', xw_amount = JInt 5\<rparr>"

text \<open>The world is the vault's processed flag; \<open>ok\<close> tells whether a release goes through.\<close>

definition demo_xdeps :: "bool \<Rightarrow> bool XrgePayoutDeps" where
  "demo_xdeps ok = \<lparr>x_requiredConfirmations = JInt 6, x_processedOnVault = (\<lambda>i p. (Inr p, p)),
     x_release = (\<lambda>to wei i p. if ok then (Inr ''0x77'', True) else (Inl ''nonce too low'', p)),
     x_waitForReceipt = (\<lambda>h p. (Inr (Success, 10), p)), x_headBlock = (\<lambda>p. (Inr 20, p)),
     x_findReleases = (\<lambda>i p. (Inr [], p)),
     x_fulfill = (\<lambda>i h p. (Inr \<lparr>xf_ok = True, xf_status = 200, xf_error = None\<rparr>, p)),
     x_handleFailure = (\<lambda>i m p. (Inr (), p)), x_markProcessed = (\<lambda>i p. (Inr (), p)), x_alert = (\<lambda>k p. (Inr (), p))\<rparr>"

definition demo_xstate :: "bool xrge_state" where
  "demo_xstate = \<lparr>world = False, trace = [], pendingFulfill = []\<rparr>"

lemmas demo_xdefs = demo_xw_def demo_xdeps_def demo_xstate_def

lemma demo_xstart: "xrge_start demo_xstate"
  by (simp add: xrge_start_def demo_xstate_def)

lemma demo_xrun:
  "trace (fold (xrge_step (demo_xdeps True)) [demo_xw] demo_xstate) =
     [XMark ''tx1'' (Inr ()), XFulfill ''tx1'' ''0x77'' (Inr \<lparr>xf_ok = True, xf_status = 200, xf_error = None\<rparr>), XHead (Inr 20),
      XReceipt ''0x77'' (Inr (Success, 10)), XRelease ''0xcc'' (5 * 10 ^ 18) ''tx1'' (Inr ''0x77''), XProcessed ''tx1'' (Inr False)]"
  by (simp add: demo_xdefs exec_def processXrgeWithdrawal_def releaseXrge_def awaitXrgeReceipt_def fulfillKnownXrgePayout_def
      payoutDepth_def dropPending_def xrgeToWeiExact_def io_defs)

lemma demo_xrun_fail:
  "trace (fold (xrge_step (demo_xdeps False)) [demo_xw] demo_xstate) =
     [XFailure ''tx1'' ''nonce too low'' (Inr ()), XProcessed ''tx1'' (Inr False),
      XRelease ''0xcc'' (5 * 10 ^ 18) ''tx1'' (Inl ''nonce too low''), XProcessed ''tx1'' (Inr False)]"
  by (simp add: demo_xdefs exec_def processXrgeWithdrawal_def releaseXrge_def failUnlessLanded_def
      xrgeToWeiExact_def str_or_def io_defs)

section \<open>Properties\<close>

text \<open>Over any sequence of calls, for every behaviour of the vault, the chain and the daemon, each XRGE release
  pays exactly the address and amount of a withdrawal with that id, and the call just before it is
  a read of the vault that answered that the id has not been processed.\<close>

theorem xrge_release_needs_unprocessed_read:
  assumes "xrge_start s" and "trace (fold (xrge_step deps) ws s) = t2 @ XRelease to wei i r # t1"
  shows "(\<exists>t. t1 = XProcessed i (Inr False) # t) \<and>
    (\<exists>w \<in> set ws. xw_tx_id w = i \<and> xw_evm_address w = to \<and> xrgeToWeiExact (xw_amount w) = Inr wei)"
  using xrge_run_event [OF assms] by simp

theorem xrge_release_needs_unprocessed_read_witness:
  "\<exists>w \<in> set [demo_xw]. xw_tx_id w = ''tx1'' \<and> xw_evm_address w = ''0xcc'' \<and> xrgeToWeiExact (xw_amount w) = Inr (5 * 10 ^ 18)"
  using xrge_release_needs_unprocessed_read [OF demo_xstart, of "demo_xdeps True" "[demo_xw]" "take 4 (trace (fold (xrge_step (demo_xdeps True)) [demo_xw] demo_xstate))"
      "''0xcc''" "5 * 10 ^ 18" "''tx1''" "Inr ''0x77''" "[XProcessed ''tx1'' (Inr False)]"]
  unfolding demo_xrun by simp

text \<open>Over any sequence of calls, an XRGE withdrawal is reported as failed only right after a read of the vault that
  answered that the id has not been processed, so a release that landed is never reported as a
  failure (the report is what makes the daemon consider a refund).\<close>

theorem xrge_failure_needs_unprocessed_read:
  assumes "xrge_start s" and "trace (fold (xrge_step deps) ws s) = t2 @ XFailure i m r # t1"
  shows "\<exists>t. t1 = XProcessed i (Inr False) # t"
  using xrge_run_event [OF assms] by simp

theorem xrge_failure_needs_unprocessed_read_witness:
  "\<exists>t. tl (trace (fold (xrge_step (demo_xdeps False)) [demo_xw] demo_xstate)) = XProcessed ''tx1'' (Inr False) # t"
  by (rule xrge_failure_needs_unprocessed_read [OF demo_xstart, of "demo_xdeps False" "[demo_xw]" "[]" _ "''nonce too low''" "Inr ()"])
    (unfold demo_xrun_fail, simp)

text \<open>Over any sequence of calls, a fulfilment names a payout that is proved to exist: the relayer's own release of
  the exact amount with a successful receipt, or the only release in the logs for the id, to the
  right recipient with the right amount; and the head read just before puts it at the required depth.\<close>

theorem xrge_fulfil_needs_deep_payout:
  assumes "xrge_start s" and "trace (fold (xrge_step deps) ws s) = t2 @ XFulfill i h r # t1"
  shows "\<exists>p head t. t1 = XHead (Inr head) # t \<and> kp_txHash p = h \<and> xrge_known (set ws) t1 i p \<and>
    \<not> num_less (JInt (payoutDepth head p)) (x_requiredConfirmations deps)"
  using xrge_run_event [OF assms] by simp

theorem xrge_fulfil_needs_deep_payout_witness:
  "\<exists>p head t. drop 2 (trace (fold (xrge_step (demo_xdeps True)) [demo_xw] demo_xstate)) = XHead (Inr head) # t \<and> kp_txHash p = ''0x77'' \<and>
    xrge_known (set [demo_xw]) (drop 2 (trace (fold (xrge_step (demo_xdeps True)) [demo_xw] demo_xstate))) ''tx1'' p \<and>
    \<not> num_less (JInt (payoutDepth head p)) (x_requiredConfirmations (demo_xdeps True))"
  by (rule xrge_fulfil_needs_deep_payout [OF demo_xstart, of "demo_xdeps True" "[demo_xw]" "[XMark ''tx1'' (Inr ())]"
      _ _ "Inr \<lparr>xf_ok = True, xf_status = 200, xf_error = None\<rparr>"]) (unfold demo_xrun, simp)

text \<open>C27: When the vault has not processed the id, the release is sent and mined and deep enough, and the daemon
  accepts, one call releases once, fulfils with the release's hash, marks the id and leaves no
  pending payout; the recorded calls are exactly these.\<close>

theorem xrge_honest_payout:
  assumes "x_processedOnVault deps (xw_tx_id w) (world s) = (Inr False, w1)"
    and "xrgeToWeiExact (xw_amount w) = Inr wei"
    and "x_release deps (xw_evm_address w) wei (xw_tx_id w) w1 = (Inr h, w2)"
    and "x_waitForReceipt deps h w2 = (Inr (Success, bn), w3)"
    and "x_headBlock deps w3 = (Inr head, w4)"
    and "bn \<le> head" and "\<not> num_less (JInt (head - bn + 1)) (x_requiredConfirmations deps)"
    and "x_fulfill deps (xw_tx_id w) h w4 = (Inr r, w5)" and "xf_ok r"
    and "x_markProcessed deps (xw_tx_id w) w5 = (Inr (), w6)"
  shows "processXrgeWithdrawal w deps s = (Inr XoFulfilled, s\<lparr>world := w6,
     trace := [XMark (xw_tx_id w) (Inr ()), XFulfill (xw_tx_id w) h (Inr r), XHead (Inr head), XReceipt h (Inr (Success, bn)),
       XRelease (xw_evm_address w) wei (xw_tx_id w) (Inr h), XProcessed (xw_tx_id w) (Inr False)] @ trace s,
     pendingFulfill := map_delete (xw_tx_id w) (pendingFulfill s)\<rparr>)"
  using assms
  by (simp add: processXrgeWithdrawal_def releaseXrge_def awaitXrgeReceipt_def fulfillKnownXrgePayout_def
      payoutDepth_def dropPending_def io_defs)

theorem xrge_honest_payout_witness:
  "fst (processXrgeWithdrawal demo_xw (demo_xdeps True) demo_xstate) = Inr XoFulfilled"
proof -
  have "xrgeToWeiExact (xw_amount demo_xw) = Inr (5 * 10 ^ 18)" by (simp add: demo_xw_def xrgeToWeiExact_def)
  from xrge_honest_payout [of "demo_xdeps True" demo_xw demo_xstate False, OF _ this,
      where h = "''0x77''" and ?w2.0 = True and ?w3.0 = True and ?w4.0 = True and ?w5.0 = True and ?w6.0 = True and bn = 10 and head = 20
        and r = "\<lparr>xf_ok = True, xf_status = 200, xf_error = None\<rparr>"]
  show ?thesis by (simp add: demo_xdeps_def demo_xstate_def)
qed

text \<open>The depth required for an XRGE fulfilment is a number and never below the daemon's positive minimum, and the
  newest block of the deposit watcher lies at least that minimum below the head, whatever the
  relayer's own setting is (\<open>NaN\<close> and the infinities included).\<close>

theorem xrge_depth_at_least_daemon:
  "\<exists>n > 0. daemonMinConfirmations en = JInt n \<and> xrgeFulfillConfirmations c en \<noteq> NaN \<and>
     \<not> num_less (xrgeFulfillConfirmations c en) (JInt n) \<and>
     (\<forall>head b. depositWatcherSafeHead head c en = Inr (Some b) \<longrightarrow> 0 < b \<and> b \<le> head - n)"
proof -
  obtain n where n: "0 < n" "daemonMinConfirmations en = JInt n"
    using daemonMinConfirmations_positive by blast
  show ?thesis
    by (rule exI [of _ n], cases c)
      (use n in \<open>auto simp: xrgeFulfillConfirmations_def depositWatcherSafeHead_def Let_def Math_max_def split: if_splits\<close>)
qed

theorem xrge_depth_at_least_daemon_witness:
  "\<exists>n > 0. daemonMinConfirmations (\<lambda>k. None) = JInt n \<and> xrgeFulfillConfirmations NaN (\<lambda>k. None) \<noteq> NaN"
  using xrge_depth_at_least_daemon [of "\<lambda>k. None" NaN] by blast

end
