(* ===== verification/Daemon_Api.thy ===== *)
theory Daemon_Api
  imports State_Files Xrge_Payout
begin

text \<open>
  The relayer's calls of the daemon (\<open>scripts/bridge-relayer.ts\<close>): the withdrawal feeds, fulfilment,
  failure reports, refunds, deposit claims, alerts and the health gate. \<open>fetch\<close> is a parameter: an
  arbitrary effect that answers a request or throws, timeouts included. The module's own variables
  (nonces, processed ids, ids in flight, alerted ids) are in the record \<open>proc\<close> around the outside world.
\<close>

section \<open>HTTP\<close>

text \<open>\<open>encodeURIComponent\<close> on code units below 256: unreserved characters stay, the others become the
  bytes of their UTF-8 form.\<close>

definition unreserved :: "char \<Rightarrow> bool" where
  "unreserved c = (let n = (of_char c :: nat) in 48 \<le> n \<and> n \<le> 57 \<or> 65 \<le> n \<and> n \<le> 90 \<or> 97 \<le> n \<and> n \<le> 122 \<or> c \<in> set ''-_.!~*'' \<or> n \<in> {39, 40, 41})"

definition percent :: "nat \<Rightarrow> string" where
  "percent b = CHR ''%'' # [''0123456789ABCDEF'' ! (b div 16), ''0123456789ABCDEF'' ! (b mod 16)]"

definition encodeURIComponent :: "string \<Rightarrow> string" where
  "encodeURIComponent s = concat (map (\<lambda>c. if unreserved c then [c] else
     (let n = (of_char c :: nat) in if n < 128 then percent n else percent (192 + n div 64) @ percent (128 + n mod 64))) s)"

record Request =
  rq_method :: string
  rq_url :: string
  rq_secret :: string
  rq_body :: "jsnum JsonV option"

text \<open>A response body is its text with what \<open>JSON.parse\<close> makes of it; reading it can fail.\<close>

record Response =
  rs_status :: int
  rs_body :: "exn + string \<times> jsnum JsonV option"

type_synonym 'o Fetch = "Request \<Rightarrow> ('o, Response) eff"

definition res_ok :: "Response \<Rightarrow> bool" where
  "res_ok r = (200 \<le> rs_status r \<and> rs_status r \<le> 299)"

definition res_text :: "Response \<Rightarrow> ('w, string) eff" where
  "res_text r = lift_sum (case rs_body r of Inl e \<Rightarrow> Inl e | Inr (t, v) \<Rightarrow> Inr t)"

definition res_json :: "Response \<Rightarrow> ('w, jsnum JsonV) eff" where
  "res_json r = lift_sum (case rs_body r of Inl e \<Rightarrow> Inl e | Inr (t, None) \<Rightarrow> Inl ''SyntaxError'' | Inr (t, Some v) \<Rightarrow> Inr v)"

text \<open>\<open>JSON.parse(text)\<close>, or \<open>{}\<close> when it throws.\<close>

definition body_value :: "Response \<Rightarrow> jsnum JsonV" where
  "body_value r = (case rs_body r of Inr (t, Some v) \<Rightarrow> v | _ \<Rightarrow> VObj [])"

text \<open>\<open>await res.json().catch(() => ({}))\<close>.\<close>

definition json_or_empty :: "Response \<Rightarrow> ('w, jsnum JsonV) eff" where
  "json_or_empty r = try_catch (res_json r) (\<lambda>e. ret (VObj []))"

text \<open>Reading a property of \<open>null\<close> throws.\<close>

definition prop_or_throw :: "'n JsonV \<Rightarrow> string \<Rightarrow> ('w, 'n JsonV option) eff" where
  "prop_or_throw v k = (if v = VNull then throw ''TypeError'' else ret (prop_of v k))"

fun json_truthy :: "jsnum JsonV option \<Rightarrow> bool" where
  "json_truthy None = False"
| "json_truthy (Some VNull) = False"
| "json_truthy (Some (VBool b)) = b"
| "json_truthy (Some (VNum n)) = num_truthy n"
| "json_truthy (Some (VStr s)) = (s \<noteq> '''')"
| "json_truthy (Some v) = True"

text \<open>\<open>String(v)\<close> of an error value: the daemon sends strings; other values are not told apart.\<close>

definition error_text :: "jsnum JsonV option \<Rightarrow> string \<Rightarrow> string" where
  "error_text v d = (case v of None \<Rightarrow> d | Some VNull \<Rightarrow> d | Some (VStr s) \<Rightarrow> s | Some _ \<Rightarrow> ''[object Object]'')"

section \<open>The process\<close>

record 'o proc =
  outside :: 'o
  nonceState :: "(string, int) jsmap"
  processedTxIds :: "string list"
  inFlightTxIds :: "string list"
  alertedTxIds :: "string list"

definition outw :: "('o, 'a) eff \<Rightarrow> ('o proc, 'a) eff" where
  "outw f p = (case f (outside p) of (r, w) \<Rightarrow> (r, p\<lparr>outside := w\<rparr>))"

record RelayerConfig =
  CORE_API_URL :: string
  RELAYER_SECRET :: string
  ALERT_WEBHOOK_URL :: string
  OBSERVE_ONLY :: bool
  AUTO_REFUND :: bool

definition withdrawal_url :: "RelayerConfig \<Rightarrow> string \<Rightarrow> string \<Rightarrow> string \<Rightarrow> string" where
  "withdrawal_url cfg path i ending = CORE_API_URL cfg @ path @ encodeURIComponent i @ ending"

section \<open>The feeds\<close>

text \<open>The items of a feed, read at the fields' declared types; a field of another type counts as absent.\<close>

fun num_val :: "jsnum JsonV option \<Rightarrow> jsnum option" where
  "num_val (Some (VNum n)) = Some n"
| "num_val _ = None"

definition eth_withdrawal :: "jsnum JsonV \<Rightarrow> EthWithdrawal" where
  "eth_withdrawal v = \<lparr>w_txId = str_field v ''txId'', w_tx_id = str_field v ''tx_id'', w_evmAddress = str_field v ''evmAddress'',
     w_evm_address = str_field v ''evm_address'', w_amountUnits = num_val (prop_of v ''amountUnits''),
     w_amount_units = num_val (prop_of v ''amount_units''), w_tokenSymbol = str_field v ''tokenSymbol'', w_token_symbol = str_field v ''token_symbol''\<rparr>"

definition withdrawal_items :: "jsnum JsonV \<Rightarrow> ('w, jsnum JsonV list) eff" where
  "withdrawal_items data = bnd (prop_or_throw data ''withdrawals'') (\<lambda>ws.
     ret (case array_items ws of Some xs \<Rightarrow> xs | None \<Rightarrow> []))"

definition get_request :: "string \<Rightarrow> Request" where
  "get_request url = \<lparr>rq_method = ''GET'', rq_url = url, rq_secret = '''', rq_body = None\<rparr>"

definition fetchEthWithdrawals :: "RelayerConfig \<Rightarrow> 'o Fetch \<Rightarrow> ('o proc, EthWithdrawal list) eff" where
  "fetchEthWithdrawals cfg fetch = bnd (outw (fetch (get_request (CORE_API_URL cfg @ ''/api/bridge/withdrawals'')))) (\<lambda>res.
     if \<not> res_ok res then throw (''API error '' @ dec_int (rs_status res))
     else bnd (res_json res) (\<lambda>data. bnd (withdrawal_items data) (\<lambda>ws. ret (map eth_withdrawal ws))))"

record RawXrgeWithdrawal =
  rx_txId :: string
  rx_tx_id :: string
  rx_evmAddress :: string
  rx_evm_address :: string
  rx_amount :: "jsnum option"

definition raw_xrge :: "jsnum JsonV \<Rightarrow> RawXrgeWithdrawal" where
  "raw_xrge v = \<lparr>rx_txId = str_field v ''txId'', rx_tx_id = str_field v ''tx_id'', rx_evmAddress = str_field v ''evmAddress'',
     rx_evm_address = str_field v ''evm_address'', rx_amount = num_val (prop_of v ''amount'')\<rparr>"

definition normalizeXrgeWithdrawal :: "RawXrgeWithdrawal \<Rightarrow> XrgeWithdrawal" where
  "normalizeXrgeWithdrawal w = \<lparr>xw_tx_id = str_or (rx_txId w) (rx_tx_id w), xw_evm_address = str_or (rx_evmAddress w) (rx_evm_address w),
     xw_amount = opt_num_or (rx_amount w) (JInt 0)\<rparr>"

definition fetchXrgeWithdrawals :: "RelayerConfig \<Rightarrow> 'o Fetch \<Rightarrow> ('o proc, RawXrgeWithdrawal list) eff" where
  "fetchXrgeWithdrawals cfg fetch = try_catch
     (bnd (outw (fetch (get_request (CORE_API_URL cfg @ ''/api/bridge/xrge/withdrawals'')))) (\<lambda>res.
        if \<not> res_ok res then ret [] else bnd (res_json res) (\<lambda>data. bnd (withdrawal_items data) (\<lambda>ws. ret (map raw_xrge ws)))))
     (\<lambda>e. ret [])"

section \<open>Writes\<close>

definition write_request :: "RelayerConfig \<Rightarrow> string \<Rightarrow> string \<Rightarrow> jsnum JsonV \<Rightarrow> Request" where
  "write_request cfg verb url body = \<lparr>rq_method = verb, rq_url = url, rq_secret = RELAYER_SECRET cfg, rq_body = Some body\<rparr>"

definition refuse_in_observation :: "RelayerConfig \<Rightarrow> ObserveTag \<Rightarrow> string \<Rightarrow> ('w, unit) eff" where
  "refuse_in_observation cfg tag detail = (if OBSERVE_ONLY cfg then observeRefuse tag detail else ret ())"

definition fulfillEthWithdrawal :: "RelayerConfig \<Rightarrow> 'o Fetch \<Rightarrow> string \<Rightarrow> string \<Rightarrow> ('o proc, bool) eff" where
  "fulfillEthWithdrawal cfg fetch i evmTxHash =
     bnd (refuse_in_observation cfg WOULD_FULFILL (''EVM '' @ i @ '' via '' @ evmTxHash)) (\<lambda>_.
     bnd (outw (fetch (write_request cfg ''DELETE'' (withdrawal_url cfg ''/api/bridge/withdrawals/'' i '''') (VObj [(''evmTxHash'', VStr evmTxHash)])))) (\<lambda>res.
     bnd (res_text res) (\<lambda>text. bnd (prop_or_throw (body_value res) ''success'') (\<lambda>su. ret (su = Some (VBool True))))))"

definition fulfillXrgeWithdrawal :: "RelayerConfig \<Rightarrow> 'o Fetch \<Rightarrow> string \<Rightarrow> string \<Rightarrow> ('o proc, XrgeFulfillResult) eff" where
  "fulfillXrgeWithdrawal cfg fetch i evmTxHash =
     bnd (refuse_in_observation cfg WOULD_FULFILL (''XRGE '' @ i @ '' via '' @ evmTxHash)) (\<lambda>_.
     try_catch
       (bnd (outw (fetch (write_request cfg ''DELETE'' (withdrawal_url cfg ''/api/bridge/xrge/withdrawals/'' i '''') (VObj [(''evmTxHash'', VStr evmTxHash)])))) (\<lambda>res.
        bnd (res_text res) (\<lambda>text. bnd (prop_or_throw (body_value res) ''success'') (\<lambda>su.
        if su = Some (VBool True) then ret \<lparr>xf_ok = True, xf_status = rs_status res, xf_error = None\<rparr>
        else ret \<lparr>xf_ok = False, xf_status = rs_status res, xf_error = Some (take 300 (error_text (prop_of (body_value res) ''error'') text))\<rparr>))))
       (\<lambda>e. ret \<lparr>xf_ok = False, xf_status = 0, xf_error = Some (''request failed: '' @ e)\<rparr>))"

text \<open>\<open>alert\<close>: the webhook hears of a key once. The text of the message is left out.\<close>

definition sendAlert :: "RelayerConfig \<Rightarrow> 'o Fetch \<Rightarrow> string \<Rightarrow> ('o proc, unit) eff" where
  "sendAlert cfg fetch key =
     bnd (gets (\<lambda>p. key \<in> set (alertedTxIds p))) (\<lambda>known. if known then ret () else
     bnd (modify (\<lambda>p. p\<lparr>alertedTxIds := alertedTxIds p @ [key]\<rparr>)) (\<lambda>_.
     if ALERT_WEBHOOK_URL cfg = '''' then ret ()
     else try_catch (bnd (outw (fetch \<lparr>rq_method = ''POST'', rq_url = ALERT_WEBHOOK_URL cfg, rq_secret = '''',
         rq_body = None\<rparr>)) (\<lambda>_. ret ())) (\<lambda>e. ret ())))"

text \<open>The daemon's attempt counter is an integer.\<close>

fun attempts_of :: "jsnum JsonV option \<Rightarrow> int" where
  "attempts_of (Some (VNum (JInt i))) = i"
| "attempts_of _ = 0"

definition reportWithdrawalFailure :: "RelayerConfig \<Rightarrow> 'o Fetch \<Rightarrow> string \<Rightarrow> string \<Rightarrow> ('o proc, bool \<times> int) eff" where
  "reportWithdrawalFailure cfg fetch i err =
     bnd (refuse_in_observation cfg WOULD_REPORT_FAILURE (i @ '': '' @ err)) (\<lambda>_.
     try_catch
       (bnd (outw (fetch (write_request cfg ''POST'' (withdrawal_url cfg ''/api/bridge/withdrawals/'' i ''/failure'') (VObj [(''error'', VStr err)])))) (\<lambda>res.
        bnd (json_or_empty res) (\<lambda>data. bnd (prop_or_throw data ''shouldRefund'') (\<lambda>sr.
        ret (sr = Some (VBool True), attempts_of (prop_of data ''attempts''))))))
       (\<lambda>e. ret (False, 0)))"

definition autoClaimDeposit :: "RelayerConfig \<Rightarrow> 'o Fetch \<Rightarrow> string \<Rightarrow> string \<Rightarrow> string \<Rightarrow> ('o proc, bool \<times> string) eff" where
  "autoClaimDeposit cfg fetch evmTxHash recipientKey token =
     bnd (refuse_in_observation cfg WOULD_CLAIM_DEPOSIT (token @ '' '' @ evmTxHash)) (\<lambda>_.
     try_catch
       (bnd (outw (fetch (write_request cfg ''POST'' (CORE_API_URL cfg @ ''/api/bridge/deposit/auto-claim'')
          (VObj [(''evmTxHash'', VStr evmTxHash), (''recipientRougechainPubkey'', VStr recipientKey), (''token'', VStr token)])))) (\<lambda>res.
        bnd (json_or_empty res) (\<lambda>data. bnd (prop_or_throw data ''success'') (\<lambda>su.
        if su = Some (VBool True) then ret (True, '''')
        else ret (False, if json_truthy (prop_of data ''error'') then error_text (prop_of data ''error'') '''' else ''unknown'')))))
       (\<lambda>e. ret (False, e)))"

definition refundWithdrawal :: "RelayerConfig \<Rightarrow> 'o Fetch \<Rightarrow> string \<Rightarrow> ('o proc, bool) eff" where
  "refundWithdrawal cfg fetch i =
     bnd (refuse_in_observation cfg WOULD_REFUND i) (\<lambda>_.
     try_catch
       (bnd (outw (fetch (write_request cfg ''POST'' (withdrawal_url cfg ''/api/bridge/withdrawals/'' i ''/refund'') (VObj [])))) (\<lambda>res.
        bnd (json_or_empty res) (\<lambda>data. bnd (prop_or_throw data ''success'') (\<lambda>su. ret (su = Some (VBool True))))))
       (\<lambda>e. ret False))"

text \<open>The process with its disk: the outside world is the disk of \<open>State_Files\<close> around everything else. \<open>rl_shutting\<close>
  is the flag a signal sets at any moment.\<close>

type_synonym 'x outer = "('x, json_file) fs_state"

record 'x Relayer =
  rl_config :: RelayerConfig
  rl_fetch :: "'x outer Fetch"
  rl_fs :: "('x, json_file) FsEnv"
  isShuttingDown :: "'x outer \<Rightarrow> bool"
  PROCESSED_FILE :: string
  QUEUED_FILE :: string

definition js_add :: "'a \<Rightarrow> 'a list \<Rightarrow> 'a list" where
  "js_add x xs = (if x \<in> set xs then xs else xs @ [x])"

text \<open>\<open>processedTxIds.add(txId); saveProcessedTxIds(processedTxIds)\<close>.\<close>

definition addProcessed :: "'x Relayer \<Rightarrow> string \<Rightarrow> ('x outer proc, unit) eff" where
  "addProcessed rl i =
     bnd (modify (\<lambda>p. p\<lparr>processedTxIds := js_add i (processedTxIds p)\<rparr>)) (\<lambda>_.
     bnd (gets processedTxIds) (\<lambda>ids.
     outw (saveProcessedTxIds (rl_fs rl) (OBSERVE_ONLY (rl_config rl)) (PROCESSED_FILE rl) ids)))"

definition handleWithdrawalFailure :: "'x Relayer \<Rightarrow> string \<Rightarrow> string \<Rightarrow> ('x outer proc, unit) eff" where
  "handleWithdrawalFailure rl i err = (let cfg = rl_config rl; fetch = rl_fetch rl in
     bnd (refuse_in_observation cfg WOULD_REPORT_FAILURE (''XRGE '' @ i @ '': '' @ err)) (\<lambda>_.
     bnd (reportWithdrawalFailure cfg fetch i err) (\<lambda>(shouldRefund, attempts).
     bnd (if attempts \<ge> 3 then sendAlert cfg fetch i else ret ()) (\<lambda>_.
     if shouldRefund \<and> AUTO_REFUND cfg then
       bnd (refundWithdrawal cfg fetch i) (\<lambda>refunded. if refunded then
         bnd (sendAlert cfg fetch (''refund:'' @ i)) (\<lambda>_.
         addProcessed rl i)
       else ret ())
     else ret ()))))"

text \<open>The health gate of a poll: the daemon's answer, or nothing when it cannot be reached.\<close>

fun degraded_of :: "jsnum JsonV option \<Rightarrow> degraded_field" where
  "degraded_of None = DAbsent"
| "degraded_of (Some (VBool b)) = DBool b"
| "degraded_of (Some v) = DOther"

definition readHealth :: "RelayerConfig \<Rightarrow> 'o Fetch \<Rightarrow> ('o proc, BridgeHealthResponse option) eff" where
  "readHealth cfg fetch = try_catch
     (bnd (outw (fetch (get_request (CORE_API_URL cfg @ ''/api/bridge/health'')))) (\<lambda>res.
      bnd (json_or_empty res) (\<lambda>body. ret (Some \<lparr>bh_status = rs_status res, bh_degraded = degraded_of (prop_of body ''degraded'')\<rparr>))))
     (\<lambda>e. ret None)"

section \<open>What an answer means\<close>

text \<open>The daemon said yes: a response was received whose body is JSON with \<open>success\<close> being \<open>true\<close>.\<close>

definition said_yes :: "Response \<Rightarrow> bool" where
  "said_yes r = (\<exists>t v. rs_body r = Inr (t, Some v) \<and> prop_of v ''success'' = Some (VBool True))"

definition granted :: "'o Fetch \<Rightarrow> Request \<Rightarrow> 'o proc \<Rightarrow> bool" where
  "granted fetch rq p = (\<exists>res w. fetch rq (outside p) = (Inr res, w) \<and> said_yes res)"

lemma body_success: "prop_of (body_value r) ''success'' = Some (VBool True) \<longleftrightarrow> said_yes r"
  by (auto simp: said_yes_def body_value_def split: sum.splits option.splits prod.splits)

lemma outw_Inr: "outw f p = (Inr a, p') \<Longrightarrow> \<exists>w. f (outside p) = (Inr a, w) \<and> p' = p\<lparr>outside := w\<rparr>"
  by (auto simp: outw_def split: prod.splits)

lemma prop_or_throw_Inr: "prop_or_throw v k s = (Inr x, s') \<Longrightarrow> x = prop_of v k \<and> s' = s"
  by (auto simp: prop_or_throw_def ret_def throw_def split: if_splits)

lemma refuse_Inr: "refuse_in_observation cfg tag dt s = (Inr u, s') \<Longrightarrow> \<not> OBSERVE_ONLY cfg \<and> s' = s"
  by (auto simp: refuse_in_observation_def observeRefuse_def ret_def throw_def split: if_splits)

lemma try_catch_Inr_E:
  assumes "try_catch m h s = (Inr a, s')"
  obtains "m s = (Inr a, s')" | e s1 where "m s = (Inl e, s1)" "h e s1 = (Inr a, s')"
  using assms by (auto simp: try_catch_def split: prod.splits sum.splits)

lemma json_or_empty_Inr: "json_or_empty r s = (Inr v, s') \<Longrightarrow> v = body_value r \<and> s' = s"
  by (auto simp: json_or_empty_def res_json_def body_value_def io_defs split: sum.splits option.splits prod.splits)

lemma res_text_Inr: "res_text r s = (Inr t, s') \<Longrightarrow> (\<exists>v. rs_body r = Inr (t, v)) \<and> s' = s"
  by (auto simp: res_text_def io_defs split: sum.splits prod.splits)

lemmas api_dest = refuse_Inr prop_or_throw_Inr json_or_empty_Inr res_text_Inr outw_Inr
lemmas api_elim = bnd_Inr_E try_catch_Inr_E

lemma fulfillEth_yes:
  assumes "fulfillEthWithdrawal cfg fetch i h p = (Inr True, p')"
  shows "\<not> OBSERVE_ONLY cfg \<and> granted fetch (write_request cfg ''DELETE'' (withdrawal_url cfg ''/api/bridge/withdrawals/'' i '''')
    (VObj [(''evmTxHash'', VStr h)])) p"
  using assms unfolding fulfillEthWithdrawal_def
  by (auto simp: ret_def body_success granted_def elim!: bnd_Inr_E dest!: api_dest)

lemma fulfillXrge_yes:
  assumes "fulfillXrgeWithdrawal cfg fetch i h p = (Inr r, p')" "xf_ok r"
  shows "\<not> OBSERVE_ONLY cfg \<and> granted fetch (write_request cfg ''DELETE'' (withdrawal_url cfg ''/api/bridge/xrge/withdrawals/'' i '''')
    (VObj [(''evmTxHash'', VStr h)])) p"
  using assms unfolding fulfillXrgeWithdrawal_def
  by (auto simp: ret_def body_success granted_def elim!: api_elim dest!: api_dest split: if_splits)

lemma refund_yes:
  assumes "refundWithdrawal cfg fetch i p = (Inr True, p')"
  shows "\<not> OBSERVE_ONLY cfg \<and> granted fetch (write_request cfg ''POST'' (withdrawal_url cfg ''/api/bridge/withdrawals/'' i ''/refund'')
    (VObj [])) p"
  using assms unfolding refundWithdrawal_def
  by (auto simp: ret_def body_success granted_def elim!: api_elim dest!: api_dest)

lemma claim_yes:
  assumes "autoClaimDeposit cfg fetch h k t p = (Inr (True, e), p')"
  shows "\<not> OBSERVE_ONLY cfg \<and> granted fetch (write_request cfg ''POST'' (CORE_API_URL cfg @ ''/api/bridge/deposit/auto-claim'')
    (VObj [(''evmTxHash'', VStr h), (''recipientRougechainPubkey'', VStr k), (''token'', VStr t)])) p"
  using assms unfolding autoClaimDeposit_def
  by (auto simp: ret_def body_success granted_def elim!: api_elim dest!: api_dest split: if_splits)


definition sample_api :: RelayerConfig where
  "sample_api = \<lparr>CORE_API_URL = ''http://d'', RELAYER_SECRET = ''s'', ALERT_WEBHOOK_URL = '''', OBSERVE_ONLY = False, AUTO_REFUND = True\<rparr>"

definition yes_fetch :: "unit Fetch" where
  "yes_fetch rq = Pair (Inr \<lparr>rs_status = 200, rs_body = Inr (''{success:true}'', Some (VObj [(''success'', VBool True)]))\<rparr>)"

definition sample_proc :: "unit proc" where
  "sample_proc = \<lparr>outside = (), nonceState = [], processedTxIds = [], inFlightTxIds = [], alertedTxIds = []\<rparr>"


end
