(* ===== verification/Preflight.thy ===== *)
theory Preflight
  imports Evm_Payout
begin

text \<open>
  The startup check of \<open>scripts/bridge-relayer-core.ts\<close>: \<open>preflight\<close> reads the chain id, the code and
  the configuration of the bridge contract and throws unless all of it is as expected. The RPC client
  is a parameter and every read is recorded.
\<close>

text \<open>A value a contract read returns, with JavaScript's \<open>String\<close> and \<open>Boolean\<close> of it.\<close>

datatype contract_value = CvText string | CvBool bool

fun String_of :: "contract_value \<Rightarrow> string" where
  "String_of (CvText s) = s"
| "String_of (CvBool b) = (if b then ''true'' else ''false'')"

fun Boolean_of :: "contract_value \<Rightarrow> bool" where
  "Boolean_of (CvText s) = (s \<noteq> '''')"
| "Boolean_of (CvBool b) = b"

record 'w PreflightClient =
  pc_getChainId :: "('w, int) eff"
  pc_getCode :: "string \<Rightarrow> ('w, string) eff"
  pc_readContract :: "string \<Rightarrow> string \<Rightarrow> string list \<Rightarrow> ('w, contract_value) eff"

text \<open>Addresses that are not set are the empty string.\<close>

record PreflightConfig =
  pf_expectedChainId :: int
  pf_bridgeAddress :: string
  pf_configuredUsdc :: string
  pf_chainUsdc :: string
  pf_vaultAddress :: string
  pf_expectedOwner :: string

record PreflightResult =
  pr_paused :: bool
  pr_owner :: string
  pr_chainId :: int

datatype preflight_event =
    PfChainId "exn + int"
  | PfCode string "exn + string"
  | PfRead string string "string list" "exn + contract_value"

definition PreflightError :: "string \<Rightarrow> exn" where
  "PreflightError message = ''[preflight] '' @ message"

definition hasCode :: "string \<Rightarrow> bool" where
  "hasCode code = (code \<noteq> '''' \<and> code \<noteq> ''0x'' \<and> length code > 2)"

definition refuse_unless :: "bool \<Rightarrow> string \<Rightarrow> ('s, unit) io" where
  "refuse_unless ok message = (if ok then ret () else throw (PreflightError message))"

definition getCode :: "'w PreflightClient \<Rightarrow> string \<Rightarrow> (('w, preflight_event) io_state, string) io" where
  "getCode c a = call (PfCode a) (pc_getCode c a)"

definition readContract :: "'w PreflightClient \<Rightarrow> string \<Rightarrow> string \<Rightarrow> string list \<Rightarrow> (('w, preflight_event) io_state, contract_value) io" where
  "readContract c a f args = call (PfRead a f args) (pc_readContract c a f args)"

definition checkChain :: "'w PreflightClient \<Rightarrow> PreflightConfig \<Rightarrow> (('w, preflight_event) io_state, int) io" where
  "checkChain c cfg = bnd (call PfChainId (pc_getChainId c)) (\<lambda>chainId.
     bnd (refuse_unless (chainId = pf_expectedChainId cfg)
       (''chain id mismatch: RPC reports '' @ dec_int chainId @ '', expected '' @ dec_int (pf_expectedChainId cfg))) (\<lambda>_. ret chainId))"

definition checkBridge :: "viem \<Rightarrow> 'w PreflightClient \<Rightarrow> PreflightConfig \<Rightarrow> (('w, preflight_event) io_state, string \<times> bool) io" where
  "checkBridge vm c cfg = (let bridge = pf_bridgeAddress cfg in
     bnd (refuse_unless (bridge \<noteq> '''' \<and> isEvmAddress vm bridge) (''ROUGE_BRIDGE_ADDRESS missing or invalid ('' @ str_or bridge ''unset'' @ '')'')) (\<lambda>_.
     bnd (getCode c bridge) (\<lambda>code.
     bnd (refuse_unless (hasCode code) (''no contract code at ROUGE_BRIDGE_ADDRESS '' @ bridge)) (\<lambda>_.
     bnd (readContract c bridge ''owner'' []) (\<lambda>ow.
     bnd (refuse_unless (sameAddress (String_of ow) (pf_expectedOwner cfg))
       (''RougeBridge owner '' @ String_of ow @ '' != operational signer/owner '' @ pf_expectedOwner cfg)) (\<lambda>_.
     bnd (readContract c bridge ''paused'' []) (\<lambda>pa. ret (String_of ow, Boolean_of pa))))))))"

definition checkUsdc :: "viem \<Rightarrow> 'w PreflightClient \<Rightarrow> PreflightConfig \<Rightarrow> (('w, preflight_event) io_state, unit) io" where
  "checkUsdc vm c cfg =
     bnd (refuse_unless (isEvmAddress vm (pf_chainUsdc cfg)) (''CHAIN_CONFIG usdc is not an address: '' @ pf_chainUsdc cfg)) (\<lambda>_.
     bnd (refuse_unless (pf_configuredUsdc cfg = '''' \<or> sameAddress (pf_configuredUsdc cfg) (pf_chainUsdc cfg))
       (''configured USDC '' @ pf_configuredUsdc cfg @ '' != CHAIN_CONFIG usdc '' @ pf_chainUsdc cfg)) (\<lambda>_.
     bnd (readContract c (pf_bridgeAddress cfg) ''supportedTokens'' [pf_chainUsdc cfg]) (\<lambda>sup.
     refuse_unless (Boolean_of sup) (''RougeBridge.supportedTokens('' @ pf_chainUsdc cfg @ '') == false''))))"

definition checkVault :: "viem \<Rightarrow> 'w PreflightClient \<Rightarrow> PreflightConfig \<Rightarrow> (('w, preflight_event) io_state, unit) io" where
  "checkVault vm c cfg = (if pf_vaultAddress cfg = '''' then ret () else
     bnd (refuse_unless (isEvmAddress vm (pf_vaultAddress cfg)) (''XRGE_BRIDGE_VAULT is not an address: '' @ pf_vaultAddress cfg)) (\<lambda>_.
     bnd (getCode c (pf_vaultAddress cfg)) (\<lambda>code.
     refuse_unless (hasCode code) (''no contract code at XRGE_BRIDGE_VAULT '' @ pf_vaultAddress cfg))))"

definition preflight :: "viem \<Rightarrow> 'w PreflightClient \<Rightarrow> PreflightConfig \<Rightarrow> (('w, preflight_event) io_state, PreflightResult) io" where
  "preflight vm c cfg =
     bnd (checkChain c cfg) (\<lambda>chainId.
     bnd (checkBridge vm c cfg) (\<lambda>(owner, paused).
     bnd (checkUsdc vm c cfg) (\<lambda>_.
     bnd (checkVault vm c cfg) (\<lambda>_.
     ret \<lparr>pr_paused = paused, pr_owner = owner, pr_chainId = chainId\<rparr>))))"

section \<open>What a passed check has seen\<close>

lemma refuse_unless_Inr: "refuse_unless ok m s = (Inr u, s') \<Longrightarrow> ok \<and> s' = s"
  by (auto simp: refuse_unless_def ret_def throw_def split: if_splits)

lemma call_Inr: "call mk f s = (Inr a, s') \<Longrightarrow> trace s' = mk (Inr a) # trace s"
  by (auto simp: call_def split: prod.splits)

lemma checkChain_Inr:
  assumes "checkChain c cfg s = (Inr n, s')"
  shows "n = pf_expectedChainId cfg \<and> trace s' = PfChainId (Inr n) # trace s"
  using assms unfolding checkChain_def
  by (auto simp: ret_def elim!: bnd_Inr_E dest!: refuse_unless_Inr call_Inr)

lemma checkBridge_Inr:
  assumes "checkBridge vm c cfg s = (Inr (ow, pa), s')"
  shows "\<exists>code ov pv. isEvmAddress vm (pf_bridgeAddress cfg) \<and> hasCode code \<and> ow = String_of ov \<and> sameAddress ow (pf_expectedOwner cfg) \<and>
    pa = Boolean_of pv \<and> trace s' = [PfRead (pf_bridgeAddress cfg) ''paused'' [] (Inr pv), PfRead (pf_bridgeAddress cfg) ''owner'' [] (Inr ov),
      PfCode (pf_bridgeAddress cfg) (Inr code)] @ trace s"
  using assms unfolding checkBridge_def Let_def getCode_def readContract_def
  by (auto simp: ret_def elim!: bnd_Inr_E dest!: refuse_unless_Inr call_Inr)

lemma checkUsdc_Inr:
  assumes "checkUsdc vm c cfg s = (Inr u, s')"
  shows "isEvmAddress vm (pf_chainUsdc cfg) \<and> (pf_configuredUsdc cfg = '''' \<or> sameAddress (pf_configuredUsdc cfg) (pf_chainUsdc cfg)) \<and>
    (\<exists>v. Boolean_of v \<and> trace s' = PfRead (pf_bridgeAddress cfg) ''supportedTokens'' [pf_chainUsdc cfg] (Inr v) # trace s)"
  using assms unfolding checkUsdc_def readContract_def
  by (auto elim!: bnd_Inr_E dest!: refuse_unless_Inr call_Inr)

lemma checkVault_Inr:
  assumes "checkVault vm c cfg s = (Inr u, s')"
  shows "pf_vaultAddress cfg = '''' \<and> trace s' = trace s \<or>
    isEvmAddress vm (pf_vaultAddress cfg) \<and> (\<exists>code. hasCode code \<and> trace s' = PfCode (pf_vaultAddress cfg) (Inr code) # trace s)"
  using assms unfolding checkVault_def getCode_def
  by (auto simp: ret_def elim!: bnd_Inr_E dest!: refuse_unless_Inr call_Inr split: if_splits)

text \<open>C30: The relayer starts only on the chain and contracts it is configured for. When \<open>preflight\<close> returns, the
  chain id read is the expected one, there is code at a well-formed bridge address, its owner is the
  operational signer, the built-in USDC address is supported by the bridge and equals the one configured by
  hand if there is one, and a configured vault is an address with code; and these are all the reads it made.\<close>

theorem preflight_checks_everything:
  assumes "preflight vm c cfg s = (Inr r, s')"
  shows "\<exists>code ov pv sv vault. trace s' = vault @ [PfRead (pf_bridgeAddress cfg) ''supportedTokens'' [pf_chainUsdc cfg] (Inr sv),
        PfRead (pf_bridgeAddress cfg) ''paused'' [] (Inr pv), PfRead (pf_bridgeAddress cfg) ''owner'' [] (Inr ov),
        PfCode (pf_bridgeAddress cfg) (Inr code), PfChainId (Inr (pf_expectedChainId cfg))] @ trace s \<and>
      r = \<lparr>pr_paused = Boolean_of pv, pr_owner = String_of ov, pr_chainId = pf_expectedChainId cfg\<rparr> \<and>
      isEvmAddress vm (pf_bridgeAddress cfg) \<and> hasCode code \<and> sameAddress (String_of ov) (pf_expectedOwner cfg) \<and> Boolean_of sv \<and>
      isEvmAddress vm (pf_chainUsdc cfg) \<and> (pf_configuredUsdc cfg = '''' \<or> sameAddress (pf_configuredUsdc cfg) (pf_chainUsdc cfg)) \<and>
      (pf_vaultAddress cfg = '''' \<and> vault = [] \<or>
       isEvmAddress vm (pf_vaultAddress cfg) \<and> (\<exists>vc. hasCode vc \<and> vault = [PfCode (pf_vaultAddress cfg) (Inr vc)]))"
proof -
  obtain n s1 ow pa s2 u s3 v where run: "checkChain c cfg s = (Inr n, s1)" "checkBridge vm c cfg s1 = (Inr (ow, pa), s2)"
      "checkUsdc vm c cfg s2 = (Inr u, s3)" "checkVault vm c cfg s3 = (Inr v, s')" "r = \<lparr>pr_paused = pa, pr_owner = ow, pr_chainId = n\<rparr>"
    using assms unfolding preflight_def by (auto simp: ret_def elim!: bnd_Inr_E)
  show ?thesis
    using checkChain_Inr [OF run(1)] checkBridge_Inr [OF run(2)] checkUsdc_Inr [OF run(3)] checkVault_Inr [OF run(4)] run(5)
    by auto
qed

definition sample_client :: "unit PreflightClient" where
  "sample_client = \<lparr>pc_getChainId = Pair (Inr 8453), pc_getCode = (\<lambda>_. Pair (Inr ''0x6080'')),
     pc_readContract = (\<lambda>_ f _. Pair (Inr (if f = ''owner'' then CvText ''0xAA'' else CvBool (f \<noteq> ''paused''))))\<rparr>"

definition sample_config :: PreflightConfig where
  "sample_config = \<lparr>pf_expectedChainId = 8453, pf_bridgeAddress = ''0x11'', pf_configuredUsdc = '''',
     pf_chainUsdc = ''0x22'', pf_vaultAddress = '''', pf_expectedOwner = ''0xaa''\<rparr>"

definition preflight_viem :: viem where
  "preflight_viem = \<lparr>keccak256 = (\<lambda>bs. ''0xa1''), stringToBytes = (\<lambda>s. []), isAddress = (\<lambda>a. take 2 a = ''0x''),
     getAddress = Inr, decodeBridge = (\<lambda>dt ts. None), decodeTransfer = (\<lambda>dt ts. None)\<rparr>"

theorem preflight_checks_everything_witness:
  "\<exists>code. hasCode code \<and> sameAddress ''0xAA'' (pf_expectedOwner sample_config)"
proof -
  obtain s' where "preflight preflight_viem sample_client sample_config \<lparr>world = (), trace = []\<rparr> =
      (Inr \<lparr>pr_paused = False, pr_owner = ''0xAA'', pr_chainId = 8453\<rparr>, s')"
    by (simp add: preflight_def checkChain_def checkBridge_def checkUsdc_def checkVault_def getCode_def readContract_def refuse_unless_def
        io_defs Let_def sample_client_def sample_config_def preflight_viem_def isEvmAddress_def hasCode_def sameAddress_def toLowerCase_def)
  from preflight_checks_everything [OF this] show ?thesis by auto
qed

end
