(* ===== verification/Relayer_Deps.thy ===== *)
theory Relayer_Deps
  imports Daemon_Api Preflight
begin

text \<open>
  What \<open>scripts/bridge-relayer.ts\<close> injects into the payout core: its configuration from the environment, the
  nonces it manages per signer, the paged log searches, receipts, timelock reads and the two dependency
  records, for the qETH/qUSDC payouts (\<open>evmDepsRaw\<close>) and for the XRGE payouts. The RPC clients are
  parameters: arbitrary effects on the outside world.
\<close>

section \<open>Configuration\<close>

definition BASE_CHAIN :: "env \<Rightarrow> string" where
  "BASE_CHAIN e = toLowerCase (env_or e ''BASE_CHAIN'' ''sepolia'')"

definition CONFIRMATIONS :: "env \<Rightarrow> jsnum" where
  "CONFIRMATIONS e = parseInt10 (env_or e ''CONFIRMATIONS'' ''2'')"

definition MAX_RETRIES :: "env \<Rightarrow> jsnum" where
  "MAX_RETRIES e = parseInt10 (env_or e ''MAX_RETRIES'' ''3'')"

definition XRGE_FULFILL_CONFIRMATIONS :: "env \<Rightarrow> jsnum" where
  "XRGE_FULFILL_CONFIRMATIONS e = xrgeFulfillConfirmations (CONFIRMATIONS e) e"

text \<open>\<^const>\<open>None\<close>: \<open>BigInt\<close> throws while the module loads.\<close>

definition XRGE_RELEASE_SCAN_BLOCKS :: "env \<Rightarrow> int option" where
  "XRGE_RELEASE_SCAN_BLOCKS e = BigInt_str (env_or e ''XRGE_RELEASE_SCAN_BLOCKS'' ''100000'')"

definition BRIDGE_LOG_SCAN_BLOCKS :: "env \<Rightarrow> int option" where
  "BRIDGE_LOG_SCAN_BLOCKS e = BigInt_str (env_or e ''BRIDGE_LOG_SCAN_BLOCKS'' ''60000'')"

definition LOG_SCAN_PACING :: ScanPacing where
  "LOG_SCAN_PACING = \<lparr>pauseMs = Some 200, retries = Some 5, backoffMs = Some 2000\<rparr>"

text \<open>The two chains are objects of \<open>viem/chains\<close>. A \<open>BASE_CHAIN\<close> that names a property every object inherits is left out.\<close>

datatype Chain = base | baseSepolia

record ChainCfg =
  cg_chain :: Chain
  cg_rpc :: string
  cg_usdc :: string

definition chainCfg :: "env \<Rightarrow> ChainCfg" where
  "chainCfg e = (if BASE_CHAIN e = ''mainnet''
     then \<lparr>cg_chain = base, cg_rpc = env_or e ''BASE_RPC_URL'' ''https://mainnet.base.org'', cg_usdc = ''0x833589fCD6eDb6E08f4c7C32D4f71b54bdA02913''\<rparr>
     else \<lparr>cg_chain = baseSepolia, cg_rpc = env_or e ''BASE_RPC_URL'' ''https://sepolia.base.org'', cg_usdc = ''0x036CbD53842c5426634e7929541eC2318f3dCF7e''\<rparr>)"

section \<open>Clients\<close>

text \<open>A log with the arguments the relayer reads; an absent text is empty.\<close>

record ChainLog =
  cl_transactionHash :: string
  cl_blockNumber :: int
  cl_recipient :: string
  cl_amount :: "int option"
  cl_l1TxId :: string
  cl_requestId :: "int option"
  cl_executeAfter :: int

datatype LogEvent = BRIDGE_RELEASE_ETH_EVENT | BRIDGE_RELEASE_ERC20_EVENT | TIMELOCK_QUEUED_EVENT
  | TIMELOCK_EXECUTED_EVENT | TIMELOCK_CANCELLED_EVENT | BRIDGE_RELEASE_EVENT

datatype LogArgs = AnyArgs | ByRecipient string | ByRequest int

record RawReceipt =
  rw_status :: string
  rw_blockNumber :: int
  rw_logs :: "RawLog list"

record 'o ChainClient =
  cc_getBlockNumber :: "('o, int) eff"
  cc_getTransactionCount :: "string \<Rightarrow> ('o, int) eff"
  cc_getBalance :: "string \<Rightarrow> ('o, int) eff"
  cc_getLogs :: "string \<Rightarrow> LogEvent \<Rightarrow> LogArgs \<Rightarrow> int \<times> int \<Rightarrow> ('o, ChainLog list) eff"
  cc_processedL1Txs :: "string \<Rightarrow> string \<Rightarrow> ('o, bool) eff"
  cc_timelockQueue :: "string \<Rightarrow> int \<Rightarrow> int option \<Rightarrow> ('o, abival list) eff"
  cc_waitForTransactionReceipt :: "hex \<Rightarrow> jsnum \<Rightarrow> ('o, RawReceipt) eff"
  cc_getTransactionReceipt :: "hex \<Rightarrow> ('o, RawReceipt) eff"
  cc_releaseETH :: "string \<Rightarrow> string \<Rightarrow> int \<Rightarrow> hex \<Rightarrow> int \<Rightarrow> ('o, hex) eff"
  cc_releaseERC20 :: "string \<Rightarrow> string \<Rightarrow> string \<Rightarrow> int \<Rightarrow> hex \<Rightarrow> int \<Rightarrow> ('o, hex) eff"
  cc_vaultRelease :: "string \<Rightarrow> string \<Rightarrow> int \<Rightarrow> string \<Rightarrow> int \<Rightarrow> ('o, string) eff"
  cc_sleep :: "int \<Rightarrow> ('o, unit) eff"
  cc_now :: "('o, string) eff"

text \<open>The constants of one run: environment, viem, the two signers, the addresses, the scan windows.\<close>

record ChainSetup =
  cs_env :: env
  cs_viem :: viem
  cs_account :: string
  cs_xrgeAccount :: string
  cs_bridge :: string
  cs_vault :: string
  cs_bridgeScan :: int
  cs_vaultScan :: int

section \<open>Nonces\<close>

definition getNextNonce :: "'o ChainClient \<Rightarrow> string \<Rightarrow> ('o proc, int) eff" where
  "getNextNonce cc address = (let key = toLowerCase address in
     bnd (gets (\<lambda>p. map_get (nonceState p) key)) (\<lambda>known.
     bnd (case known of Some n \<Rightarrow> ret n
          | None \<Rightarrow> bnd (outw (cc_getTransactionCount cc address)) (\<lambda>seeded.
              bnd (modify (\<lambda>p. p\<lparr>nonceState := map_set key seeded (nonceState p)\<rparr>)) (\<lambda>_. ret seeded))) (\<lambda>nonce.
     bnd (modify (\<lambda>p. p\<lparr>nonceState := map_set key (nonce + 1) (nonceState p)\<rparr>)) (\<lambda>_. ret nonce))))"

definition resetNonce :: "string \<Rightarrow> ('o proc, unit) eff" where
  "resetNonce address = modify (\<lambda>p. p\<lparr>nonceState := (if address \<noteq> '''' then map_delete (toLowerCase address) (nonceState p) else [])\<rparr>)"

section \<open>Log searches\<close>

definition window_start :: "int \<Rightarrow> int \<Rightarrow> int" where
  "window_start latest lookback = (if latest > lookback then latest - lookback else 0)"

definition scanBridgeLogs :: "'o ChainClient \<Rightarrow> ChainSetup \<Rightarrow> LogEvent \<Rightarrow> LogArgs \<Rightarrow> int option \<Rightarrow> ('o, ChainLog list) eff" where
  "scanBridgeLogs cc cs event args toBlockOverride =
     bnd (case toBlockOverride of Some b \<Rightarrow> ret b | None \<Rightarrow> cc_getBlockNumber cc) (\<lambda>latest.
     scanLogPagesDescending (cc_getLogs cc (cs_bridge cs) event args) (\<lambda>n. cc_sleep cc (int n))
       (window_start latest (cs_bridgeScan cs)) latest MAX_LOG_SCAN_SPAN LOG_SCAN_PACING)"

definition vault_log :: "ChainLog \<Rightarrow> VaultReleaseLog" where
  "vault_log lg = \<lparr>vr_txHash = cl_transactionHash lg, vr_blockNumber = cl_blockNumber lg, vr_recipient = cl_recipient lg,
     vr_amount = (case cl_amount lg of None \<Rightarrow> 0 | Some a \<Rightarrow> a), vr_l1TxId = cl_l1TxId lg\<rparr>"

definition findVaultReleasesForL1 :: "'o ChainClient \<Rightarrow> ChainSetup \<Rightarrow> string \<Rightarrow> ('o, VaultReleaseLog list) eff" where
  "findVaultReleasesForL1 cc cs l1TxId = bnd (cc_getBlockNumber cc) (\<lambda>head.
     findVaultReleases (\<lambda>r. bnd (cc_getLogs cc (cs_vault cs) BRIDGE_RELEASE_EVENT AnyArgs r) (\<lambda>logs. ret (map vault_log logs)))
       (\<lambda>n. cc_sleep cc (int n)) l1TxId head (cs_vaultScan cs) MAX_LOG_SCAN_SPAN LOG_SCAN_PACING)"

definition findReleaseTxForL1 :: "'o ChainClient \<Rightarrow> ChainSetup \<Rightarrow> string \<Rightarrow> ('o, string) eff" where
  "findReleaseTxForL1 cc cs l1TxId = try_catch
     (bnd (findVaultReleasesForL1 cc cs l1TxId) (\<lambda>hits. ret (case hits of [] \<Rightarrow> '''' | h # hs \<Rightarrow> vr_txHash h)))
     (\<lambda>e. ret '''')"

definition chainReleaseTxHashes :: "'o ChainClient \<Rightarrow> ChainSetup \<Rightarrow> ExpectedRelease \<Rightarrow> ('o, hex list) eff" where
  "chainReleaseTxHashes cc cs er =
     bnd (scanBridgeLogs cc cs (if asset er = Eth then BRIDGE_RELEASE_ETH_EVENT else BRIDGE_RELEASE_ERC20_EVENT) (ByRecipient (recipient er)) None) (\<lambda>logs.
     ret (foldl (\<lambda>hashes lg. if sameHex (cl_l1TxId lg) (canonicalId er) \<and> cl_transactionHash lg \<noteq> '''' \<and> cl_transactionHash lg \<notin> set hashes
        then hashes @ [cl_transactionHash lg] else hashes) [] logs))"

definition chainQueuedRequestIds :: "'o ChainClient \<Rightarrow> ChainSetup \<Rightarrow> ('o, int list) eff" where
  "chainQueuedRequestIds cc cs = bnd (scanBridgeLogs cc cs TIMELOCK_QUEUED_EVENT AnyArgs None) (\<lambda>logs.
     ret (js_set (concat (map (\<lambda>lg. case cl_requestId lg of None \<Rightarrow> [] | Some r \<Rightarrow> [r]) logs))))"

definition chainQueuedEvent :: "'o ChainClient \<Rightarrow> ChainSetup \<Rightarrow> int \<Rightarrow> ('o, (int \<times> string) option) eff" where
  "chainQueuedEvent cc cs requestId = bnd (scanBridgeLogs cc cs TIMELOCK_QUEUED_EVENT (ByRequest requestId) None) (\<lambda>logs.
     ret (case logs of [] \<Rightarrow> None | lg # ls \<Rightarrow> Some (cl_executeAfter lg, cl_transactionHash lg)))"

definition chainExecutedTxHashes :: "'o ChainClient \<Rightarrow> ChainSetup \<Rightarrow> int \<Rightarrow> ('o, hex list) eff" where
  "chainExecutedTxHashes cc cs requestId = bnd (scanBridgeLogs cc cs TIMELOCK_EXECUTED_EVENT (ByRequest requestId) None) (\<lambda>logs.
     ret (js_set (filter (\<lambda>h. h \<noteq> '''') (map cl_transactionHash logs))))"

text \<open>\<open>head > BigInt(CONFIRMATIONS) ? head - BigInt(CONFIRMATIONS) : 0n\<close>; \<open>BigInt(NaN)\<close> throws.\<close>

definition confirmedHead :: "ChainSetup \<Rightarrow> int \<Rightarrow> ('o, int) eff" where
  "confirmedHead cs head = bnd (lift_sum (BigInt_num (CONFIRMATIONS (cs_env cs)))) (\<lambda>c. ret (if head > c then head - c else 0))"

definition chainCancelled :: "'o ChainClient \<Rightarrow> ChainSetup \<Rightarrow> int \<Rightarrow> ('o, bool) eff" where
  "chainCancelled cc cs requestId = bnd (cc_getBlockNumber cc) (\<lambda>head. bnd (confirmedHead cs head) (\<lambda>safeHead.
     bnd (scanBridgeLogs cc cs TIMELOCK_CANCELLED_EVENT (ByRequest requestId) (Some safeHead)) (\<lambda>logs. ret (logs \<noteq> []))))"

definition readTimelockQueue :: "'o ChainClient \<Rightarrow> ChainSetup \<Rightarrow> int \<Rightarrow> bool \<Rightarrow> ('o, TimelockRecord) eff" where
  "readTimelockQueue cc cs requestId confirmed =
     (if cs_bridge cs = '''' then throw ''RougeBridge not configured'' else
      bnd (if confirmed then bnd (cc_getBlockNumber cc) (\<lambda>head. bnd (confirmedHead cs head) (\<lambda>b. ret (Some b))) else ret None) (\<lambda>blockNumber.
      bnd (cc_timelockQueue cc (cs_bridge cs) requestId blockNumber) (\<lambda>tuple. lift_sum (parseTimelockQueueTuple tuple))))"

definition toReceiptLike :: "RawReceipt \<Rightarrow> ReceiptLike" where
  "toReceiptLike r = \<lparr>rc_status = (if rw_status r = ''success'' then Success else Reverted), rc_logs = rw_logs r, rc_blockNumber = Some (rw_blockNumber r)\<rparr>"

section \<open>The dependencies of the qETH/qUSDC payouts\<close>

definition retries_of :: "jsnum \<Rightarrow> int option" where
  "retries_of n = (case n of JInt i \<Rightarrow> Some i | _ \<Rightarrow> None)"

definition evmChain :: "'x Relayer \<Rightarrow> ChainSetup \<Rightarrow> 'x outer ChainClient \<Rightarrow> 'x outer proc EvmChainDeps" where
  "evmChain rl cs cc = (let obs = OBSERVE_ONLY (rl_config rl) in \<lparr>
     d_releaseETH = (\<lambda>to wei i nonce. guardWrite obs WOULD_RELEASE (''releaseETH '' @ dec_int wei @ '' wei -> '' @ to @ '' l1TxId='' @ i)
        (outw (cc_releaseETH cc (cs_bridge cs) to wei i nonce))),
     d_releaseERC20 = (\<lambda>tok to amt i nonce. guardWrite obs WOULD_RELEASE (''releaseERC20 '' @ dec_int amt @ '' of '' @ tok @ '' -> '' @ to @ '' l1TxId='' @ i)
        (outw (cc_releaseERC20 cc (cs_bridge cs) tok to amt i nonce))),
     d_waitForReceipt = (\<lambda>h. bnd (outw (cc_waitForTransactionReceipt cc h (Math_max (JInt 1) (CONFIRMATIONS (cs_env cs))))) (\<lambda>r. ret (toReceiptLike r))),
     d_getReceipt = (\<lambda>h. try_catch (bnd (outw (cc_getTransactionReceipt cc h)) (\<lambda>r. ret (Some (toReceiptLike r)))) (\<lambda>e. ret None)),
     d_processedL1Txs = (\<lambda>i. outw (cc_processedL1Txs cc (cs_bridge cs) i)),
     d_headBlock = outw (cc_getBlockNumber cc),
     d_timelockQueue = (\<lambda>r c. outw (readTimelockQueue cc cs r c)),
     d_findReleaseTxHashes = (\<lambda>er. outw (chainReleaseTxHashes cc cs er)),
     d_findQueuedRequestIds = outw (chainQueuedRequestIds cc cs),
     d_findTimelockQueuedEvent = (\<lambda>r. outw (chainQueuedEvent cc cs r)),
     d_findTimelockExecutedTxHashes = (\<lambda>r. outw (chainExecutedTxHashes cc cs r)),
     d_findTimelockCancelled = (\<lambda>r. outw (chainCancelled cc cs r)),
     d_getNonce = getNextNonce cc (cs_account cs),
     d_resetNonce = resetNonce (cs_account cs)\<rparr>)"

definition evmDepsRaw :: "'x Relayer \<Rightarrow> ChainSetup \<Rightarrow> 'x outer ChainClient \<Rightarrow> 'x outer proc EvmPayoutDeps" where
  "evmDepsRaw rl cs cc = (let cfg = rl_config rl; fetch = rl_fetch rl in \<lparr>
     dp_viem = cs_viem cs, dp_bridgeAddress = cs_bridge cs, dp_usdcAddress = cg_usdc (chainCfg (cs_env cs)),
     dp_autoRefund = AUTO_REFUND cfg, dp_maxRetries = retries_of (MAX_RETRIES (cs_env cs)),
     d_markProcessed = addProcessed rl,
     d_saveQueued = (\<lambda>q. bnd (refuse_in_observation cfg WOULD_PERSIST ''queued-state file'') (\<lambda>_. outw (saveQueuedState (rl_fs rl) (QUEUED_FILE rl) q))),
     dp_chain = evmChain rl cs cc,
     dp_daemon = \<lparr>d_fulfill = fulfillEthWithdrawal cfg fetch, d_reportFailure = reportWithdrawalFailure cfg fetch, d_refund = refundWithdrawal cfg fetch\<rparr>,
     d_alert = sendAlert cfg fetch, d_sleep = (\<lambda>n. outw (cc_sleep cc n)), d_now = outw (cc_now cc),
     dp_fulfillConfirmations = Some (CONFIRMATIONS (cs_env cs)), dp_observeOnly = False, dp_env = cs_env cs\<rparr>)"

definition evmDeps :: "'x Relayer \<Rightarrow> ChainSetup \<Rightarrow> 'x outer ChainClient \<Rightarrow> 'x outer proc EvmPayoutDeps" where
  "evmDeps rl cs cc = (if OBSERVE_ONLY (rl_config rl) then observeGuardedDeps (evmDepsRaw rl cs cc) else evmDepsRaw rl cs cc)"

section \<open>The dependencies of the XRGE payouts\<close>

definition vaultRelease :: "'x Relayer \<Rightarrow> ChainSetup \<Rightarrow> 'x outer ChainClient \<Rightarrow> string \<Rightarrow> int \<Rightarrow> string \<Rightarrow> ('x outer proc, string) eff" where
  "vaultRelease rl cs cc to wei i =
     bnd (refuse_in_observation (rl_config rl) WOULD_RELEASE (''XRGE vault.release '' @ dec_int wei @ '' -> '' @ to @ '' l1TxId='' @ i)) (\<lambda>_.
     bnd (getNextNonce cc (cs_xrgeAccount cs)) (\<lambda>nonce.
     try_catch (outw (cc_vaultRelease cc (cs_vault cs) to wei i nonce)) (\<lambda>e. bnd (resetNonce (cs_xrgeAccount cs)) (\<lambda>_. throw e))))"

definition vaultReceipt :: "ChainSetup \<Rightarrow> 'o ChainClient \<Rightarrow> string \<Rightarrow> ('o proc, receipt_status \<times> int) eff" where
  "vaultReceipt cs cc h = bnd (outw (cc_waitForTransactionReceipt cc h (JInt 1))) (\<lambda>r.
     bnd (if rw_status r \<noteq> ''success'' then resetNonce (cs_xrgeAccount cs) else ret ()) (\<lambda>_.
     ret (if rw_status r = ''success'' then Success else Reverted, rw_blockNumber r)))"

definition xrgeDeps :: "'x Relayer \<Rightarrow> ChainSetup \<Rightarrow> 'x outer ChainClient \<Rightarrow> 'x outer proc XrgePayoutDeps" where
  "xrgeDeps rl cs cc = (let cfg = rl_config rl; fetch = rl_fetch rl in \<lparr>
     x_requiredConfirmations = XRGE_FULFILL_CONFIRMATIONS (cs_env cs),
     x_processedOnVault = (\<lambda>i. outw (cc_processedL1Txs cc (cs_vault cs) i)),
     x_release = vaultRelease rl cs cc,
     x_waitForReceipt = vaultReceipt cs cc,
     x_headBlock = outw (cc_getBlockNumber cc),
     x_findReleases = (\<lambda>i. outw (findVaultReleasesForL1 cc cs i)),
     x_fulfill = fulfillXrgeWithdrawal cfg fetch,
     x_handleFailure = handleWithdrawalFailure rl,
     x_markProcessed = addProcessed rl,
     x_alert = sendAlert cfg fetch\<rparr>)"

section \<open>Nonces are handed out in order\<close>

lemma getNextNonce_known:
  "map_get (nonceState p) (toLowerCase a) = Some n \<Longrightarrow>
   getNextNonce cc a p = (Inr n, p\<lparr>nonceState := map_set (toLowerCase a) (n + 1) (nonceState p)\<rparr>)"
  by (simp add: getNextNonce_def Let_def io_defs)

lemma getNextNonce_seeds:
  assumes "map_get (nonceState p) (toLowerCase a) = None" "cc_getTransactionCount cc a (outside p) = (Inr n, w)"
  shows "\<exists>p'. getNextNonce cc a p = (Inr n, p') \<and> map_get (nonceState p') (toLowerCase a) = Some (n + 1) \<and>
    (\<forall>k. k \<noteq> toLowerCase a \<longrightarrow> map_get (nonceState p') k = map_get (nonceState p) k)"
  using assms by (simp add: getNextNonce_def Let_def io_defs outw_def map_get_set)

text \<open>A sequence of nonces for one signer, with no reset in between.\<close>

fun take_nonces :: "'o ChainClient \<Rightarrow> string \<Rightarrow> nat \<Rightarrow> ('o proc, int list) eff" where
  "take_nonces cc a 0 = ret []"
| "take_nonces cc a (Suc k) = bnd (getNextNonce cc a) (\<lambda>n. bnd (take_nonces cc a k) (\<lambda>ns. ret (n # ns)))"

lemma take_nonces_known:
  "map_get (nonceState p) (toLowerCase a) = Some n \<Longrightarrow> fst (take_nonces cc a k p) = Inr [n..n + int k - 1]"
proof (induction k arbitrary: p n)
  case (Suc k)
  let ?p = "p\<lparr>nonceState := map_set (toLowerCase a) (n + 1) (nonceState p)\<rparr>"
  have "map_get (nonceState ?p) (toLowerCase a) = Some (n + 1)" by (simp add: map_get_set)
  from Suc.IH [OF this] have "fst (take_nonces cc a k ?p) = Inr [n + 1..n + 1 + int k - 1]" .
  moreover have "[n..n + int (Suc k) - 1] = n # [n + 1..n + 1 + int k - 1]"
    by (subst upto_rec1) (simp_all add: algebra_simps)
  ultimately show ?case
    by (simp add: bnd_def [of "getNextNonce cc a"] getNextNonce_known [OF Suc.prems])
      (auto simp: bnd_def ret_def split: prod.splits sum.splits)
qed (simp add: ret_def)

section \<open>Searches find everything\<close>

lemma yields_attempt: "(\<And>r. yields (k r) Q) \<Longrightarrow> yields (attempt m k) Q"
  by (auto simp: yields_def attempt_def split: prod.splits)

lemma yields_attempt_Inr:
  assumes "yields m R" "\<And>a. R a \<Longrightarrow> yields (k (Inr a)) Q" "\<And>e. yields (k (Inl e)) Q"
  shows "yields (attempt m k) Q"
  unfolding yields_def
proof (intro allI impI)
  fix s a s'
  assume run: "attempt m k s = (Inr a, s')"
  obtain r s1 where m: "m s = (r, s1)" by fastforce
  then have k: "k r s1 = (Inr a, s')" using run by (simp add: attempt_def)
  show "Q a"
  proof (cases r)
    case (Inr b)
    then have "R b" using assms(1) m unfolding yields_def by blast
    then show ?thesis using assms(2) k Inr unfolding yields_def by blast
  qed (use assms(3) k in \<open>auto simp: yields_def\<close>)
qed

lemma yields_fetchWithRetry: "yields (fp r) Q \<Longrightarrow> yields (fetchWithRetry fp sl b n k r) Q"
  by (induction n arbitrary: k) (auto intro!: yields_attempt_Inr [where R = Q] yields_ret yields_bnd_any)

lemma yields_scanPages:
  assumes "\<And>r. yields (fp r) (\<lambda>page. mset page = mset (filter (P r) logs))"
  shows "yields (scanPages fp sl p rs) (\<lambda>xs. mset xs = mset (concat (map (\<lambda>r. filter (P r) logs) rs)))"
proof (induction rs)
  case Nil
  then show ?case by (auto intro: yields_ret)
next
  case (Cons r rs)
  show ?case unfolding scanPages.simps
    by (rule yields_bnd [OF yields_fetchWithRetry [OF assms]], rule yields_bnd_any, rule yields_bnd [OF Cons.IH], rule yields_ret) simp
qed

text \<open>The RPC node answers a log query with an error or with exactly the chain's logs of the range: \<open>logs a ev args\<close>
  are all logs of an event that match the filter.\<close>

definition honest_rpc :: "(string \<Rightarrow> LogEvent \<Rightarrow> LogArgs \<Rightarrow> ChainLog list) \<Rightarrow> 'o ChainClient \<Rightarrow> bool" where
  "honest_rpc logs cc = (\<forall>a evt args r. yields (cc_getLogs cc a evt args r) (\<lambda>page. mset page = mset (filter (in_blocks cl_blockNumber r) (logs a evt args))))"

lemma scanBridgeLogs_complete:
  assumes "honest_rpc logs cc" "0 \<le> cs_bridgeScan cs"
  shows "yields (scanBridgeLogs cc cs evt args None) (\<lambda>xs. \<exists>head. mset xs =
    mset (filter (in_blocks cl_blockNumber (window_start head (cs_bridgeScan cs), head)) (logs (cs_bridge cs) evt args)))"
proof -
  have scan: "yields (scanPages (cc_getLogs cc (cs_bridge cs) evt args) (\<lambda>n. cc_sleep cc (int n)) LOG_SCAN_PACING rs)
      (\<lambda>xs. \<exists>head. mset xs = mset (filter (in_blocks cl_blockNumber (window_start head (cs_bridgeScan cs), head)) (logs (cs_bridge cs) evt args)))"
    if rs: "blockRangesDescending (window_start head (cs_bridgeScan cs)) head MAX_LOG_SCAN_SPAN = Inr rs" for head rs
  proof (rule yields_mono [OF yields_scanPages])
    show "yields (cc_getLogs cc (cs_bridge cs) evt args r) (\<lambda>page. mset page = mset (filter (in_blocks cl_blockNumber r) (logs (cs_bridge cs) evt args)))" for r
      using assms(1) unfolding honest_rpc_def by blast
    fix xs
    assume xs: "mset xs = mset (concat (map (\<lambda>r. filter (in_blocks cl_blockNumber r) (logs (cs_bridge cs) evt args)) rs))"
    have lb: "0 \<le> window_start head (cs_bridgeScan cs)" using assms(2) by (simp add: window_start_def)
    have "mset xs = mset (filter (in_blocks cl_blockNumber (window_start head (cs_bridgeScan cs), head)) (logs (cs_bridge cs) evt args))"
    proof (cases "head < window_start head (cs_bridgeScan cs)")
      case True
      then show ?thesis using rs xs by (auto simp: blockRangesDescending_def in_blocks_def filter_empty_conv split: if_splits)
    next
      case False
      then show ?thesis using rs xs ranges_from_blocks [OF lb] by (auto simp: blockRangesDescending_def split: if_splits)
    qed
    then show "\<exists>head. mset xs = mset (filter (in_blocks cl_blockNumber (window_start head (cs_bridgeScan cs), head)) (logs (cs_bridge cs) evt args))" ..
  qed
  show ?thesis unfolding scanBridgeLogs_def scanLogPagesDescending_def lift_sum_def
    by (rule yields_bnd_any) (auto intro!: yields_throw scan simp del: mset_filter split: sum.split)
qed

definition release_log :: "ExpectedRelease \<Rightarrow> ChainLog \<Rightarrow> bool" where
  "release_log er lg = (sameHex (cl_l1TxId lg) (canonicalId er) \<and> cl_transactionHash lg \<noteq> '''')"

lemma collect_hashes:
  "set (foldl (\<lambda>hashes lg. if sameHex (cl_l1TxId lg) (canonicalId er) \<and> cl_transactionHash lg \<noteq> '''' \<and> cl_transactionHash lg \<notin> set hashes
     then hashes @ [cl_transactionHash lg] else hashes) hs logs) = set hs \<union> cl_transactionHash ` {lg \<in> set logs. release_log er lg}"
  "distinct hs \<Longrightarrow> distinct (foldl (\<lambda>hashes lg. if sameHex (cl_l1TxId lg) (canonicalId er) \<and> cl_transactionHash lg \<noteq> '''' \<and> cl_transactionHash lg \<notin> set hashes
     then hashes @ [cl_transactionHash lg] else hashes) hs logs)"
  by (induction logs arbitrary: hs) (auto simp: release_log_def)


definition sample_log :: ChainLog where
  "sample_log = \<lparr>cl_transactionHash = ''0x77'', cl_blockNumber = 95, cl_recipient = ''0xcc'', cl_amount = Some 5, cl_l1TxId = ''0xa1'',
     cl_requestId = None, cl_executeAfter = 0\<rparr>"

definition sample_chain :: "unit ChainClient" where
  "sample_chain = \<lparr>cc_getBlockNumber = Pair (Inr 100), cc_getTransactionCount = (\<lambda>_. Pair (Inr 7)), cc_getBalance = (\<lambda>_. Pair (Inr 0)),
     cc_getLogs = (\<lambda>_ _ _ r. Pair (Inr (filter (in_blocks cl_blockNumber r) [sample_log]))), cc_processedL1Txs = (\<lambda>_ _. Pair (Inr False)),
     cc_timelockQueue = (\<lambda>_ _ _. Pair (Inr [])), cc_waitForTransactionReceipt = (\<lambda>_ _. Pair (Inl ''timeout'')),
     cc_getTransactionReceipt = (\<lambda>_. Pair (Inl ''timeout'')), cc_releaseETH = (\<lambda>_ _ _ _ _. Pair (Inl ''refused'')),
     cc_releaseERC20 = (\<lambda>_ _ _ _ _ _. Pair (Inl ''refused'')), cc_vaultRelease = (\<lambda>_ _ _ _ _. Pair (Inl ''refused'')),
     cc_sleep = (\<lambda>_. Pair (Inr ())), cc_now = Pair (Inr ''now'')\<rparr>"

definition sample_setup :: ChainSetup where
  "sample_setup = \<lparr>cs_env = Map.empty, cs_viem = preflight_viem, cs_account = ''0xAA'', cs_xrgeAccount = ''0xBB'', cs_bridge = ''0x11'',
     cs_vault = '''', cs_bridgeScan = 50, cs_vaultScan = 50\<rparr>"

definition sample_owed :: ExpectedRelease where
  "sample_owed = \<lparr>asset = Eth, recipient = ''0xcc'', amount = 5, canonicalId = ''0xA1'', bridgeAddress = ''0x11'', usdcAddress = ''0xdd''\<rparr>"


text \<open>Nonces are handed out in order, without gaps and without touching the chain again: once a signer's nonce is
  known to be \<open>n\<close>, the next \<open>k\<close> transactions of that signer get \<open>n\<close>, \<open>n + 1\<close>, ..., \<open>n + k - 1\<close>, in whatever case
  its address is written.\<close>

theorem nonces_are_consecutive:
  assumes "map_get (nonceState p) (toLowerCase a) = Some n" "toLowerCase b = toLowerCase a"
  shows "fst (take_nonces cc b k p) = Inr [n..n + int k - 1]"
  using take_nonces_known [of p b n cc k] assms by simp

theorem nonces_are_consecutive_witness:
  "fst (take_nonces sample_chain ''0xaA'' 3 (sample_proc\<lparr>nonceState := [(''0xaa'', 7)]\<rparr>)) = Inr [7..9]"
  using nonces_are_consecutive [of "sample_proc\<lparr>nonceState := [(''0xaa'', 7)]\<rparr>" "''0xAA''" 7 "''0xaA''" sample_chain 3]
  by (simp add: map_get_def toLowerCase_def)

end
