(* ===== verification/Deposit_Watcher.thy ===== *)
theory Deposit_Watcher
  imports Relayer_Deps
begin

text \<open>
  The deposit watcher of \<open>scripts/bridge-relayer.ts\<close>: its state file (\<open>loadDepositState\<close>, \<open>saveDepositState\<close>), the
  claim of one deposit (\<open>claimOne\<close>) and one poll (\<open>processDeposits\<close>), which retries the pending claims, scans the
  newly confirmed blocks and moves its cursor. The RPC node and the daemon are effects on the world and their
  calls are recorded. The shutdown flag is read from the world, so it can turn on at any call.
\<close>

section \<open>State\<close>

datatype DepositToken = DETH | DXRGE | DUSDC

fun token_text :: "DepositToken \<Rightarrow> string" where
  "token_text DETH = ''ETH''"
| "token_text DXRGE = ''XRGE''"
| "token_text DUSDC = ''USDC''"

record DepositRecord =
  dr_key :: string
  dr_txHash :: string
  dr_pubkey :: string
  dr_token :: DepositToken

record DepositWatcher =
  dw_lastBlock :: "int option"
  dw_claimed :: "string list"
  dw_pending :: "(string, DepositRecord) jsmap"

definition empty_watcher :: DepositWatcher where
  "empty_watcher = \<lparr>dw_lastBlock = None, dw_claimed = [], dw_pending = []\<rparr>"

section \<open>The state file\<close>

definition deposit_json :: "DepositRecord \<Rightarrow> jsnum JsonV" where
  "deposit_json r = VObj [(''key'', VStr (dr_key r)), (''txHash'', VStr (dr_txHash r)), (''pubkey'', VStr (dr_pubkey r)), (''token'', VStr (token_text (dr_token r)))]"

definition watcher_json :: "DepositWatcher \<Rightarrow> jsnum JsonV" where
  "watcher_json w = VObj [(''lastBlock'', case dw_lastBlock w of None \<Rightarrow> VNull | Some b \<Rightarrow> VStr (dec_int b)),
     (''claimed'', VArr (map VStr (dw_claimed w))), (''pending'', VArr (map deposit_json (map_values (dw_pending w))))]"

definition saveDepositState :: "('w, json_file) FsEnv \<Rightarrow> bool \<Rightarrow> string \<Rightarrow> DepositWatcher \<Rightarrow> (('w, json_file) fs_state, unit) io" where
  "saveDepositState d observeOnly f w = (if observeOnly then ret ()
     else try_catch (writeFileSync d f (Some (watcher_json w))) (\<lambda>e. ret ()))"

text \<open>Reading the file back, at the declared types: \<^const>\<open>None\<close> stands for a file that is JSON of another shape.\<close>

definition deposit_of :: "jsnum JsonV \<Rightarrow> DepositRecord option" where
  "deposit_of v = (case (str_val (prop_of v ''key''), str_val (prop_of v ''txHash''), str_val (prop_of v ''pubkey''),
       map_of [(''ETH'', DETH), (''XRGE'', DXRGE), (''USDC'', DUSDC)] (str_field v ''token'')) of
      (Some k, Some h, Some p, Some t) \<Rightarrow> Some \<lparr>dr_key = k, dr_txHash = h, dr_pubkey = p, dr_token = t\<rparr>
    | _ \<Rightarrow> None)"

fun all_deposits :: "jsnum JsonV list \<Rightarrow> DepositRecord list option" where
  "all_deposits [] = Some []"
| "all_deposits (v # vs) = (case (deposit_of v, all_deposits vs) of (Some r, Some rs) \<Rightarrow> Some (r # rs) | _ \<Rightarrow> None)"

text \<open>\<open>data.lastBlock ? BigInt(data.lastBlock) : null\<close>.\<close>

fun cursor_of :: "jsnum JsonV option \<Rightarrow> (exn + int option) option" where
  "cursor_of None = Some (Inr None)"
| "cursor_of (Some VNull) = Some (Inr None)"
| "cursor_of (Some (VStr s)) = Some (if s = '''' then Inr None else case BigInt_str s of None \<Rightarrow> Inl ''SyntaxError'' | Some b \<Rightarrow> Inr (Some b))"
| "cursor_of (Some v) = None"

text \<open>\<open>data.k || []\<close>.\<close>

fun items_or_empty :: "jsnum JsonV option \<Rightarrow> jsnum JsonV list option" where
  "items_or_empty None = Some []"
| "items_or_empty (Some VNull) = Some []"
| "items_or_empty (Some (VArr xs)) = Some xs"
| "items_or_empty (Some v) = None"

definition watcher_of :: "jsnum JsonV \<Rightarrow> (exn + DepositWatcher) option" where
  "watcher_of data = (if data = VNull then Some (Inl ''TypeError'') else
     case (cursor_of (prop_of data ''lastBlock''), Option.bind (items_or_empty (prop_of data ''claimed'')) all_strings,
           Option.bind (items_or_empty (prop_of data ''pending'')) all_deposits) of
       (Some (Inl e), _, _) \<Rightarrow> Some (Inl e)
     | (Some (Inr b), Some cs, Some ps) \<Rightarrow> Some (Inr \<lparr>dw_lastBlock = b, dw_claimed = js_set cs,
          dw_pending = foldl (\<lambda>m r. map_set (dr_key r) r m) [] ps\<rparr>)
     | _ \<Rightarrow> None)"

definition loadDepositState :: "('w, json_file) FsEnv \<Rightarrow> string \<Rightarrow> (('w, json_file) fs_state, DepositWatcher option) io" where
  "loadDepositState d f = try_catch
     (bnd (existsSync f) (\<lambda>x. if \<not> x then ret (Some empty_watcher) else
        bnd (readFileSync d f) (\<lambda>c. bnd (lift_opt ''SyntaxError'' c) (\<lambda>data. case watcher_of data of
            None \<Rightarrow> ret None
          | Some r \<Rightarrow> bnd (lift_sum r) (\<lambda>w. ret (Some w))))))
     (\<lambda>e. ret (Some empty_watcher))"

section \<open>Chain access and configuration\<close>

datatype DepositEvent = BRIDGE_DEPOSIT_ETH_EVENT | BRIDGE_DEPOSIT_ERC20_EVENT | VAULT_DEPOSIT_EVENT

record DepositLog =
  dl_transactionHash :: string
  dl_blockNumber :: int
  dl_token :: string
  dl_rougechainPubkey :: string

record DepositSetup =
  DEPOSIT_WATCHER :: bool
  DEPOSIT_WATCH_FROM_BLOCK :: "int option"
  DEPOSIT_MAX_BLOCK_SPAN :: int
  DEPOSIT_STATE_FILE :: string

text \<open>The settings, read from the environment when the module is loaded; a number \<open>BigInt\<close> cannot read ends the process.\<close>

definition depositSetup :: "env \<Rightarrow> string \<Rightarrow> DepositSetup option" where
  "depositSetup e f = (case (if env_or_empty e ''DEPOSIT_WATCH_FROM_BLOCK'' = '''' then Some None
        else map_option Some (BigInt_str (env_or_empty e ''DEPOSIT_WATCH_FROM_BLOCK'')), BigInt_str (env_or e ''DEPOSIT_MAX_BLOCK_SPAN'' ''2000'')) of
      (Some start, Some width) \<Rightarrow> Some \<lparr>DEPOSIT_WATCHER = toLowerCase (env_or e ''DEPOSIT_WATCHER'' ''true'') \<noteq> ''false'',
         DEPOSIT_WATCH_FROM_BLOCK = start, DEPOSIT_MAX_BLOCK_SPAN = width, DEPOSIT_STATE_FILE = f\<rparr>
    | _ \<Rightarrow> None)"

datatype dep_event =
    DpHead "exn + int"
  | DpLogs DepositEvent "int \<times> int" "exn + DepositLog list"
  | DpClaim DepositRecord "exn + bool \<times> string"
  | DpAlert string "exn + unit"
  | DpSave DepositWatcher "exn + unit"

record 'x dep_state = "('x outer proc, dep_event) io_state" +
  watcher :: DepositWatcher

text \<open>All a poll is given.\<close>

record 'x DepositDeps =
  dd_relayer :: "'x Relayer"
  dd_setup :: ChainSetup
  dd_config :: DepositSetup
  dd_getBlockNumber :: "('x outer, int) eff"
  dd_getLogs :: "DepositEvent \<Rightarrow> int \<times> int \<Rightarrow> ('x outer, DepositLog list) eff"

section \<open>One deposit\<close>

definition update_watcher :: "(DepositWatcher \<Rightarrow> DepositWatcher) \<Rightarrow> ('x dep_state, unit) io" where
  "update_watcher f = modify (\<lambda>s. s\<lparr>watcher := f (watcher s)\<rparr>)"

definition already_claimed :: "string \<Rightarrow> bool" where
  "already_claimed err = (err \<noteq> '''' \<and> contains_text ''already claimed'' (toLowerCase err))"

definition claimOne :: "'x DepositDeps \<Rightarrow> DepositRecord \<Rightarrow> ('x dep_state, unit) io" where
  "claimOne dd r = (let rl = dd_relayer dd; cfg = rl_config rl in
     if OBSERVE_ONLY cfg then update_watcher (\<lambda>w. w\<lparr>dw_claimed := js_add (dr_key r) (dw_claimed w)\<rparr>)
     else bnd (call (DpClaim r) (autoClaimDeposit cfg (rl_fetch rl) (dr_txHash r) (dr_pubkey r) (token_text (dr_token r)))) (\<lambda>(ok, err).
       if ok \<or> already_claimed err
       then update_watcher (\<lambda>w. w\<lparr>dw_claimed := js_add (dr_key r) (dw_claimed w), dw_pending := map_delete (dr_key r) (dw_pending w)\<rparr>)
       else bnd (update_watcher (\<lambda>w. w\<lparr>dw_pending := map_set (dr_key r) r (dw_pending w)\<rparr>)) (\<lambda>_.
         call (DpAlert (''deposit:'' @ dr_key r)) (sendAlert cfg (rl_fetch rl) (''deposit:'' @ dr_key r)))))"

text \<open>\<open>for (const x of xs) { if (isShuttingDown) break; ... }\<close>.\<close>

fun until_shutdown :: "'x DepositDeps \<Rightarrow> ('a \<Rightarrow> ('x dep_state, unit) io) \<Rightarrow> 'a list \<Rightarrow> ('x dep_state, unit) io" where
  "until_shutdown dd f [] = ret ()"
| "until_shutdown dd f (x # xs) = bnd (gets (\<lambda>s. isShuttingDown (dd_relayer dd) (outside (world s)))) (\<lambda>stop.
     if stop then ret () else bnd (f x) (\<lambda>_. until_shutdown dd f xs))"

section \<open>One poll\<close>

definition pushLog :: "DepositToken \<Rightarrow> DepositLog \<Rightarrow> DepositRecord list" where
  "pushLog token lg = (let txHash = toLowerCase (dl_transactionHash lg); pubkey = dl_rougechainPubkey lg in
     if txHash = '''' \<or> pubkey = '''' then []
     else [\<lparr>dr_key = token_text token @ '':'' @ txHash, dr_txHash = txHash, dr_pubkey = pubkey, dr_token = token\<rparr>])"

definition pushLogs :: "ChainSetup \<Rightarrow> DepositEvent \<Rightarrow> DepositLog list \<Rightarrow> DepositRecord list" where
  "pushLogs cs event logs = (case event of
      BRIDGE_DEPOSIT_ETH_EVENT \<Rightarrow> concat (map (pushLog DETH) logs)
    | BRIDGE_DEPOSIT_ERC20_EVENT \<Rightarrow> concat (map (pushLog DUSDC) (filter (\<lambda>lg. toLowerCase (dl_token lg) = toLowerCase (cg_usdc (chainCfg (cs_env cs)))) logs))
    | VAULT_DEPOSIT_EVENT \<Rightarrow> concat (map (pushLog DXRGE) logs))"

definition watched_events :: "ChainSetup \<Rightarrow> DepositEvent list" where
  "watched_events cs = (if cs_bridge cs \<noteq> '''' then [BRIDGE_DEPOSIT_ETH_EVENT, BRIDGE_DEPOSIT_ERC20_EVENT] else []) @
     (if cs_vault cs \<noteq> '''' then [VAULT_DEPOSIT_EVENT] else [])"

text \<open>The queries, one after the other, each adding what it found.\<close>

fun findDeposits :: "'x DepositDeps \<Rightarrow> int \<times> int \<Rightarrow> DepositEvent list \<Rightarrow> ('x dep_state, DepositRecord list) io" where
  "findDeposits dd r [] = ret []"
| "findDeposits dd r (event # es) = bnd (call (DpLogs event r) (outw (dd_getLogs dd event r))) (\<lambda>logs.
     bnd (findDeposits dd r es) (\<lambda>found. ret (pushLogs (dd_setup dd) event logs @ found)))"

datatype scan_plan = Anchor | NothingNew | Scan int int

definition planScan :: "DepositSetup \<Rightarrow> int option \<Rightarrow> int \<Rightarrow> scan_plan" where
  "planScan cf cursor safeHead =
     (case (case cursor of Some b \<Rightarrow> Some (b + 1) | None \<Rightarrow> DEPOSIT_WATCH_FROM_BLOCK cf) of
        None \<Rightarrow> Anchor
      | Some fromBlock \<Rightarrow> if fromBlock > safeHead then NothingNew
          else Scan fromBlock (if safeHead - fromBlock + 1 > DEPOSIT_MAX_BLOCK_SPAN cf then fromBlock + DEPOSIT_MAX_BLOCK_SPAN cf - 1 else safeHead))"

definition saveCursor :: "'x DepositDeps \<Rightarrow> int \<Rightarrow> ('x dep_state, unit) io" where
  "saveCursor dd b = bnd (update_watcher (\<lambda>w. w\<lparr>dw_lastBlock := Some b\<rparr>)) (\<lambda>_. bnd (gets watcher) (\<lambda>w.
     call (DpSave w) (outw (saveDepositState (rl_fs (dd_relayer dd)) (OBSERVE_ONLY (rl_config (dd_relayer dd))) (DEPOSIT_STATE_FILE (dd_config dd)) w))))"

definition claimNew :: "'x DepositDeps \<Rightarrow> DepositRecord \<Rightarrow> ('x dep_state, unit) io" where
  "claimNew dd r = bnd (gets (\<lambda>s. dr_key r \<in> set (dw_claimed (watcher s)) \<or> map_has (dw_pending (watcher s)) (dr_key r))) (\<lambda>known.
     if known then ret () else claimOne dd r)"

definition scanDeposits :: "'x DepositDeps \<Rightarrow> ('x dep_state, unit) io" where
  "scanDeposits dd = (let env = cs_env (dd_setup dd) in
     bnd (call DpHead (outw (dd_getBlockNumber dd))) (\<lambda>head.
     bnd (lift_sum (depositWatcherSafeHead head (CONFIRMATIONS env) env)) (\<lambda>safe. case safe of
         None \<Rightarrow> ret ()
       | Some safeHead \<Rightarrow> bnd (gets (\<lambda>s. dw_lastBlock (watcher s))) (\<lambda>cursor. case planScan (dd_config dd) cursor safeHead of
             Anchor \<Rightarrow> saveCursor dd safeHead
           | NothingNew \<Rightarrow> ret ()
           | Scan fromBlock toBlock \<Rightarrow> bnd (findDeposits dd (fromBlock, toBlock) (watched_events (dd_setup dd))) (\<lambda>found.
               bnd (until_shutdown dd (claimNew dd) found) (\<lambda>_. saveCursor dd toBlock))))))"

definition processDeposits :: "'x DepositDeps \<Rightarrow> ('x dep_state, unit) io" where
  "processDeposits dd = (if \<not> DEPOSIT_WATCHER (dd_config dd) \<or> cs_bridge (dd_setup dd) = '''' \<and> cs_vault (dd_setup dd) = '''' then ret ()
     else try_catch
       (bnd (gets (\<lambda>s. map_values (dw_pending (watcher s)))) (\<lambda>retry.
        bnd (until_shutdown dd (claimOne dd) retry) (\<lambda>_. scanDeposits dd)))
       (\<lambda>e. ret ()))"

section \<open>Every deposit of a scanned block is kept\<close>

text \<open>A deposit is kept when its key is among the claimed or the pending ones.\<close>

definition kept :: "DepositWatcher \<Rightarrow> string \<Rightarrow> bool" where
  "kept w k = (k \<in> set (dw_claimed w) \<or> map_has (dw_pending w) k)"

text \<open>A key counts as claimed only after the daemon minted the deposit or said that it was claimed before.\<close>

definition acked :: "string \<Rightarrow> dep_event list \<Rightarrow> bool" where
  "acked k es = (\<exists>r ok err. DpClaim r (Inr (ok, err)) \<in> set es \<and> dr_key r = k \<and> (ok \<or> already_claimed err))"

definition watch_ok :: "'x DepositDeps \<Rightarrow> string set \<Rightarrow> string set \<Rightarrow> int option \<Rightarrow> 'x dep_state \<Rightarrow> bool" where
  "watch_ok dd old ks b s = (dw_lastBlock (watcher s) = b \<and> (\<forall>k \<in> ks. kept (watcher s) k) \<and>
     (OBSERVE_ONLY (rl_config (dd_relayer dd)) \<or> (\<forall>k \<in> set (dw_claimed (watcher s)). k \<in> old \<or> acked k (trace s))))"

lemma js_add_set [simp]: "set (js_add x xs) = insert x (set xs)"
  by (auto simp: js_add_def)

lemma acked_Cons: "acked k es \<Longrightarrow> acked k (e # es)"
  by (auto simp: acked_def)

lemma ackedI: "DpClaim r (Inr (ok, err)) \<in> set es \<Longrightarrow> ok \<or> already_claimed err \<Longrightarrow> acked (dr_key r) es"
  unfolding acked_def by blast

lemma watch_ok_event: "watch_ok dd old ks b s \<Longrightarrow> watch_ok dd old ks b (s\<lparr>world := w, trace := e # trace s\<rparr>)"
  by (auto simp: watch_ok_def intro: acked_Cons)

lemma keeps_watch_call: "keeps (watch_ok dd old ks b) (call mk f)"
  by (rule triple_call) (auto intro: watch_ok_event)

lemma claimOne_triple:
  "triple (watch_ok dd old ks b) (claimOne dd r) (\<lambda>_. watch_ok dd old (insert (dr_key r) ks) b) (\<lambda>_. watch_ok dd old ks b)"
proof (cases "OBSERVE_ONLY (rl_config (dd_relayer dd))")
  case True
  then show ?thesis unfolding claimOne_def update_watcher_def
    by (auto intro!: triple_modify simp: watch_ok_def kept_def)
next
  case False
  let ?P = "\<lambda>a s. watch_ok dd old ks b s \<and> DpClaim r (Inr a) \<in> set (trace s)"
  have claim: "triple (watch_ok dd old ks b) (call (DpClaim r) f) ?P (\<lambda>_. watch_ok dd old ks b)" for f
    by (rule triple_call) (auto intro: watch_ok_event)
  have yes: "triple (?P (ok, err)) (update_watcher (\<lambda>w. w\<lparr>dw_claimed := js_add (dr_key r) (dw_claimed w), dw_pending := map_delete (dr_key r) (dw_pending w)\<rparr>))
      (\<lambda>_. watch_ok dd old (insert (dr_key r) ks) b) (\<lambda>_. watch_ok dd old ks b)" if "ok \<or> already_claimed err" for ok err
    using that unfolding update_watcher_def
    by (intro triple_modify) (auto simp: watch_ok_def kept_def map_laws dest: ackedI)
  have no: "triple (?P a) (bnd (update_watcher (\<lambda>w. w\<lparr>dw_pending := map_set (dr_key r) r (dw_pending w)\<rparr>)) (\<lambda>_. call mk f))
      (\<lambda>_. watch_ok dd old (insert (dr_key r) ks) b) (\<lambda>_. watch_ok dd old ks b)" for a mk f
  proof (rule triple_bnd)
    show "triple (?P a) (update_watcher (\<lambda>w. w\<lparr>dw_pending := map_set (dr_key r) r (dw_pending w)\<rparr>)) (\<lambda>_. watch_ok dd old (insert (dr_key r) ks) b) (\<lambda>_. watch_ok dd old ks b)"
      unfolding update_watcher_def by (intro triple_modify) (auto simp: watch_ok_def kept_def map_laws)
    show "triple (watch_ok dd old (insert (dr_key r) ks) b) (call mk f) (\<lambda>_. watch_ok dd old (insert (dr_key r) ks) b) (\<lambda>_. watch_ok dd old ks b)"
      by (rule triple_conseq [OF keeps_watch_call [where ks = "insert (dr_key r) ks"]]) (auto simp: watch_ok_def)
  qed
  show ?thesis using False unfolding claimOne_def Let_def
    by (auto intro!: triple_bnd [OF claim] yes no split: prod.split)
qed

lemma claimNew_triple:
  "triple (watch_ok dd old ks b) (claimNew dd r) (\<lambda>_. watch_ok dd old (insert (dr_key r) ks) b) (\<lambda>_. watch_ok dd old ks b)"
  unfolding claimNew_def
proof (rule triple_bnd [OF triple_gets [where Q = "\<lambda>known s. watch_ok dd old ks b s \<and> (known \<longrightarrow> kept (watcher s) (dr_key r))"]])
  fix known
  show "triple (\<lambda>s. watch_ok dd old ks b s \<and> (known \<longrightarrow> kept (watcher s) (dr_key r))) (if known then ret () else claimOne dd r)
      (\<lambda>_. watch_ok dd old (insert (dr_key r) ks) b) (\<lambda>_. watch_ok dd old ks b)"
    by (auto intro!: triple_ret triple_pre [OF claimOne_triple] simp: watch_ok_def)
qed (simp add: kept_def)

definition never_stops :: "'x DepositDeps \<Rightarrow> bool" where
  "never_stops dd = (\<forall>w. \<not> isShuttingDown (dd_relayer dd) w)"

lemma until_shutdown_triple:
  assumes "never_stops dd"
    and f: "\<And>ks r. triple (watch_ok dd old ks b) (f r) (\<lambda>_. watch_ok dd old (insert (dr_key r) ks) b) (\<lambda>_. watch_ok dd old ks b)"
  shows "triple (watch_ok dd old ks b) (until_shutdown dd f rs) (\<lambda>_. watch_ok dd old (ks \<union> dr_key ` set rs) b) (\<lambda>_. watch_ok dd old ks b)"
proof (induction rs arbitrary: ks)
  case Nil
  show ?case by (auto intro: triple_ret)
next
  case (Cons r rs)
  have weak: "watch_ok dd old (insert k ks) b s \<Longrightarrow> watch_ok dd old ks b s" for k s by (auto simp: watch_ok_def)
  have "triple (watch_ok dd old (insert (dr_key r) ks) b) (until_shutdown dd f rs)
      (\<lambda>_. watch_ok dd old (ks \<union> dr_key ` set (r # rs)) b) (\<lambda>_. watch_ok dd old ks b)"
    by (rule triple_conseq [OF Cons.IH [of "insert (dr_key r) ks"]]) (auto intro: weak)
  then have go: "triple (watch_ok dd old ks b) (bnd (f r) (\<lambda>_. until_shutdown dd f rs)) (\<lambda>_. watch_ok dd old (ks \<union> dr_key ` set (r # rs)) b) (\<lambda>_. watch_ok dd old ks b)"
    by (rule triple_bnd [OF f])
  show ?case unfolding until_shutdown.simps
  proof (rule triple_bnd [OF triple_gets [where Q = "\<lambda>stop s. \<not> stop \<and> watch_ok dd old ks b s"]])
    show "watch_ok dd old ks b s \<Longrightarrow> \<not> isShuttingDown (dd_relayer dd) (outside (world s)) \<and> watch_ok dd old ks b s" for s
      using assms(1) by (simp add: never_stops_def)
    show "triple (\<lambda>s. \<not> stop \<and> watch_ok dd old ks b s) (if stop then ret () else bnd (f r) (\<lambda>_. until_shutdown dd f rs))
        (\<lambda>_. watch_ok dd old (ks \<union> dr_key ` set (r # rs)) b) (\<lambda>_. watch_ok dd old ks b)" for stop
      using go by (cases stop) (simp_all add: triple_def)
  qed
qed

text \<open>The chain's deposits: a node answers a query with an error or with exactly the logs of the range.\<close>

definition honest_deposits :: "(DepositEvent \<Rightarrow> DepositLog list) \<Rightarrow> 'x DepositDeps \<Rightarrow> bool" where
  "honest_deposits logs dd = (\<forall>event r. yields (dd_getLogs dd event r) (\<lambda>page. set page = {lg \<in> set (logs event). in_blocks dl_blockNumber r lg}))"

definition deposit_keys :: "(DepositEvent \<Rightarrow> DepositLog list) \<Rightarrow> ChainSetup \<Rightarrow> int \<Rightarrow> int \<Rightarrow> string set" where
  "deposit_keys logs cs lo hi = (\<Union>event \<in> set (watched_events cs). \<Union>lg \<in> {lg \<in> set (logs event). in_blocks dl_blockNumber (lo, hi) lg}. dr_key ` set (pushLogs cs event [lg]))"

lemma pushLogs_set: "set (pushLogs cs event logs) = (\<Union>lg \<in> set logs. set (pushLogs cs event [lg]))"
  by (cases event) (fastforce simp: pushLogs_def split: if_splits)+

lemma pushLogs_keys: "dr_key ` set (pushLogs cs event logs) = (\<Union>lg \<in> set logs. dr_key ` set (pushLogs cs event [lg]))"
  by (subst pushLogs_set) (simp add: image_UN)

lemma yields_call: "yields f Q \<Longrightarrow> yields (call mk f) Q"
  by (auto simp: yields_def call_def split: prod.splits)

lemma yields_outw: "yields f Q \<Longrightarrow> yields (outw f) Q"
  by (auto simp: yields_def outw_def split: prod.splits)

lemma findDeposits_keys:
  assumes "honest_deposits logs dd"
  shows "yields (findDeposits dd (lo, hi) es) (\<lambda>found. dr_key ` set found = (\<Union>event \<in> set es. \<Union>lg \<in> {lg \<in> set (logs event). in_blocks dl_blockNumber (lo, hi) lg}.
    dr_key ` set (pushLogs (dd_setup dd) event [lg])))"
proof (induction es)
  case Nil
  show ?case by (auto intro: yields_ret)
next
  case (Cons event es)
  have page: "yields (call (DpLogs event (lo, hi)) (outw (dd_getLogs dd event (lo, hi)))) (\<lambda>page. set page = {lg \<in> set (logs event). in_blocks dl_blockNumber (lo, hi) lg})"
    using assms by (intro yields_call yields_outw) (simp add: honest_deposits_def)
  show ?case unfolding findDeposits.simps
  proof (rule yields_bnd [OF page], rule yields_bnd [OF Cons.IH], rule yields_ret)
    fix page and found :: "DepositRecord list"
    assume "set page = {lg \<in> set (logs event). in_blocks dl_blockNumber (lo, hi) lg}"
      "dr_key ` set found = (\<Union>event \<in> set es. \<Union>lg \<in> {lg \<in> set (logs event). in_blocks dl_blockNumber (lo, hi) lg}. dr_key ` set (pushLogs (dd_setup dd) event [lg]))"
    then show "dr_key ` set (pushLogs (dd_setup dd) event page @ found) =
        (\<Union>event \<in> set (event # es). \<Union>lg \<in> {lg \<in> set (logs event). in_blocks dl_blockNumber (lo, hi) lg}. dr_key ` set (pushLogs (dd_setup dd) event [lg]))"
      unfolding set_append image_Un pushLogs_keys [of "dd_setup dd" event page] by simp
  qed
qed

lemma keeps_findDeposits: "keeps (watch_ok dd old ks b) (findDeposits dd r es)"
  by (induction es) (auto intro!: keeps_rules keeps_watch_call)

text \<open>The invariant of the polls: the cursor stands somewhere and everything between the start and the cursor is kept.\<close>

definition dep_inv :: "(DepositEvent \<Rightarrow> DepositLog list) \<Rightarrow> 'x DepositDeps \<Rightarrow> string set \<Rightarrow> int \<Rightarrow> 'x dep_state \<Rightarrow> bool" where
  "dep_inv logs dd old lo s = (\<exists>b. watch_ok dd old (deposit_keys logs (dd_setup dd) lo b) (Some b) s)"

lemma deposit_keys_extend: "k \<in> deposit_keys logs cs lo hi \<Longrightarrow> k \<in> deposit_keys logs cs lo b \<union> deposit_keys logs cs (b + 1) hi"
  by (fastforce simp: deposit_keys_def in_blocks_def)

lemma saveCursor_triple: "triple (watch_ok dd old ks b) (saveCursor dd b') (\<lambda>_. watch_ok dd old ks (Some b')) (\<lambda>_. watch_ok dd old ks (Some b'))"
  unfolding saveCursor_def update_watcher_def
  by (rule triple_bnd [where R = "\<lambda>_. watch_ok dd old ks (Some b')"], rule triple_modify, simp add: watch_ok_def kept_def)
    (intro keeps_rules keeps_watch_call)

lemma triple_yields: "triple P m Q E \<Longrightarrow> yields m R \<Longrightarrow> triple P m (\<lambda>a s. Q a s \<and> R a) E"
  unfolding triple_def yields_def by (fastforce split: sum.splits)

lemma triple_guard: "(c \<Longrightarrow> triple P m Q E) \<Longrightarrow> triple (\<lambda>s. P s \<and> c) m Q E"
  by (auto simp: triple_def)

lemma scan_range_triple:
  assumes "honest_deposits logs dd" "never_stops dd"
  shows "triple (watch_ok dd old (deposit_keys logs (dd_setup dd) lo b) (Some b))
     (bnd (findDeposits dd (b + 1, b') (watched_events (dd_setup dd))) (\<lambda>found. bnd (until_shutdown dd (claimNew dd) found) (\<lambda>_. saveCursor dd b')))
     (\<lambda>_. dep_inv logs dd old lo) (\<lambda>_. dep_inv logs dd old lo)"
proof (rule triple_bnd)
  let ?W = "watch_ok dd old (deposit_keys logs (dd_setup dd) lo b) (Some b)"
  have inv: "?W s \<Longrightarrow> dep_inv logs dd old lo s" for s by (auto simp: dep_inv_def)
  let ?F = "\<lambda>found :: DepositRecord list. dr_key ` set found = deposit_keys logs (dd_setup dd) (b + 1) b'"
  have "yields (findDeposits dd (b + 1, b') (watched_events (dd_setup dd))) ?F"
    using findDeposits_keys [OF assms(1), of "b + 1" b' "watched_events (dd_setup dd)"] by (simp add: deposit_keys_def)
  moreover have "triple ?W (findDeposits dd (b + 1, b') (watched_events (dd_setup dd))) (\<lambda>_. ?W) (\<lambda>_. dep_inv logs dd old lo)"
    by (rule triple_conseq [OF keeps_findDeposits]) (auto intro: inv)
  ultimately show "triple ?W (findDeposits dd (b + 1, b') (watched_events (dd_setup dd))) (\<lambda>found s. ?W s \<and> ?F found) (\<lambda>_. dep_inv logs dd old lo)"
    by (rule triple_yields [rotated])
  fix found :: "DepositRecord list"
  let ?U = "watch_ok dd old (deposit_keys logs (dd_setup dd) lo b \<union> dr_key ` set found)"
  have claim: "triple ?W (until_shutdown dd (claimNew dd) found) (\<lambda>_. ?U (Some b)) (\<lambda>_. dep_inv logs dd old lo)"
    by (rule triple_conseq [OF until_shutdown_triple [OF assms(2) claimNew_triple]]) (auto intro: inv)
  have fin: "?U (Some b') s \<Longrightarrow> ?F found \<Longrightarrow> dep_inv logs dd old lo s" for s
    using deposit_keys_extend [of _ logs "dd_setup dd" lo b' b] by (fastforce simp: dep_inv_def watch_ok_def)
  have "triple (?U (Some b)) (saveCursor dd b') (\<lambda>_. dep_inv logs dd old lo) (\<lambda>_. dep_inv logs dd old lo)" if "?F found"
    by (rule triple_conseq [OF saveCursor_triple]) (auto intro: fin [OF _ that])
  then have "?F found \<Longrightarrow> triple ?W (bnd (until_shutdown dd (claimNew dd) found) (\<lambda>_. saveCursor dd b')) (\<lambda>_. dep_inv logs dd old lo) (\<lambda>_. dep_inv logs dd old lo)"
    by (intro triple_bnd [OF claim])
  then show "triple (\<lambda>s. ?W s \<and> ?F found) (bnd (until_shutdown dd (claimNew dd) found) (\<lambda>_. saveCursor dd b')) (\<lambda>_. dep_inv logs dd old lo) (\<lambda>_. dep_inv logs dd old lo)"
    by (rule triple_guard)
qed

lemma scanDeposits_keeps:
  assumes "honest_deposits logs dd" "never_stops dd"
  shows "keeps (dep_inv logs dd old lo) (scanDeposits dd)"
proof -
  have head: "keeps (dep_inv logs dd old lo) (call mk f)" for mk f
    by (rule triple_call) (auto simp: dep_inv_def intro: watch_ok_event)
  have scan: "triple (dep_inv logs dd old lo) (bnd (gets (\<lambda>s. dw_lastBlock (watcher s))) k) (\<lambda>_. dep_inv logs dd old lo) (\<lambda>_. dep_inv logs dd old lo)"
    if "\<And>b. triple (watch_ok dd old (deposit_keys logs (dd_setup dd) lo b) (Some b)) (k (Some b)) (\<lambda>_. dep_inv logs dd old lo) (\<lambda>_. dep_inv logs dd old lo)" for k
  proof (rule triple_bnd [OF triple_gets [where Q = "\<lambda>c s. \<exists>b. c = Some b \<and> watch_ok dd old (deposit_keys logs (dd_setup dd) lo b) (Some b) s"]])
    show "dep_inv logs dd old lo s \<Longrightarrow> \<exists>b. dw_lastBlock (watcher s) = Some b \<and> watch_ok dd old (deposit_keys logs (dd_setup dd) lo b) (Some b) s" for s
      by (auto simp: dep_inv_def watch_ok_def)
    show "triple (\<lambda>s. \<exists>b. c = Some b \<and> watch_ok dd old (deposit_keys logs (dd_setup dd) lo b) (Some b) s) (k c) (\<lambda>_. dep_inv logs dd old lo) (\<lambda>_. dep_inv logs dd old lo)" for c
      using that unfolding triple_def by blast
  qed
  have inv: "watch_ok dd old (deposit_keys logs (dd_setup dd) lo b) (Some b) s \<Longrightarrow> dep_inv logs dd old lo s" for b s by (auto simp: dep_inv_def)
  have planned: "triple (watch_ok dd old (deposit_keys logs (dd_setup dd) lo b) (Some b)) (case planScan (dd_config dd) (Some b) sh of Anchor \<Rightarrow> saveCursor dd sh | NothingNew \<Rightarrow> ret ()
      | Scan fromBlock toBlock \<Rightarrow> bnd (findDeposits dd (fromBlock, toBlock) (watched_events (dd_setup dd))) (\<lambda>found. bnd (until_shutdown dd (claimNew dd) found) (\<lambda>_. saveCursor dd toBlock)))
      (\<lambda>_. dep_inv logs dd old lo) (\<lambda>_. dep_inv logs dd old lo)" for b sh
    using scan_range_triple [OF assms] by (auto simp: planScan_def intro!: triple_ret intro: inv)
  show ?thesis unfolding scanDeposits_def Let_def
    by (intro keeps_bnd head keeps_lift_sum keeps_case_option keeps_ret scan planned)
qed

lemma claim_keeps_inv: "keeps (dep_inv logs dd old lo) (claimOne dd r)"
proof -
  have "triple (watch_ok dd old (deposit_keys logs (dd_setup dd) lo b) (Some b)) (claimOne dd r) (\<lambda>_. dep_inv logs dd old lo) (\<lambda>_. dep_inv logs dd old lo)" for b
    by (rule triple_conseq [OF claimOne_triple [where old = old and ks = "deposit_keys logs (dd_setup dd) lo b" and b = "Some b"]]) (auto simp: dep_inv_def watch_ok_def)
  then show ?thesis unfolding triple_def dep_inv_def by blast
qed

lemma until_shutdown_keeps: "(\<And>x. keeps I (f x)) \<Longrightarrow> keeps I (until_shutdown dd f xs)"
  by (induction xs) (auto intro!: keeps_rules)

lemma processDeposits_keeps:
  assumes "honest_deposits logs dd" "never_stops dd"
  shows "keeps (dep_inv logs dd old lo) (processDeposits dd)"
  unfolding processDeposits_def
  by (intro keeps_rules until_shutdown_keeps claim_keeps_inv scanDeposits_keeps [OF assms])

text \<open>Between two polls anything can happen in the world: a poll starts in a new one.\<close>

definition deposit_poll :: "'x DepositDeps \<Rightarrow> 'x outer proc \<Rightarrow> 'x dep_state \<Rightarrow> 'x dep_state" where
  "deposit_poll dd w s = exec (processDeposits dd) (s\<lparr>world := w\<rparr>)"

interpretation deposits: invariant_machine "deposit_poll dd" "\<lambda>_. honest_deposits logs dd \<and> never_stops dd" "dep_inv logs dd old lo"
  for dd :: "'x DepositDeps" and logs old lo
proof
  fix s :: "'x dep_state" and w
  assume inv: "dep_inv logs dd old lo s" and ok: "honest_deposits logs dd \<and> never_stops dd"
  have "dep_inv logs dd old lo (s\<lparr>world := w\<rparr>)" using inv by (auto simp: dep_inv_def watch_ok_def)
  then show "dep_inv logs dd old lo (deposit_poll dd w s)"
    unfolding deposit_poll_def using ok by (intro keeps_exec [OF processDeposits_keeps]) simp_all
qed


text \<open>A watcher of the vault alone, on a chain with one deposit in block 85. The world says whether a shutdown was requested.\<close>

definition sample_deposit :: DepositLog where
  "sample_deposit = \<lparr>dl_transactionHash = ''0x77'', dl_blockNumber = 85, dl_token = '''', dl_rougechainPubkey = ''pk''\<rparr>"

definition sample_deposits :: "DepositEvent \<Rightarrow> DepositLog list" where
  "sample_deposits event = (if event = VAULT_DEPOSIT_EVENT then [sample_deposit] else [])"

definition sample_deposit_setup :: ChainSetup where
  "sample_deposit_setup = sample_setup\<lparr>cs_bridge := '''', cs_vault := ''0x22''\<rparr>"

definition sample_watch :: "bool Relayer \<Rightarrow> (bool outer \<Rightarrow> bool outer) \<Rightarrow> bool DepositDeps" where
  "sample_watch rl f = \<lparr>dd_relayer = rl, dd_setup = sample_deposit_setup,
     dd_config = \<lparr>DEPOSIT_WATCHER = True, DEPOSIT_WATCH_FROM_BLOCK = None, DEPOSIT_MAX_BLOCK_SPAN = 2000, DEPOSIT_STATE_FILE = ''d.json''\<rparr>,
     dd_getBlockNumber = Pair (Inr 100),
     dd_getLogs = (\<lambda>event r w. (Inr (filter (in_blocks dl_blockNumber r) (sample_deposits event)), f w))\<rparr>"

definition down_fetch :: "'o Fetch" where
  "down_fetch req w = (Inl ''ECONNREFUSED'', w)"

definition flag_fs :: "(bool, json_file) FsEnv" where
  "flag_fs = \<lparr>fe_write = (\<lambda>f c w. (([], None), w)), fe_rename = Pair None, fe_unlink = Pair None, fe_read = Pair None,
     fe_now = Pair 1700000000000, fe_pid = 42\<rparr>"

definition sample_relayer :: "(bool outer \<Rightarrow> bool) \<Rightarrow> bool Relayer" where
  "sample_relayer stop = \<lparr>rl_config = sample_api, rl_fetch = down_fetch, rl_fs = flag_fs, isShuttingDown = stop,
     PROCESSED_FILE = ''p.json'', QUEUED_FILE = ''q.json''\<rparr>"

definition sample_world :: "bool outer proc" where
  "sample_world = \<lparr>outside = boot Map.empty False, nonceState = [], processedTxIds = [], inFlightTxIds = [], alertedTxIds = []\<rparr>"

definition sample_watching :: "bool dep_state" where
  "sample_watching = \<lparr>world = sample_world, trace = [], watcher = \<lparr>dw_lastBlock = Some 80, dw_claimed = [], dw_pending = []\<rparr>\<rparr>"

lemma sample_watch_honest: "honest_deposits sample_deposits (sample_watch rl f)"
  by (auto simp: honest_deposits_def sample_watch_def yields_def)



lemma load_torn: "readable d \<Longrightarrow> files s f = Some None \<Longrightarrow> fst (loadDepositState d f s) = Inr (Some empty_watcher)"
  by (cases "fe_read d (fs_world s)")
    (auto simp: readable_def loadDepositState_def existsSync_def readFileSync_def io_defs dest: spec [of _ "fs_world s"])

text \<open>C35: The deposit watcher's file can be torn. It is written in place: when the write passes through contents that are
  not complete JSON, a process that dies there leaves a file from which the next process starts with no cursor,
  nothing claimed and nothing pending, whatever the watcher held and whatever was saved before.\<close>

theorem deposit_state_can_be_torn:
  assumes "fe_write d f (Some (watcher_json w)) (fs_world s) = ((parts, e), w1)" "None \<in> set parts" "readable d'"
  shows "\<exists>dk \<in> set (seen (snd (saveDepositState d False f w s))). fst (loadDepositState d' f (boot dk w')) = Inr (Some empty_watcher)"
proof -
  have "(files s)(f \<mapsto> None) \<in> set (seen (snd (saveDepositState d False f w s)))"
    using assms(1,2) by (auto simp: saveDepositState_def try_catch_def writeFileSync_def to_disk_def ret_def fs_result_def split: option.split)
  moreover have "fst (loadDepositState d' f (boot ((files s)(f \<mapsto> None)) w')) = Inr (Some empty_watcher)"
    by (rule load_torn [OF assms(3)]) (simp add: boot_def)
  ultimately show ?thesis by blast
qed

theorem deposit_state_can_be_torn_witness:
  "\<exists>dk \<in> set (seen (snd (saveDepositState (sample_fs\<lparr>fe_write := \<lambda>f c w. (([None], None), w)\<rparr>) False ''d.json''
     (empty_watcher\<lparr>dw_lastBlock := Some 80\<rparr>) (boot Map.empty ())))). fst (loadDepositState sample_fs ''d.json'' (boot dk ())) = Inr (Some empty_watcher)"
  by (rule deposit_state_can_be_torn [where parts = "[None]" and e = None]) (simp_all add: readable_def sample_fs_def)

end
