(* ===== verification/Relayer_Loop.thy ===== *)
theory Relayer_Loop
  imports Evm_Payout_Safety Deposit_Watcher
begin

text \<open>
  The polling loop of \<open>scripts/bridge-relayer.ts\<close>: the start of the process, the health gate of a poll, the loops over
  the daemon's two withdrawal feeds, the poll over the timelock queue, and the shutdown. The handlers they call run
  with the dependencies the deployed program wires (\<open>Relayer_Deps\<close>), so the properties proved for any dependencies
  hold of the deployed loop.
\<close>

section \<open>Start\<close>

text \<open>The signing library turns a key into an address or refuses it, and it knows the id of each chain.\<close>

type_synonym key_to_account = "string \<Rightarrow> exn + string"

definition hex_key :: "string \<Rightarrow> string" where
  "hex_key k = (if take 2 k = ''0x'' then k else ''0x'' @ k)"

definition preflightConfig :: "env \<Rightarrow> (Chain \<Rightarrow> int) \<Rightarrow> string \<Rightarrow> PreflightConfig" where
  "preflightConfig e chainId account = \<lparr>pf_expectedChainId = chainId (cg_chain (chainCfg e)), pf_bridgeAddress = env_or_empty e ''ROUGE_BRIDGE_ADDRESS'',
     pf_configuredUsdc = env_or_empty e ''BRIDGE_USDC_ADDRESS'', pf_chainUsdc = cg_usdc (chainCfg e),
     pf_vaultAddress = env_or_empty e ''XRGE_BRIDGE_VAULT'', pf_expectedOwner = env_or e ''ROUGE_BRIDGE_OWNER'' account\<rparr>"

text \<open>The process ends, or it goes on with the setup of the loops.\<close>

datatype start_result = Exit int | Started ChainSetup

definition startRelayer ::
  "env \<Rightarrow> viem \<Rightarrow> key_to_account \<Rightarrow> (Chain \<Rightarrow> int) \<Rightarrow> int \<times> int \<Rightarrow> 'w PreflightClient \<Rightarrow> (('w, preflight_event) io_state, start_result) io" where
  "startRelayer e vm acct chainId scans c = (let privateKey = env_or_empty e ''BRIDGE_CUSTODY_PRIVATE_KEY'';
       xrgeKey = env_or_empty e ''XRGE_RELAYER_PRIVATE_KEY'' in
     if js_trim privateKey = '''' then ret (Exit 1)
     else bnd (lift_sum (acct (hex_key privateKey))) (\<lambda>account.
       attempt (preflight vm c (preflightConfig e chainId account)) (\<lambda>res. case res of
           Inl err \<Rightarrow> ret (Exit 1)
         | Inr _ \<Rightarrow> bnd (if js_trim xrgeKey \<noteq> '''' then lift_sum (acct (hex_key xrgeKey)) else ret account) (\<lambda>xrgeAccount.
             ret (Started \<lparr>cs_env = e, cs_viem = vm, cs_account = account, cs_xrgeAccount = xrgeAccount,
               cs_bridge = (if isEvmAddress vm (env_or_empty e ''ROUGE_BRIDGE_ADDRESS'') then env_or_empty e ''ROUGE_BRIDGE_ADDRESS'' else ''''),
               cs_vault = env_or_empty e ''XRGE_BRIDGE_VAULT'', cs_bridgeScan = fst scans, cs_vaultScan = snd scans\<rparr>)))))"

text \<open>The loops start only after the preflight passed, on the bridge it checked.\<close>

lemma preflightConfig_bridge [simp]: "pf_bridgeAddress (preflightConfig e chainId account) = env_or_empty e ''ROUGE_BRIDGE_ADDRESS''"
  by (simp add: preflightConfig_def)

lemma preflight_bridge: "preflight vm c cfg s = (Inr r, s') \<Longrightarrow> isEvmAddress vm (pf_bridgeAddress cfg)"
  unfolding preflight_def by (auto elim!: bnd_Inr_E split: prod.splits dest!: checkBridge_Inr)

lemma started_passed_preflight:
  assumes "startRelayer e vm acct chainId scans c s = (Inr (Started cs), s')"
  shows "\<exists>r. preflight vm c (preflightConfig e chainId (cs_account cs)) s = (Inr r, s') \<and> cs_bridge cs = env_or_empty e ''ROUGE_BRIDGE_ADDRESS'' \<and>
    acct (hex_key (env_or_empty e ''BRIDGE_CUSTODY_PRIVATE_KEY'')) = Inr (cs_account cs)"
  using assms unfolding startRelayer_def Let_def
  by (auto simp: ret_def lift_sum_def throw_def attempt_def dest: preflight_bridge split: if_splits sum.splits prod.splits elim!: bnd_Inr_E)

section \<open>Counters\<close>

record Stats =
  ethFulfilled :: nat
  ethQueued :: nat
  ethAmbiguous :: nat
  ethRefunded :: nat
  ethFailed :: nat
  ethSkipped :: nat
  xrgeFulfilled :: nat
  xrgeFailed :: nat

definition countEth :: "PayoutOutcome \<Rightarrow> Stats \<Rightarrow> Stats" where
  "countEth outcome st = (case outcome of
      fulfilled \<Rightarrow> st\<lparr>ethFulfilled := ethFulfilled st + 1\<rparr>
    | reconciled_paid \<Rightarrow> st\<lparr>ethFulfilled := ethFulfilled st + 1\<rparr>
    | queued_outcome \<Rightarrow> st\<lparr>ethQueued := ethQueued st + 1\<rparr>
    | reconciled_queued \<Rightarrow> st\<lparr>ethQueued := ethQueued st + 1\<rparr>
    | ambiguous \<Rightarrow> st\<lparr>ethAmbiguous := ethAmbiguous st + 1\<rparr>
    | cancelled_refund_candidate \<Rightarrow> st\<lparr>ethAmbiguous := ethAmbiguous st + 1\<rparr>
    | refunded \<Rightarrow> st\<lparr>ethRefunded := ethRefunded st + 1\<rparr>
    | failed \<Rightarrow> st\<lparr>ethFailed := ethFailed st + 1\<rparr>
    | skipped_queued \<Rightarrow> st
    | awaiting_confirmations \<Rightarrow> st
    | _ \<Rightarrow> st\<lparr>ethSkipped := ethSkipped st + 1\<rparr>)"

definition countXrge :: "XrgeOutcome \<Rightarrow> Stats \<Rightarrow> Stats" where
  "countXrge outcome st = (if outcome = XoFulfilled \<or> outcome = XoReconciledFulfilled then st\<lparr>xrgeFulfilled := xrgeFulfilled st + 1\<rparr>
     else if outcome = XoFailed then st\<lparr>xrgeFailed := xrgeFailed st + 1\<rparr> else st)"

section \<open>The guards of the two loops\<close>

definition inFlight_add :: "string \<Rightarrow> ('o proc, unit) eff" where
  "inFlight_add i = modify (\<lambda>p. p\<lparr>inFlightTxIds := js_add i (inFlightTxIds p)\<rparr>)"

definition inFlight_delete :: "string \<Rightarrow> ('o proc, unit) eff" where
  "inFlight_delete i = modify (\<lambda>p. p\<lparr>inFlightTxIds := filter (\<lambda>j. j \<noteq> i) (inFlightTxIds p)\<rparr>)"

definition busy_or_done :: "string \<Rightarrow> 'o proc \<Rightarrow> bool" where
  "busy_or_done i p = (i \<in> set (processedTxIds p) \<or> i \<in> set (inFlightTxIds p))"

text \<open>\<open>inFlightTxIds.add(id); try { ... } catch { resetNonce(signer) } finally { inFlightTxIds.delete(id) }\<close>, around a
  handler that gives a new set of counters.\<close>

definition in_flight :: "string \<Rightarrow> string \<Rightarrow> Stats \<Rightarrow> (('o proc, 'e, 'z) io_state_scheme, Stats) io \<Rightarrow> (('o proc, 'e, 'z) io_state_scheme, Stats) io" where
  "in_flight i signer st m = bnd (quiet (inFlight_add i)) (\<lambda>_.
     bnd (try_catch m (\<lambda>e. bnd (quiet (resetNonce signer)) (\<lambda>_. ret st))) (\<lambda>st'.
     bnd (quiet (inFlight_delete i)) (\<lambda>_. ret st')))"

section \<open>qETH and qUSDC\<close>

fun ethLoop :: "'x Relayer \<Rightarrow> ChainSetup \<Rightarrow> 'x outer ChainClient \<Rightarrow> EthWithdrawal list \<Rightarrow> Stats \<Rightarrow> ('x outer proc evm_state, Stats) io" where
  "ethLoop rl cs cc [] st = ret st"
| "ethLoop rl cs cc (raw # rest) st = (let w = normalizeEthWithdrawal raw in
     bnd (gets (\<lambda>s. isShuttingDown rl (outside (world s)))) (\<lambda>stop. if stop then ret st else
     bnd (gets (\<lambda>s. tx_id w = '''' \<or> busy_or_done (tx_id w) (world s))) (\<lambda>skip. if skip then ethLoop rl cs cc rest st else
     bnd (in_flight (tx_id w) (cs_account cs) st (bnd (processEvmWithdrawal w (evmDeps rl cs cc)) (\<lambda>outcome. ret (countEth outcome st))))
       (ethLoop rl cs cc rest))))"

definition processEthWithdrawals :: "'x Relayer \<Rightarrow> ChainSetup \<Rightarrow> 'x outer ChainClient \<Rightarrow> Stats \<Rightarrow> ('x outer proc evm_state, Stats) io" where
  "processEthWithdrawals rl cs cc st = try_catch
     (bnd (quiet (fetchEthWithdrawals (rl_config rl) (rl_fetch rl))) (\<lambda>withdrawals. if withdrawals = [] then ret st else
      bnd (quiet (outw (cc_getBalance cc (cs_account cs)))) (\<lambda>balance.
      ethLoop rl cs cc withdrawals st)))
     (\<lambda>e. ret st)"

definition processQueued :: "'x Relayer \<Rightarrow> ChainSetup \<Rightarrow> 'x outer ChainClient \<Rightarrow> ('x outer proc evm_state, unit) io" where
  "processQueued rl cs cc = bnd (gets (\<lambda>s. queued s = [])) (\<lambda>none. if cs_bridge cs = '''' \<or> none then ret ()
     else try_catch (pollQueuedWithdrawals (evmDeps rl cs cc)) (\<lambda>e. ret ()))"

section \<open>XRGE\<close>

definition xrgeObserveDeps :: "ChainSetup \<Rightarrow> 'x outer ChainClient \<Rightarrow> 'x outer proc XrgeObserveDeps" where
  "xrgeObserveDeps cs cc = \<lparr>xo_processedOnVault = (\<lambda>i. outw (cc_processedL1Txs cc (cs_vault cs) i)),
     xo_findReleaseTx = (\<lambda>i. outw (findReleaseTxForL1 cc cs i))\<rparr>"

fun xrgeLoop :: "'x Relayer \<Rightarrow> ChainSetup \<Rightarrow> 'x outer ChainClient \<Rightarrow> RawXrgeWithdrawal list \<Rightarrow> Stats \<Rightarrow> ('x outer proc xrge_state, Stats) io" where
  "xrgeLoop rl cs cc [] st = ret st"
| "xrgeLoop rl cs cc (raw # rest) st = (let w = normalizeXrgeWithdrawal raw in
     bnd (gets (\<lambda>s. isShuttingDown rl (outside (world s)))) (\<lambda>stop. if stop then ret st else
     bnd (gets (\<lambda>s. busy_or_done (xw_tx_id w) (world s))) (\<lambda>skip. if skip then xrgeLoop rl cs cc rest st else
     if OBSERVE_ONLY (rl_config rl) then bnd (observeXrgeWithdrawal w (xrgeObserveDeps cs cc)) (\<lambda>_. xrgeLoop rl cs cc rest st)
     else bnd (in_flight (xw_tx_id w) (cs_xrgeAccount cs) st (bnd (processXrgeWithdrawal w (xrgeDeps rl cs cc)) (\<lambda>outcome. ret (countXrge outcome st))))
       (xrgeLoop rl cs cc rest))))"

definition processXrgeWithdrawals :: "'x Relayer \<Rightarrow> ChainSetup \<Rightarrow> 'x outer ChainClient \<Rightarrow> Stats \<Rightarrow> ('x outer proc xrge_state, Stats) io" where
  "processXrgeWithdrawals rl cs cc st = (if cs_vault cs = '''' then ret st else try_catch
     (bnd (quiet (fetchXrgeWithdrawals (rl_config rl) (rl_fetch rl))) (\<lambda>withdrawals. if withdrawals = [] then ret st
      else xrgeLoop rl cs cc withdrawals st))
     (\<lambda>e. ret st))"

section \<open>A poll\<close>

text \<open>The health gate in front of the three branches of a poll.\<close>

definition healthGate :: "'x Relayer \<Rightarrow> 'a \<Rightarrow> (('x outer proc, 'e, 'z) io_state_scheme, 'a) io \<Rightarrow> (('x outer proc, 'e, 'z) io_state_scheme, 'a) io" where
  "healthGate rl a branch = bnd (quiet (readHealth (rl_config rl) (rl_fetch rl))) (\<lambda>health.
     if bridgeHealthAllowsPayouts health then branch
     else bnd (try_catch (quiet (sendAlert (rl_config rl) (rl_fetch rl) ''bridge-degraded'')) (\<lambda>_. ret ())) (\<lambda>_. ret a))"

text \<open>The EVM branch: the feed and then the queue, which share the custody signer. The XRGE branch.\<close>

definition runEvm :: "'x Relayer \<Rightarrow> ChainSetup \<Rightarrow> 'x outer ChainClient \<Rightarrow> Stats \<Rightarrow> ('x outer proc evm_state, Stats) io" where
  "runEvm rl cs cc st = healthGate rl st (bnd (processEthWithdrawals rl cs cc st) (\<lambda>st'. bnd (processQueued rl cs cc) (\<lambda>_. ret st')))"

definition runXrge :: "'x Relayer \<Rightarrow> ChainSetup \<Rightarrow> 'x outer ChainClient \<Rightarrow> Stats \<Rightarrow> ('x outer proc xrge_state, Stats) io" where
  "runXrge rl cs cc st = healthGate rl st (processXrgeWithdrawals rl cs cc st)"

section \<open>Shutdown\<close>

datatype shutdown_exit = AlreadyStopping | ExitNow | ExitAfter int

definition shutdown :: "'x Relayer \<Rightarrow> string \<Rightarrow> bool \<Rightarrow> QueuedState \<Rightarrow> DepositWatcher \<Rightarrow> ('x outer proc, shutdown_exit) io" where
  "shutdown rl depositFile stopping queuedTxs w = (if stopping then ret AlreadyStopping else
     bnd (gets processedTxIds) (\<lambda>ids.
     bnd (outw (saveProcessedTxIds (rl_fs rl) (OBSERVE_ONLY (rl_config rl)) (PROCESSED_FILE rl) ids)) (\<lambda>_.
     bnd (if OBSERVE_ONLY (rl_config rl) then ret () else outw (saveQueuedState (rl_fs rl) (QUEUED_FILE rl) queuedTxs)) (\<lambda>_.
     bnd (outw (saveDepositState (rl_fs rl) (OBSERVE_ONLY (rl_config rl)) depositFile w)) (\<lambda>_.
     bnd (gets inFlightTxIds) (\<lambda>busy. ret (if busy \<noteq> [] then ExitAfter 15000 else ExitNow)))))))"

text \<open>In observation mode a shutdown writes nothing.\<close>

lemma shutdown_observes:
  assumes "OBSERVE_ONLY (rl_config rl)"
  shows "shutdown rl f stopping q w p = (Inr (if stopping then AlreadyStopping else if inFlightTxIds p \<noteq> [] then ExitAfter 15000 else ExitNow), p)"
  using assms by (simp add: shutdown_def saveProcessedTxIds_def saveDepositState_def outw_def io_defs)

section \<open>What the loops keep\<close>

lemma yields_quiet: "yields f Q \<Longrightarrow> yields (quiet f) Q"
  by (auto simp: yields_def quiet_def split: prod.splits)

lemma keeps_tick: "(\<And>s w. I s \<Longrightarrow> I (s\<lparr>world := w\<rparr>)) \<Longrightarrow> keeps I (quiet f)"
  by (rule triple_quiet) simp_all

lemma in_flight_keeps: "(\<And>s w. I s \<Longrightarrow> I (s\<lparr>world := w\<rparr>)) \<Longrightarrow> keeps I m \<Longrightarrow> keeps I (in_flight i signer st m)"
  unfolding in_flight_def by (intro keeps_rules keeps_tick)

lemma healthGate_keeps: "(\<And>s w. I s \<Longrightarrow> I (s\<lparr>world := w\<rparr>)) \<Longrightarrow> keeps I m \<Longrightarrow> keeps I (healthGate rl a m)"
  unfolding healthGate_def by (intro keeps_rules keeps_tick)

text \<open>What the withdrawals of a feed are owed.\<close>

definition owed_feed :: "'w EvmPayoutDeps \<Rightarrow> EthWithdrawal set \<Rightarrow> (string \<times> ExpectedRelease) set" where
  "owed_feed d F = (\<Union>raw \<in> F. owed_by d (normalizeEthWithdrawal raw))"

abbreviation eth_feed :: "'x Relayer \<Rightarrow> EthWithdrawal set \<Rightarrow> bool" where
  "eth_feed rl F \<equiv> yields (fetchEthWithdrawals (rl_config rl) (rl_fetch rl)) (\<lambda>ws. set ws \<subseteq> F)"

lemma ethLoop_keeps:
  "set raws \<subseteq> F \<Longrightarrow> keeps (evm_path (evmDeps rl cs cc) (owed_feed (evmDeps rl cs cc) F) s0) (ethLoop rl cs cc raws st)"
proof (induction raws arbitrary: st)
  case (Cons raw raws)
  let ?I = "evm_path (evmDeps rl cs cc) (owed_feed (evmDeps rl cs cc) F) s0"
  have "keeps ?I (processEvmWithdrawal (normalizeEthWithdrawal raw) (evmDeps rl cs cc))"
    using Cons.prems by (intro path_processEvmWithdrawal) (auto simp: owed_feed_def)
  then show ?case unfolding ethLoop.simps Let_def using Cons
    by (intro keeps_rules in_flight_keeps path.stable_world) auto
qed (simp add: keeps_rules)

lemma triple_over:
  assumes "keeps I m" "yields m Q" "\<And>a. Q a \<Longrightarrow> keeps I (f a)"
  shows "keeps I (bnd m f)"
  using assms by (intro triple_bnd [OF triple_yields [OF assms(1,2)]]) (auto intro: triple_guard)

lemma processEth_keeps:
  assumes "eth_feed rl F"
  shows "keeps (evm_path (evmDeps rl cs cc) (owed_feed (evmDeps rl cs cc) F) s0) (processEthWithdrawals rl cs cc st)"
proof -
  let ?I = "evm_path (evmDeps rl cs cc) (owed_feed (evmDeps rl cs cc) F) s0"
  show ?thesis unfolding processEthWithdrawals_def
    by (intro keeps_try keeps_ret triple_over [OF keeps_tick yields_quiet [OF assms]] keeps_if keeps_bnd keeps_tick path.stable_world ethLoop_keeps)
qed

lemma processQueued_keeps:
  assumes "queue_ok (evmDeps rl cs cc) owed s0"
  shows "keeps (evm_path (evmDeps rl cs cc) owed s0) (processQueued rl cs cc)"
  unfolding processQueued_def by (intro keeps_rules path_pollQueuedWithdrawals [OF assms])

lemma runEvm_keeps:
  assumes "eth_feed rl F" "queue_ok (evmDeps rl cs cc) (owed_feed (evmDeps rl cs cc) F) s0"
  shows "keeps (evm_path (evmDeps rl cs cc) (owed_feed (evmDeps rl cs cc) F) s0) (runEvm rl cs cc st)"
  unfolding runEvm_def
  by (intro healthGate_keeps path.stable_world keeps_rules processEth_keeps [OF assms(1)] processQueued_keeps [OF assms(2)])

text \<open>Between two polls anything can happen in the world.\<close>

definition evm_poll :: "'x Relayer \<Rightarrow> ChainSetup \<Rightarrow> 'x outer ChainClient \<Rightarrow> 'x outer proc \<times> Stats \<Rightarrow> 'x outer proc evm_state \<Rightarrow> 'x outer proc evm_state" where
  "evm_poll rl cs cc ws s = exec (runEvm rl cs cc (snd ws)) (s\<lparr>world := fst ws\<rparr>)"

interpretation polls: invariant_machine "evm_poll rl cs cc" "\<lambda>_. eth_feed rl F"
  "\<lambda>s. queue_ok (evmDeps rl cs cc) (owed_feed (evmDeps rl cs cc) F) s0 \<and> evm_path (evmDeps rl cs cc) (owed_feed (evmDeps rl cs cc) F) s0 s"
  for rl :: "'x Relayer" and cs cc F s0
proof
  fix s ws
  assume inv: "queue_ok (evmDeps rl cs cc) (owed_feed (evmDeps rl cs cc) F) s0 \<and> evm_path (evmDeps rl cs cc) (owed_feed (evmDeps rl cs cc) F) s0 s"
    and feed: "eth_feed rl F"
  then show "queue_ok (evmDeps rl cs cc) (owed_feed (evmDeps rl cs cc) F) s0 \<and>
      evm_path (evmDeps rl cs cc) (owed_feed (evmDeps rl cs cc) F) s0 (evm_poll rl cs cc ws s)"
    unfolding evm_poll_def by (auto intro!: keeps_exec [OF runEvm_keeps [OF feed]] path.stable_world)
qed

lemma polls_event_ok:
  assumes "eth_feed rl F" "queue_ok (evmDeps rl cs cc) (owed_feed (evmDeps rl cs cc) F) s"
    and "trace (fold (evm_poll rl cs cc) ws s) = us @ e # es @ trace s"
  shows "event_ok (evmDeps rl cs cc) (owed_feed (evmDeps rl cs cc) F) e (es @ trace s)"
proof -
  have "evm_path (evmDeps rl cs cc) (owed_feed (evmDeps rl cs cc) F) s (fold (evm_poll rl cs cc) ws s)"
    using polls.run_inv [of rl F ws cs cc s s] assms(1,2) by (simp add: list_all_iff)
  then show ?thesis by (rule path_event_ok [OF _ assms(3)])
qed

section \<open>The XRGE loop\<close>

abbreviation xrge_feed :: "'x Relayer \<Rightarrow> RawXrgeWithdrawal set \<Rightarrow> bool" where
  "xrge_feed rl F \<equiv> yields (fetchXrgeWithdrawals (rl_config rl) (rl_fetch rl)) (\<lambda>ws. set ws \<subseteq> F)"

lemma xrge_inv_world: "xrge_inv ws req s \<Longrightarrow> xrge_inv ws req (s\<lparr>world := w\<rparr>)"
  by (simp add: xrge_inv_def)

lemma observe_keeps: "(\<And>s w. I s \<Longrightarrow> I (s\<lparr>world := w\<rparr>)) \<Longrightarrow> keeps I (observeXrgeWithdrawal w deps)"
  unfolding observeXrgeWithdrawal_def by (intro keeps_rules keeps_tick)

lemma xrgeLoop_keeps:
  "set raws \<subseteq> F \<Longrightarrow> keeps (xrge_inv (normalizeXrgeWithdrawal ` F) (x_requiredConfirmations (xrgeDeps rl cs cc))) (xrgeLoop rl cs cc raws st)"
proof (induction raws arbitrary: st)
  case (Cons raw raws)
  let ?I = "xrge_inv (normalizeXrgeWithdrawal ` F) (x_requiredConfirmations (xrgeDeps rl cs cc))"
  have "keeps ?I (processXrgeWithdrawal (normalizeXrgeWithdrawal raw) (xrgeDeps rl cs cc))"
    using Cons.prems by (intro keeps_processXrgeWithdrawal) auto
  then show ?case unfolding xrgeLoop.simps Let_def using Cons
    by (intro keeps_rules in_flight_keeps observe_keeps xrge_inv_world) auto
qed (simp add: keeps_rules)

lemma runXrge_keeps:
  assumes "xrge_feed rl F"
  shows "keeps (xrge_inv (normalizeXrgeWithdrawal ` F) (x_requiredConfirmations (xrgeDeps rl cs cc))) (runXrge rl cs cc st)"
proof -
  let ?I = "xrge_inv (normalizeXrgeWithdrawal ` F) (x_requiredConfirmations (xrgeDeps rl cs cc))"
  have "keeps ?I (processXrgeWithdrawals rl cs cc st)" unfolding processXrgeWithdrawals_def
    by (intro keeps_if keeps_ret keeps_try triple_over [OF keeps_tick yields_quiet [OF assms]] xrge_inv_world xrgeLoop_keeps)
  then show ?thesis unfolding runXrge_def by (intro healthGate_keeps xrge_inv_world)
qed

definition xrge_poll :: "'x Relayer \<Rightarrow> ChainSetup \<Rightarrow> 'x outer ChainClient \<Rightarrow> 'x outer proc \<times> Stats \<Rightarrow> 'x outer proc xrge_state \<Rightarrow> 'x outer proc xrge_state" where
  "xrge_poll rl cs cc ws s = exec (runXrge rl cs cc (snd ws)) (s\<lparr>world := fst ws\<rparr>)"

interpretation xrge_polls: invariant_machine "xrge_poll rl cs cc" "\<lambda>_. xrge_feed rl F"
  "xrge_inv (normalizeXrgeWithdrawal ` F) (x_requiredConfirmations (xrgeDeps rl cs cc))" for rl :: "'x Relayer" and cs cc F
  by unfold_locales (simp add: xrge_poll_def keeps_exec [OF runXrge_keeps] xrge_inv_world)

lemma xrge_polls_event_ok:
  assumes "xrge_feed rl F" "xrge_start s" "trace (fold (xrge_poll rl cs cc) ws s) = us @ e # es"
  shows "xrge_event_ok (normalizeXrgeWithdrawal ` F) (x_requiredConfirmations (xrgeDeps rl cs cc)) es e"
proof -
  have "xrge_inv (normalizeXrgeWithdrawal ` F) (x_requiredConfirmations (xrgeDeps rl cs cc)) (fold (xrge_poll rl cs cc) ws s)"
    using assms(1,2) by (intro xrge_polls.run_inv) (simp_all add: list_all_iff xrge_inv_def xrge_start_def)
  then show ?thesis unfolding xrge_inv_def assms(3) using xrge_trace_okD by blast
qed

section \<open>Properties\<close>

text \<open>C9: The deployed loop pays only what the daemon's feed lists, and only on fresh proof. If every answer of the feed lists
  withdrawals of \<open>F\<close> and the queue the process starts with stands for such withdrawals, then in any number of polls,
  between which the world changes as it likes, a release is submitted only directly after \<open>processedL1Txs\<close> was read as
  false for its id, with no release of that id in between, never in observation mode, and it is exactly the release a
  withdrawal of \<open>F\<close> is owed.\<close>

theorem deployed_releases_are_owed:
  assumes "yields (fetchEthWithdrawals (rl_config rl) (rl_fetch rl)) (\<lambda>ws. set ws \<subseteq> F)"
    and "queue_ok (evmDeps rl cs cc) (owed_feed (evmDeps rl cs cc) F) s"
    and "trace (fold (evm_poll rl cs cc) ws s) = us @ e # es @ trace s" and "release_id e = Some i"
  shows "\<not> OBSERVE_ONLY (rl_config rl) \<and> fresh_read i (es @ trace s) \<and>
    (\<exists>raw \<in> F. \<exists>t er. (t, er) \<in> owed_by (evmDeps rl cs cc) (normalizeEthWithdrawal raw) \<and> i = rougeBridgeId (cs_viem cs) t \<and> submits (evmDeps rl cs cc) er e)"
proof -
  have ok: "event_ok (evmDeps rl cs cc) (owed_feed (evmDeps rl cs cc) F) e (es @ trace s)"
    by (rule polls_event_ok [OF assms(1-3)])
  have "dp_viem (evmDeps rl cs cc) = cs_viem cs" by (simp add: evmDeps_def evmDepsRaw_def observeGuardedDeps_def Let_def)
  moreover have "OBSERVE_ONLY (rl_config rl) \<Longrightarrow> dp_observeOnly (evmDeps rl cs cc)" by (simp add: evmDeps_def observeGuardedDeps_def)
  moreover have "\<not> benign e" using assms(4) benign_no_release by fastforce
  ultimately show ?thesis using event_ok_release [OF ok assms(4)] event_ok_observe [OF ok] unfolding owed_feed_def by auto
qed

text \<open>C11: A degraded or unreachable daemon stops the payouts. When the daemon's health answer does not allow payouts, a
  poll of either loop makes no chain or daemon call of a payout, and leaves the queue and the pending payouts as they
  are.\<close>

theorem degraded_daemon_stops_payouts:
  assumes "readHealth (rl_config rl) (rl_fetch rl) (world s) = (Inr h, p)" "\<not> bridgeHealthAllowsPayouts h"
    and "readHealth (rl_config rl) (rl_fetch rl) (world x) = (Inr h', p')" "\<not> bridgeHealthAllowsPayouts h'"
  shows "trace (exec (runEvm rl cs cc st) s) = trace s \<and> queued (exec (runEvm rl cs cc st) s) = queued s \<and>
    trace (exec (runXrge rl cs cc st) x) = trace x \<and> pendingFulfill (exec (runXrge rl cs cc st) x) = pendingFulfill x"
  using assms by (auto simp: runEvm_def runXrge_def healthGate_def exec_def quiet_def bnd_def try_catch_def ret_def split: prod.split sum.split)

text \<open>A daemon that is healthy, lists one withdrawal in each feed and accepts everything, on a chain that takes releases and never
  shows a receipt.\<close>

definition loop_withdrawal :: "jsnum JsonV" where
  "loop_withdrawal = VObj [(''tx_id'', VStr ''t1''), (''evm_address'', VStr ''0xcc''), (''amount_units'', VNum (JInt 5)),
     (''amount'', VNum (JInt 5)), (''token_symbol'', VStr ''qUSDC'')]"

definition loop_fetch :: "bool outer Fetch" where
  "loop_fetch rq = Pair (Inr \<lparr>rs_status = 200, rs_body = Inr (''{}'', Some (VObj [(''degraded'', VBool False), (''success'', VBool True),
     (''withdrawals'', VArr [loop_withdrawal])]))\<rparr>)"

definition loop_relayer :: "bool Relayer" where
  "loop_relayer = (sample_relayer (\<lambda>_. False))\<lparr>rl_fetch := loop_fetch\<rparr>"

definition loop_chain :: "bool outer ChainClient" where
  "loop_chain = \<lparr>cc_getBlockNumber = Pair (Inr 100), cc_getTransactionCount = (\<lambda>_. Pair (Inr 7)), cc_getBalance = (\<lambda>_. Pair (Inr 0)),
     cc_getLogs = (\<lambda>_ _ _ _. Pair (Inr [])), cc_processedL1Txs = (\<lambda>_ _. Pair (Inr False)),
     cc_timelockQueue = (\<lambda>_ _ _. Pair (Inr [])), cc_waitForTransactionReceipt = (\<lambda>_ _. Pair (Inl ''timeout'')),
     cc_getTransactionReceipt = (\<lambda>_. Pair (Inl ''timeout'')), cc_releaseETH = (\<lambda>_ _ _ _ _. Pair (Inl ''refused'')),
     cc_releaseERC20 = (\<lambda>_ _ _ _ _ _. Pair (Inr ''0x77'')), cc_vaultRelease = (\<lambda>_ _ _ _ _. Pair (Inr ''0x78'')),
     cc_sleep = (\<lambda>_. Pair (Inr ())), cc_now = Pair (Inr ''now'')\<rparr>"

definition loop_setup :: ChainSetup where
  "loop_setup = sample_setup\<lparr>cs_viem := demo_viem, cs_bridge := ''0xbb'', cs_vault := ''0x22''\<rparr>"

definition no_stats :: Stats where
  "no_stats = \<lparr>ethFulfilled = 0, ethQueued = 0, ethAmbiguous = 0, ethRefunded = 0, ethFailed = 0, ethSkipped = 0, xrgeFulfilled = 0, xrgeFailed = 0\<rparr>"

definition loop_start :: "bool outer proc evm_state" where
  "loop_start = \<lparr>world = sample_world, trace = [], queued = []\<rparr>"

lemma loop_feed: "yields (fetchEthWithdrawals (rl_config loop_relayer) (rl_fetch loop_relayer)) (\<lambda>ws. set ws \<subseteq> {eth_withdrawal loop_withdrawal})"
  by (auto simp: fetchEthWithdrawals_def loop_relayer_def loop_fetch_def yields_def io_defs outw_def res_ok_def res_json_def withdrawal_items_def
      prop_or_throw_def split: if_splits)

lemma loop_run: "trace (fold (evm_poll loop_relayer loop_setup loop_chain) [(sample_world, no_stats)] loop_start) =
   [EvReportFailure ''t1'' ''receipt wait failed for 0x77: timeout'' (Inr (False, 0)), EvProcessed ''0xa1'' (Inr False),
    EvWaitReceipt ''0x77'' (Inl ''timeout'')] @
   EvReleaseERC20 ''0x036CbD53842c5426634e7929541eC2318f3dCF7e'' ''0xcc'' 5 ''0xa1'' 7 (Inr ''0x77'') # [EvProcessed ''0xa1'' (Inr False)] @ trace loop_start"
  by code_simp

theorem deployed_releases_are_owed_witness:
  "\<exists>raw \<in> {eth_withdrawal loop_withdrawal}. \<exists>t er. (t, er) \<in> owed_by (evmDeps loop_relayer loop_setup loop_chain) (normalizeEthWithdrawal raw) \<and>
     ''0xa1'' = rougeBridgeId (cs_viem loop_setup) t \<and>
     submits (evmDeps loop_relayer loop_setup loop_chain) er (EvReleaseERC20 ''0x036CbD53842c5426634e7929541eC2318f3dCF7e'' ''0xcc'' 5 ''0xa1'' 7 (Inr ''0x77''))"
proof -
  have queue: "queue_ok d owed loop_start" for d owed by (simp add: loop_start_def all_entries_def)
  show ?thesis using deployed_releases_are_owed [OF loop_feed queue loop_run, of "''0xa1''"] by simp
qed

theorem degraded_daemon_stops_payouts_witness:
  "trace (exec (runEvm (sample_relayer (\<lambda>_. False)) loop_setup loop_chain no_stats) loop_start) = trace loop_start"
proof -
  let ?x = "\<lparr>world = sample_world, trace = [], pendingFulfill = []\<rparr> :: bool outer proc xrge_state"
  have "readHealth (rl_config (sample_relayer (\<lambda>_. False))) (rl_fetch (sample_relayer (\<lambda>_. False))) sample_world = (Inr None, sample_world)"
    by (simp add: readHealth_def sample_relayer_def down_fetch_def io_defs outw_def sample_world_def)
  then show ?thesis
    using degraded_daemon_stops_payouts [of "sample_relayer (\<lambda>_. False)" loop_start None sample_world ?x None sample_world loop_setup loop_chain no_stats]
    by (simp add: bridgeHealthAllowsPayouts_def loop_start_def)
qed

text \<open>C10: The deployed XRGE loop pays only what the daemon's feed lists. If every answer of the feed lists withdrawals of \<open>F\<close>, then
  in any number of polls each release of the vault comes directly after a read that the id is not processed, and pays
  the address and the exact amount of a withdrawal of \<open>F\<close> with that id; and a payout is reported to the daemon only
  directly after reading a head that puts it at the required depth, for a payout of \<open>F\<close> that was seen to succeed.\<close>

theorem deployed_xrge_loop_is_safe:
  assumes "yields (fetchXrgeWithdrawals (rl_config rl) (rl_fetch rl)) (\<lambda>ws. set ws \<subseteq> F)" "xrge_start s"
    and "trace (fold (xrge_poll rl cs cc) ws s) = us @ e # es"
  shows "(\<forall>to wei i r. e = XRelease to wei i r \<longrightarrow> (\<exists>t. es = XProcessed i (Inr False) # t) \<and>
      (\<exists>raw \<in> F. let w = normalizeXrgeWithdrawal raw in xw_tx_id w = i \<and> xw_evm_address w = to \<and> xrgeToWeiExact (xw_amount w) = Inr wei)) \<and>
    (\<forall>i h r. e = XFulfill i h r \<longrightarrow> (\<exists>p head t. es = XHead (Inr head) # t \<and> kp_txHash p = h \<and>
      \<not> num_less (JInt (payoutDepth head p)) (XRGE_FULFILL_CONFIRMATIONS (cs_env cs)) \<and> xrge_known (normalizeXrgeWithdrawal ` F) es i p))"
  using xrge_polls_event_ok [OF assms] by (auto simp: xrgeDeps_def Let_def) blast

definition loop_xstart :: "bool outer proc xrge_state" where
  "loop_xstart = \<lparr>world = sample_world, trace = [], pendingFulfill = []\<rparr>"

lemma loop_xfetch: "fetchXrgeWithdrawals (rl_config loop_relayer) loop_fetch p = (Inr [raw_xrge loop_withdrawal], p)"
  by (simp add: fetchXrgeWithdrawals_def loop_fetch_def io_defs outw_def res_ok_def res_json_def withdrawal_items_def prop_or_throw_def)

lemma loop_healthy: "readHealth (rl_config loop_relayer) loop_fetch p = (Inr (Some \<lparr>bh_status = 200, bh_degraded = DBool False\<rparr>), p)"
  by (simp add: readHealth_def loop_fetch_def io_defs outw_def json_or_empty_def res_json_def)

lemma loop_xw: "normalizeXrgeWithdrawal (raw_xrge loop_withdrawal) = \<lparr>xw_tx_id = ''t1'', xw_evm_address = ''0xcc'', xw_amount = JInt 5\<rparr>"
  by code_simp

lemma loop_vault: "nonceState p = [] \<Longrightarrow> vaultRelease loop_relayer loop_setup loop_chain to wei i p = (Inr ''0x78'', p\<lparr>nonceState := [(''0xbb'', 8)]\<rparr>)"
  by (simp add: vaultRelease_def refuse_in_observation_def loop_relayer_def sample_relayer_def sample_api_def io_defs getNextNonce_def loop_chain_def loop_setup_def
     outw_def sample_setup_def map_get_def Let_def toLowerCase_def)

lemma loop_xrun: "trace (fold (xrge_poll loop_relayer loop_setup loop_chain) [(sample_world, no_stats)] loop_xstart) =
    [XReceipt ''0x78'' (Inl ''timeout'')] @ XRelease ''0xcc'' (5 * 10 ^ 18) ''t1'' (Inr ''0x78'') # [XProcessed ''t1'' (Inr False)]"
proof -
  have cfg: "rl_fetch loop_relayer = loop_fetch" "isShuttingDown loop_relayer = (\<lambda>_. False)" "\<not> OBSERVE_ONLY (rl_config loop_relayer)" "cs_vault loop_setup = ''0x22''"
    by (simp_all add: loop_relayer_def sample_relayer_def sample_api_def loop_setup_def)
  show ?thesis
    by (simp add: cfg xrge_poll_def exec_def runXrge_def healthGate_def quiet_def bnd_def loop_healthy bridgeHealthAllowsPayouts_def
        processXrgeWithdrawals_def try_catch_def loop_xfetch loop_xw Let_def gets_def ret_def busy_or_done_def in_flight_def inFlight_add_def inFlight_delete_def modify_def
        loop_xstart_def processXrgeWithdrawal_def attempt_def call_def xrgeDeps_def releaseXrge_def lift_sum_def xrgeToWeiExact_def loop_vault
        awaitXrgeReceipt_def vaultReceipt_def outw_def sample_world_def js_add_def loop_chain_def [THEN arg_cong [of _ _ cc_processedL1Txs]] loop_chain_def [THEN arg_cong [of _ _ cc_waitForTransactionReceipt]])
qed
theorem deployed_xrge_loop_is_safe_witness:
  "\<exists>raw \<in> {raw_xrge loop_withdrawal}. let w = normalizeXrgeWithdrawal raw in
     xw_tx_id w = ''t1'' \<and> xw_evm_address w = ''0xcc'' \<and> xrgeToWeiExact (xw_amount w) = Inr (5 * 10 ^ 18)"
proof -
  have "rl_fetch loop_relayer = loop_fetch" by (simp add: loop_relayer_def)
  then have feed: "yields (fetchXrgeWithdrawals (rl_config loop_relayer) (rl_fetch loop_relayer)) (\<lambda>ws. set ws \<subseteq> {raw_xrge loop_withdrawal})"
    by (simp add: yields_def loop_xfetch)
  have start: "xrge_start loop_xstart" by (simp add: xrge_start_def loop_xstart_def)
  show ?thesis using conjunct1 [OF deployed_xrge_loop_is_safe [OF feed start loop_xrun]] by simp
qed

end
