(* ===== verification/Lossless_Json.thy ===== *)
theory Lossless_Json
  imports Js_Prelude
begin

text \<open>
  JSON as \<open>packages/core/src/finality-verify.ts\<close> reads and writes it: \<open>parseJsonLossless\<close>, which
  keeps every number as its source text and rejects duplicate keys, and \<open>stringifyLossless\<close>; with
  the part of \<open>JSON.parse\<close> and \<open>JSON.stringify\<close> they call. The theory proves that parsing undoes
  printing, for every layout a printer may choose, and that the parser never runs out of fuel.

  Here a JavaScript string is the list of its UTF-16 code units (\<open>jstr\<close>), so nothing is assumed
  about the characters of a text. Positions in the input are its suffixes; the position in an
  error message is left out.
\<close>

type_synonym jstr = "nat list"

definition js :: "string \<Rightarrow> jstr" where
  "js s = map of_char s"

text \<open>A number is its source text (\<open>JsonNumber\<close>); an object is the list of its properties in the order
  they were created.\<close>

datatype LosslessJson = JNull | JBool bool | JString jstr | JsonNumber (raw: jstr)
  | JArray "LosslessJson list" | JObject "(jstr \<times> LosslessJson) list"

section \<open>Strings in JSON\<close>

definition json_ws :: "nat \<Rightarrow> bool" where
  "json_ws c = (c = 32 \<or> c = 9 \<or> c = 10 \<or> c = 13)"

definition skip_ws :: "jstr \<Rightarrow> jstr" where
  "skip_ws t = dropWhile json_ws t"

definition hex_digit :: "nat \<Rightarrow> nat" where
  "hex_digit d = (if d < 10 then 48 + d else 87 + d)"

definition hex_value :: "nat \<Rightarrow> nat option" where
  "hex_value c = (if 48 \<le> c \<and> c \<le> 57 then Some (c - 48)
     else if 97 \<le> c \<and> c \<le> 102 then Some (c - 87)
     else if 65 \<le> c \<and> c \<le> 70 then Some (c - 55) else None)"

definition hex4 :: "nat \<Rightarrow> jstr" where
  "hex4 u = [hex_digit (u div 4096 mod 16), hex_digit (u div 256 mod 16), hex_digit (u div 16 mod 16), hex_digit (u mod 16)]"

definition unhex4 :: "jstr \<Rightarrow> nat option" where
  "unhex4 t = (case map hex_value t of
      [Some a, Some b, Some c, Some d] \<Rightarrow> Some (4096 * a + 256 * b + 16 * c + d) | _ \<Rightarrow> None)"

definition high_surrogate :: "nat \<Rightarrow> bool" where
  "high_surrogate u = (55296 \<le> u \<and> u \<le> 56319)"

definition low_surrogate :: "nat \<Rightarrow> bool" where
  "low_surrogate u = (56320 \<le> u \<and> u \<le> 57343)"

text \<open>One code unit as \<open>JSON.stringify\<close> writes it when it is not half of a surrogate pair.\<close>

definition quote_unit :: "nat \<Rightarrow> jstr" where
  "quote_unit u =
     (if u = 8 then [92, 98] else if u = 9 then [92, 116] else if u = 10 then [92, 110]
      else if u = 12 then [92, 102] else if u = 13 then [92, 114]
      else if u = 34 then [92, 34] else if u = 92 then [92, 92]
      else if u < 32 \<or> high_surrogate u \<or> low_surrogate u then [92, 117] @ hex4 u else [u])"

fun quote_units :: "jstr \<Rightarrow> jstr" where
  "quote_units [] = []"
| "quote_units [u] = quote_unit u"
| "quote_units (u # v # us) =
     (if high_surrogate u \<and> low_surrogate v then u # v # quote_units us
      else quote_unit u @ quote_units (v # us))"

definition quoteJson :: "jstr \<Rightarrow> jstr" where
  "quoteJson s = 34 # quote_units s @ [34]"

text \<open>\<open>JSON.parse\<close> of a string literal, after the opening quote: the string when the closing quote ends
  the text.\<close>

definition simple_escape :: "nat \<Rightarrow> nat option" where
  "simple_escape c = (if c = 34 \<or> c = 92 \<or> c = 47 then Some c else if c = 98 then Some 8 else if c = 102 then Some 12
     else if c = 110 then Some 10 else if c = 114 then Some 13 else if c = 116 then Some 9 else None)"

fun unquote_units :: "jstr \<Rightarrow> jstr option" where
  "unquote_units [] = None"
| "unquote_units (c # t) =
     (if c = 34 then (if t = [] then Some [] else None)
      else if c = 92 then
        (case t of [] \<Rightarrow> None
         | e # t' \<Rightarrow>
           if e = 117 then (case unhex4 (take 4 t') of None \<Rightarrow> None
               | Some u \<Rightarrow> map_option ((#) u) (unquote_units (drop 4 t')))
           else (case simple_escape e of None \<Rightarrow> None | Some u \<Rightarrow> map_option ((#) u) (unquote_units t')))
      else if c < 32 then None
      else map_option ((#) c) (unquote_units t))"

section \<open>The parser\<close>

datatype parse_error = ControlCharacter | Unterminated | BadEscape | TooDeep | ExpectedKey | DuplicateKey jstr
  | ExpectedColon | ExpectedCommaBrace | ExpectedCommaBracket | UnexpectedToken | TrailingData | OutOfFuel

text \<open>The scan for the closing quote in \<open>str\<close>: the literal's text after the opening quote, and the rest.\<close>

fun literal_end :: "jstr \<Rightarrow> parse_error + jstr \<times> jstr" where
  "literal_end [] = Inl Unterminated"
| "literal_end (c # t) =
     (if c = 34 then Inr ([34], t)
      else if c = 92 then (case t of [] \<Rightarrow> Inl Unterminated
        | e # t' \<Rightarrow> (case literal_end t' of Inl x \<Rightarrow> Inl x | Inr (l, r) \<Rightarrow> Inr (92 # e # l, r)))
      else if c < 32 then Inl ControlCharacter
      else (case literal_end t of Inl x \<Rightarrow> Inl x | Inr (l, r) \<Rightarrow> Inr (c # l, r)))"

text \<open>\<open>str\<close>, called with the input at the opening quote.\<close>

definition json_str :: "jstr \<Rightarrow> parse_error + jstr \<times> jstr" where
  "json_str t = (case literal_end (tl t) of Inl x \<Rightarrow> Inl x
     | Inr (l, r) \<Rightarrow> (case unquote_units l of None \<Rightarrow> Inl BadEscape | Some s \<Rightarrow> Inr (s, r)))"

definition is_dig :: "nat \<Rightarrow> bool" where
  "is_dig c = (48 \<le> c \<and> c \<le> 57)"

text \<open>The match of \<open>NUM_RE\<close> at the start of the text: optional parts are taken when they match.\<close>

definition num_int :: "jstr \<Rightarrow> (jstr \<times> jstr) option" where
  "num_int t = (case t of [] \<Rightarrow> None
     | c # r \<Rightarrow> if c = 48 then Some ([48], r)
                else if is_dig c then Some (c # takeWhile is_dig r, dropWhile is_dig r) else None)"

definition num_frac :: "jstr \<Rightarrow> jstr \<times> jstr" where
  "num_frac t = (case t of [] \<Rightarrow> ([], [])
     | c # r \<Rightarrow> if c = 46 \<and> takeWhile is_dig r \<noteq> [] then (c # takeWhile is_dig r, dropWhile is_dig r) else ([], t))"

definition num_exp :: "jstr \<Rightarrow> jstr \<times> jstr" where
  "num_exp t = (case t of [] \<Rightarrow> ([], [])
     | c # r \<Rightarrow> if c = 101 \<or> c = 69 then
         (let sg = (if r \<noteq> [] \<and> (hd r = 43 \<or> hd r = 45) then [hd r] else []); r' = drop (length sg) r in
          if takeWhile is_dig r' \<noteq> [] then (c # sg @ takeWhile is_dig r', dropWhile is_dig r') else ([], t))
       else ([], t))"

definition num_match :: "jstr \<Rightarrow> (jstr \<times> jstr) option" where
  "num_match t =
     (let sg = (if t \<noteq> [] \<and> hd t = 45 then [45] else []) in
      case num_int (drop (length sg) t) of None \<Rightarrow> None
      | Some (i, r1) \<Rightarrow> (case num_frac r1 of (f, r2) \<Rightarrow> (case num_exp r2 of (x, r3) \<Rightarrow> Some (sg @ i @ f @ x, r3))))"

text \<open>
  \<open>val\<close> and the two loops inside it, as one recursion: a call parses a value at a depth, or continues
  an object or an array with what it has so far. Every call uses one unit of fuel.
\<close>

datatype json_call = Val nat jstr | Members nat "(jstr \<times> LosslessJson) list" jstr | Elems nat "LosslessJson list" jstr

type_synonym json_result = "parse_error + LosslessJson \<times> jstr"

definition val_body :: "(json_call \<Rightarrow> json_result) \<Rightarrow> nat \<Rightarrow> jstr \<Rightarrow> json_result" where
  "val_body self depth t0 =
     (if depth > 256 then Inl TooDeep
      else let t = skip_ws t0 in
      if take 1 t = [123] then
        (let u = skip_ws (tl t) in if take 1 u = [125] then Inr (JObject [], tl u) else self (Members depth [] u))
      else if take 1 t = [91] then
        (let u = skip_ws (tl t) in if take 1 u = [93] then Inr (JArray [], tl u) else self (Elems depth [] u))
      else if take 1 t = [34] then (case json_str t of Inl x \<Rightarrow> Inl x | Inr (s, r) \<Rightarrow> Inr (JString s, r))
      else if take 4 t = js ''true'' then Inr (JBool True, drop 4 t)
      else if take 5 t = js ''false'' then Inr (JBool False, drop 5 t)
      else if take 4 t = js ''null'' then Inr (JNull, drop 4 t)
      else (case num_match t of None \<Rightarrow> Inl UnexpectedToken | Some (x, r) \<Rightarrow> Inr (JsonNumber x, r)))"

definition members_body ::
  "(json_call \<Rightarrow> json_result) \<Rightarrow> nat \<Rightarrow> (jstr \<times> LosslessJson) list \<Rightarrow> jstr \<Rightarrow> json_result" where
  "members_body self depth o0 t0 =
     (let t = skip_ws t0 in
      if take 1 t \<noteq> [34] then Inl ExpectedKey
      else case json_str t of Inl x \<Rightarrow> Inl x
      | Inr (k, r) \<Rightarrow>
        if k \<in> fst ` set o0 then Inl (DuplicateKey k)
        else let r1 = skip_ws r in
        if take 1 r1 \<noteq> [58] then Inl ExpectedColon
        else case self (Val (depth + 1) (tl r1)) of Inl x \<Rightarrow> Inl x
        | Inr (v, r2) \<Rightarrow>
          let r3 = skip_ws r2 in
          if take 1 r3 = [44] then self (Members depth (o0 @ [(k, v)]) (tl r3))
          else if take 1 r3 = [125] then Inr (JObject (o0 @ [(k, v)]), tl r3)
          else Inl ExpectedCommaBrace)"

definition elems_body ::
  "(json_call \<Rightarrow> json_result) \<Rightarrow> nat \<Rightarrow> LosslessJson list \<Rightarrow> jstr \<Rightarrow> json_result" where
  "elems_body self depth a t =
     (case self (Val (depth + 1) t) of Inl x \<Rightarrow> Inl x
      | Inr (v, r) \<Rightarrow>
        let r1 = skip_ws r in
        if take 1 r1 = [44] then self (Elems depth (a @ [v]) (tl r1))
        else if take 1 r1 = [93] then Inr (JArray (a @ [v]), tl r1)
        else Inl ExpectedCommaBracket)"

fun call_body :: "(json_call \<Rightarrow> json_result) \<Rightarrow> json_call \<Rightarrow> json_result" where
  "call_body self (Val depth t) = val_body self depth t"
| "call_body self (Members depth o0 t) = members_body self depth o0 t"
| "call_body self (Elems depth a t) = elems_body self depth a t"

primrec json_parse :: "nat \<Rightarrow> json_call \<Rightarrow> json_result" where
  "json_parse 0 = (\<lambda>c. Inl OutOfFuel)"
| "json_parse (Suc n) = call_body (json_parse n)"

definition parseJsonLossless :: "jstr \<Rightarrow> parse_error + LosslessJson" where
  "parseJsonLossless text =
     (case json_parse (2 * length text + 1) (Val 0 text) of Inl x \<Rightarrow> Inl x
      | Inr (v, r) \<Rightarrow> if skip_ws r \<noteq> [] then Inl TrailingData else Inr v)"

section \<open>The printer\<close>

definition joined :: "jstr \<Rightarrow> jstr list \<Rightarrow> jstr" where
  "joined sep xs = (case xs of [] \<Rightarrow> [] | y # ys \<Rightarrow> y @ concat (map (\<lambda>z. sep @ z) ys))"

text \<open>The order of \<open>Object.keys\<close>: array indices ascending, then the other keys in creation order.\<close>

definition dec_units :: "jstr \<Rightarrow> nat" where
  "dec_units k = foldl (\<lambda>a c. 10 * a + (c - 48)) 0 k"

definition array_index :: "jstr \<Rightarrow> bool" where
  "array_index k = (k = [48] \<or> k \<noteq> [] \<and> hd k \<noteq> 48 \<and> list_all is_dig k \<and> dec_units k < 4294967295)"

definition own_props :: "(jstr \<times> 'a) list \<Rightarrow> (jstr \<times> 'a) list" where
  "own_props kvs = sort_key (\<lambda>kv. dec_units (fst kv)) (filter (\<lambda>kv. array_index (fst kv)) kvs) @
     filter (\<lambda>kv. \<not> array_index (fst kv)) kvs"

fun stringifyLossless :: "LosslessJson \<Rightarrow> jstr" where
  "stringifyLossless JNull = js ''null''"
| "stringifyLossless (JsonNumber x) = x"
| "stringifyLossless (JBool b) = (if b then js ''true'' else js ''false'')"
| "stringifyLossless (JString s) = quoteJson s"
| "stringifyLossless (JArray vs) = [91] @ joined [44] (map stringifyLossless vs) @ [93]"
| "stringifyLossless (JObject kvs) =
     [123] @ joined [44] (map (\<lambda>kt. quoteJson (fst kt) @ [58] @ snd kt)
       (own_props (map (\<lambda>kv. (fst kv, stringifyLossless (snd kv))) kvs))) @ [125]"

section \<open>Strings survive quoting\<close>

definition units :: "jstr \<Rightarrow> bool" where
  "units s = list_all (\<lambda>u. u < 65536) s"

lemma units_Cons [simp]: "units (u # s) \<longleftrightarrow> u < 65536 \<and> units s" "units []"
  by (simp_all add: units_def)

lemma hex_value_digit: "d < 16 \<Longrightarrow> hex_value (hex_digit d) = Some d"
  by (simp add: hex_value_def hex_digit_def)

lemma hex_digit_bounds: "d < 16 \<Longrightarrow> 48 \<le> hex_digit d \<and> hex_digit d \<le> 102 \<and> hex_digit d \<noteq> 92"
  by (auto simp: hex_digit_def)

lemma unhex4_hex4: "u < 65536 \<Longrightarrow> unhex4 (hex4 u) = Some u"
proof -
  assume u: "u < 65536"
  have "4096 * (u div 4096) + 256 * (u div 256 mod 16) + 16 * (u div 16 mod 16) + u mod 16 = u"
  proof -
    have step: "n = 16 * (n div 16) + n mod 16" for n :: nat by simp
    have "u div 16 div 16 = u div 256" "u div 256 div 16 = u div 4096" by (simp_all add: div_mult2_eq [symmetric])
    moreover have "u div 4096 mod 16 = u div 4096" using u by (simp add: div_less_iff_less_mult)
    ultimately show ?thesis using step [of u] step [of "u div 16"] step [of "u div 256"] by linarith
  qed
  then show ?thesis using u by (simp add: unhex4_def hex4_def hex_value_digit div_less_iff_less_mult)
qed

lemma hex4_length: "length (hex4 u) = 4"
  by (simp add: hex4_def)

lemma unquote_hex4: "u < 65536 \<Longrightarrow> unquote_units (92 # 117 # hex4 u @ t) = map_option ((#) u) (unquote_units t)"
  by (simp add: unhex4_hex4 hex4_length)

lemma unquote_unit: "u < 65536 \<Longrightarrow> unquote_units (quote_unit u @ t) = map_option ((#) u) (unquote_units t)"
  using unquote_hex4 [of u t] by (auto simp: quote_unit_def simple_escape_def)

lemma unquote_plain: "32 \<le> u \<Longrightarrow> u \<noteq> 34 \<Longrightarrow> u \<noteq> 92 \<Longrightarrow> unquote_units (u # t) = map_option ((#) u) (unquote_units t)"
  by simp

lemma surrogate_plain: "high_surrogate u \<or> low_surrogate u \<Longrightarrow> 32 \<le> u \<and> u \<noteq> 34 \<and> u \<noteq> 92"
  by (auto simp: high_surrogate_def low_surrogate_def)

lemma unquote_quote: "units s \<Longrightarrow> unquote_units (quote_units s @ [34]) = Some s"
proof (induction s rule: quote_units.induct)
  case (3 u v us)
  show ?case
  proof (cases "high_surrogate u \<and> low_surrogate v")
    case True
    with 3 surrogate_plain show ?thesis by (simp del: unquote_units.simps add: unquote_plain)
  next
    case False
    then have "quote_units (u # v # us) = quote_unit u @ quote_units (v # us)" by auto
    with 3 False show ?thesis by (simp del: unquote_units.simps quote_units.simps add: unquote_unit)
  qed
next
  case (2 u)
  then show ?case using unquote_unit [of u "[34]"] by simp
qed simp

abbreviation prepend :: "jstr \<Rightarrow> parse_error + jstr \<times> jstr \<Rightarrow> parse_error + jstr \<times> jstr" where
  "prepend p x \<equiv> (case x of Inl e \<Rightarrow> Inl e | Inr (l, r) \<Rightarrow> Inr (p @ l, r))"

lemma literal_end_plain: "32 \<le> c \<Longrightarrow> c \<noteq> 34 \<Longrightarrow> c \<noteq> 92 \<Longrightarrow> literal_end (c # t) = prepend [c] (literal_end t)"
  by (simp split: sum.splits prod.splits)

lemma literal_end_plains:
  "list_all (\<lambda>c. 32 \<le> c \<and> c \<noteq> 34 \<and> c \<noteq> 92) p \<Longrightarrow> literal_end (p @ t) = prepend p (literal_end t)"
proof (induction p)
  case Nil
  show ?case by (simp split: sum.splits prod.splits)
next
  case (Cons c p)
  then show ?case by (cases "literal_end t") (auto simp: literal_end_plain simp del: literal_end.simps)
qed

lemma hex4_plain: "list_all (\<lambda>c. 32 \<le> c \<and> c \<noteq> 34 \<and> c \<noteq> 92) (hex4 u)"
  by (auto simp: hex4_def hex_digit_def)

lemmas literal_end_hex4 = literal_end_plains [OF hex4_plain]

lemma literal_end_unit: "literal_end (quote_unit u @ t) = prepend (quote_unit u) (literal_end t)"
proof -
  have "literal_end (92 # e # t') = prepend [92, e] (literal_end t')" for e t'
    by (simp split: sum.splits prod.splits)
  then show ?thesis
    by (cases "literal_end t") (auto simp: quote_unit_def literal_end_plain literal_end_hex4 simp del: literal_end.simps)
qed

lemma literal_end_quote: "literal_end (quote_units s @ 34 # t) = Inr (quote_units s @ [34], t)"
proof (induction s rule: quote_units.induct)
  case (2 u)
  then show ?case by (simp add: literal_end_unit del: literal_end.simps) simp
next
  case (3 u v us)
  show ?case
  proof (cases "high_surrogate u \<and> low_surrogate v")
    case True
    with 3 surrogate_plain show ?thesis by (simp del: literal_end.simps add: literal_end_plain)
  next
    case False
    then have "quote_units (u # v # us) = quote_unit u @ quote_units (v # us)" by auto
    with 3 False show ?thesis by (simp del: literal_end.simps quote_units.simps add: literal_end_unit)
  qed
qed simp

text \<open>A quoted string reads back, whatever follows it.\<close>

lemma json_str_quote: "units s \<Longrightarrow> json_str (quoteJson s @ t) = Inr (s, t)"
  by (simp add: json_str_def quoteJson_def literal_end_quote unquote_quote)

section \<open>Numbers\<close>

definition num_token :: "jstr \<Rightarrow> bool" where
  "num_token x = (num_match x = Some (x, []))"

definition stop :: "jstr \<Rightarrow> bool" where
  "stop t = (t = [] \<or> hd t = 44 \<or> hd t = 93 \<or> hd t = 125 \<or> json_ws (hd t))"

lemma stop_Cons:
  assumes "stop (c # t)"
  shows "\<not> is_dig c" "c \<noteq> 46" "c \<noteq> 101" "c \<noteq> 69" "c \<noteq> 43" "c \<noteq> 45"
  using assms by (auto simp: stop_def is_dig_def json_ws_def)

lemma takeWhile_stop: "stop t \<Longrightarrow> takeWhile is_dig (x @ t) = takeWhile is_dig x"
  by (cases t; induction x) (simp_all add: stop_Cons)

lemma dropWhile_stop: "stop t \<Longrightarrow> dropWhile is_dig (x @ t) = dropWhile is_dig x @ t"
  by (cases t; induction x) (simp_all add: stop_Cons)

lemma num_int_stop: "num_int x = Some (i, r) \<Longrightarrow> stop t \<Longrightarrow> num_int (x @ t) = Some (i, r @ t)"
  by (cases x) (auto simp: num_int_def takeWhile_stop dropWhile_stop split: if_splits)

lemma num_frac_stop: "stop t \<Longrightarrow> num_frac (x @ t) = (fst (num_frac x), snd (num_frac x) @ t)"
  by (cases x; cases t) (simp_all add: num_frac_def takeWhile_stop dropWhile_stop stop_Cons del: takeWhile_eq_Nil_iff)

lemma num_exp_stop: "stop t \<Longrightarrow> num_exp (x @ t) = (fst (num_exp x), snd (num_exp x) @ t)"
proof (cases x)
  case Nil
  assume "stop t"
  with Nil show ?thesis by (cases t) (simp_all add: num_exp_def stop_Cons)
next
  case (Cons c r)
  assume t: "stop t"
  define sg where "sg = (if r \<noteq> [] \<and> (hd r = 43 \<or> hd r = 45) then [hd r] else [])"
  have "(if r @ t \<noteq> [] \<and> (hd (r @ t) = 43 \<or> hd (r @ t) = 45) then [hd (r @ t)] else []) = sg"
    using t by (cases r; cases t) (simp_all add: sg_def stop_Cons)
  moreover have "drop (length sg) (r @ t) = drop (length sg) r @ t"
    by (cases r) (auto simp: sg_def)
  ultimately show ?thesis
    using t by (simp add: Cons num_exp_def takeWhile_stop dropWhile_stop Let_def sg_def [symmetric] del: takeWhile_eq_Nil_iff)
qed

lemma num_token_stop:
  assumes "num_token x" and "stop t"
  shows "num_match (x @ t) = Some (x, t)"
proof -
  define sg where "sg = (if x \<noteq> [] \<and> hd x = 45 then [45] else [] :: jstr)"
  obtain i r1 where i: "num_int (drop (length sg) x) = Some (i, r1)"
    and x: "sg @ i @ fst (num_frac r1) @ fst (num_exp (snd (num_frac r1))) = x" and e: "snd (num_exp (snd (num_frac r1))) = []"
    using assms(1) by (auto simp: num_token_def num_match_def sg_def [symmetric] Let_def split: option.splits prod.splits)
  have ne: "x \<noteq> []" using i by (auto simp: num_int_def sg_def)
  then have "(if x @ t \<noteq> [] \<and> hd (x @ t) = 45 then [45] else []) = sg" by (simp add: sg_def)
  moreover have "drop (length sg) (x @ t) = drop (length sg) x @ t" using ne by (cases x) (simp_all add: sg_def)
  ultimately show ?thesis
    using i x e assms(2) by (simp add: num_match_def Let_def num_int_stop num_frac_stop num_exp_stop split: prod.splits)
qed

lemma num_token_hd: "num_token x \<Longrightarrow> x \<noteq> [] \<and> (hd x = 45 \<or> is_dig (hd x))"
  by (cases x) (auto simp: num_token_def num_match_def num_int_def is_dig_def Let_def split: if_splits option.splits list.splits)

section \<open>Fuel\<close>

fun call_input :: "json_call \<Rightarrow> jstr" where
  "call_input (Val d t) = t" | "call_input (Members d o0 t) = t" | "call_input (Elems d a t) = t"

fun call_need :: "json_call \<Rightarrow> nat" where
  "call_need (Val d t) = 2 * length t + 1" | "call_need (Members d o0 t) = 2 * length t + 2"
| "call_need (Elems d a t) = 2 * length t + 2"

lemma length_skip_ws: "length (skip_ws t) \<le> length t"
  unfolding skip_ws_def by (rule length_dropWhile_le)

lemma literal_end_length: "literal_end t = Inr (l, r) \<Longrightarrow> length r < length t"
  by (induction t arbitrary: l rule: literal_end.induct) (auto split: if_splits sum.splits list.splits prod.splits)

lemma json_str_length: "json_str t = Inr (s, r) \<Longrightarrow> length r < length t"
  by (cases t) (auto simp: json_str_def dest!: literal_end_length split: sum.splits prod.splits option.splits)

lemma num_match_length: "num_match t = Some (x, r) \<Longrightarrow> length r < length t"
proof -
  have f: "length (snd (num_frac r1)) \<le> length r1" for r1
    using length_dropWhile_le [of is_dig] by (auto simp: num_frac_def le_SucI split: list.splits)
  have e: "length (snd (num_exp r1)) \<le> length r1" for r1
    unfolding num_exp_def Let_def
    by (auto split: list.splits intro!: le_SucI order_trans [OF length_dropWhile_le])
  have i: "num_int t' = Some (a, r1) \<Longrightarrow> length r1 < length t'" for t' a r1
    using length_dropWhile_le [of is_dig] by (auto simp: num_int_def less_Suc_eq_le split: list.splits if_splits)
  assume "num_match t = Some (x, r)"
  then obtain a r1 k where "num_int (drop k t) = Some (a, r1)" "r = snd (num_exp (snd (num_frac r1)))"
    by (auto simp: num_match_def Let_def split: option.splits prod.splits)
  with i [OF this(1)] f [of r1] e [of "snd (num_frac r1)"] show ?thesis by simp
qed

lemma take1_length: "take 1 t = [c] \<Longrightarrow> length (tl t) < length t"
  by (cases t) auto

text \<open>A successful call leaves a shorter input.\<close>

definition shrinks :: "(json_call \<Rightarrow> json_result) \<Rightarrow> bool" where
  "shrinks f = (\<forall>c v r. f c = Inr (v, r) \<longrightarrow> length r < length (call_input c))"

lemma shrinksD: "shrinks f \<Longrightarrow> f c = Inr (v, r) \<Longrightarrow> length r < length (call_input c)"
  by (simp add: shrinks_def)

lemma val_body_length:
  assumes "shrinks f" and "val_body f d t0 = Inr (v, r)"
  shows "length r < length t0"
proof -
  define t where "t = skip_ws t0"
  have le: "length t \<le> length t0" by (simp add: t_def length_skip_ws)
  have "length r < length t"
  proof (cases "t")
    case Nil
    with assms(2) show ?thesis by (simp add: val_body_def t_def [symmetric] js_def num_match_def num_int_def split: if_splits)
  next
    case (Cons c u)
    have skip: "length (skip_ws u) \<le> length u" by (rule length_skip_ws)
    show ?thesis
      using assms(2) Cons skip shrinksD [OF assms(1)] json_str_length [of t] num_match_length [of t]
      by (fastforce simp: val_body_def t_def [symmetric] Let_def split: if_splits sum.splits prod.splits option.splits)
  qed
  with le show ?thesis by simp
qed


lemma members_body_length:
  assumes f: "shrinks f" and "members_body f d o0 t0 = Inr (v, r)"
  shows "length r < length t0"
proof -
  obtain k r0 x r2 where k: "json_str (skip_ws t0) = Inr (k, r0)"
    and x: "f (Val (d + 1) (tl (skip_ws r0))) = Inr (x, r2)"
    and rest: "f (Members d (o0 @ [(k, x)]) (tl (skip_ws r2))) = Inr (v, r) \<or> r = tl (skip_ws r2)"
    using assms(2) by (auto simp: members_body_def Let_def split: if_splits sum.splits prod.splits)
  have "length r0 < length t0" using json_str_length [OF k] length_skip_ws [of t0] by simp
  moreover have "length r2 < length (tl (skip_ws r0))" using shrinksD [OF f x] by simp
  moreover have "length r \<le> length (tl (skip_ws r2))" using rest shrinksD [OF f] by fastforce
  ultimately show ?thesis using length_skip_ws [of r0] length_skip_ws [of r2] by simp
qed

lemma elems_body_length:
  assumes f: "shrinks f" and "elems_body f d a t0 = Inr (v, r)"
  shows "length r < length t0"
proof -
  obtain x r2 where x: "f (Val (d + 1) t0) = Inr (x, r2)"
    and rest: "f (Elems d (a @ [x]) (tl (skip_ws r2))) = Inr (v, r) \<or> r = tl (skip_ws r2)"
    using assms(2) by (auto simp: elems_body_def Let_def split: if_splits sum.splits prod.splits)
  have "length r2 < length t0" using shrinksD [OF f x] by simp
  moreover have "length r \<le> length (tl (skip_ws r2))" using rest shrinksD [OF f] by fastforce
  ultimately show ?thesis using length_skip_ws [of r2] by simp
qed

lemma json_parse_shrinks: "shrinks (json_parse n)"
proof (induction n)
  case 0
  show ?case by (simp add: shrinks_def)
next
  case (Suc n)
  show ?case unfolding shrinks_def
  proof (intro allI impI)
    fix c v r
    assume "json_parse (Suc n) c = Inr (v, r)"
    then show "length r < length (call_input c)"
      using val_body_length [OF Suc] members_body_length [OF Suc] elems_body_length [OF Suc]
      by (cases c) (auto dest: order.strict_trans2)
  qed
qed

definition fuelled :: "nat \<Rightarrow> (json_call \<Rightarrow> json_result) \<Rightarrow> bool" where
  "fuelled n f = (\<forall>c. call_need c \<le> n \<longrightarrow> f c \<noteq> Inl OutOfFuel)"

lemma fuelledD: "fuelled n f \<Longrightarrow> call_need c \<le> n \<Longrightarrow> f c \<noteq> Inl OutOfFuel"
  by (simp add: fuelled_def)

lemma literal_end_fuel: "literal_end t \<noteq> Inl OutOfFuel"
proof (induction t rule: literal_end.induct)
  case (2 c t)
  show ?case
  proof (cases "c = 92")
    case True
    show ?thesis
    proof (cases t)
      case (Cons e t')
      with True 2 have "literal_end t' \<noteq> Inl OutOfFuel" by simp
      then show ?thesis using True Cons by (cases "literal_end t'") auto
    qed (simp add: True)
  next
    case False
    then show ?thesis using 2 by (cases "literal_end t") auto
  qed
qed simp

lemma json_str_fuel: "json_str t \<noteq> Inl OutOfFuel"
proof (cases "literal_end (tl t)")
  case (Inl x)
  then show ?thesis using literal_end_fuel [of "tl t"] by (simp add: json_str_def)
next
  case (Inr p)
  then show ?thesis by (cases p) (simp add: json_str_def split: option.splits)
qed

lemma val_body_fuel:
  assumes f: "fuelled n f" and need: "2 * length t0 \<le> n"
  shows "val_body f d t0 \<noteq> Inl OutOfFuel"
proof -
  define t where "t = skip_ws t0"
  have l: "2 * length (skip_ws (tl t)) + 2 \<le> n" if "take 1 t = [c]" for c
    using take1_length [OF that] need length_skip_ws [of t0] length_skip_ws [of "tl t"] by (simp add: t_def)
  have "f (Members d [] (skip_ws (tl t))) \<noteq> Inl OutOfFuel" if "take 1 t = [c]" for c
    using l [OF that] by (intro fuelledD [OF f]) simp
  moreover have "f (Elems d [] (skip_ws (tl t))) \<noteq> Inl OutOfFuel" if "take 1 t = [c]" for c
    using l [OF that] by (intro fuelledD [OF f]) simp
  moreover have "(case json_str t of Inl x \<Rightarrow> Inl x | Inr (s, r) \<Rightarrow> Inr (JString s, r)) \<noteq> Inl OutOfFuel"
    using json_str_fuel [of t] by (cases "json_str t") auto
  moreover have "(case num_match t of None \<Rightarrow> Inl UnexpectedToken | Some (x, r) \<Rightarrow> Inr (JsonNumber x, r)) \<noteq> Inl OutOfFuel"
    by (simp split: option.splits prod.splits)
  ultimately show ?thesis
    unfolding val_body_def t_def [symmetric] Let_def by (simp del: take_Suc One_nat_def split del: if_split split: if_splits)
qed

lemma members_body_fuel:
  assumes s: "shrinks f" and f: "fuelled n f" and need: "2 * length t0 + 1 \<le> n"
  shows "members_body f d o0 t0 \<noteq> Inl OutOfFuel"
proof -
  have v: "f (Val (d + 1) (tl (skip_ws r0))) \<noteq> Inl OutOfFuel"
    and m: "f (Val (d + 1) (tl (skip_ws r0))) = Inr (x, r2) \<Longrightarrow> f (Members d o1 (tl (skip_ws r2))) \<noteq> Inl OutOfFuel"
    if k: "json_str (skip_ws t0) = Inr (k, r0)" for k r0 x r2 o1
  proof -
    have "length r0 < length t0" using json_str_length [OF k] length_skip_ws [of t0] by simp
    then have l: "length (tl (skip_ws r0)) < length t0" using length_skip_ws [of r0] by simp
    then show "f (Val (d + 1) (tl (skip_ws r0))) \<noteq> Inl OutOfFuel" using need by (intro fuelledD [OF f]) simp
    assume "f (Val (d + 1) (tl (skip_ws r0))) = Inr (x, r2)"
    with shrinksD [OF s this] l need length_skip_ws [of r2] show "f (Members d o1 (tl (skip_ws r2))) \<noteq> Inl OutOfFuel"
      by (intro fuelledD [OF f]) simp
  qed
  then show ?thesis
    using json_str_fuel [of "skip_ws t0"] by (auto simp: members_body_def Let_def split: sum.splits)
qed

lemma elems_body_fuel:
  assumes s: "shrinks f" and f: "fuelled n f" and need: "2 * length t0 + 1 \<le> n"
  shows "elems_body f d a t0 \<noteq> Inl OutOfFuel"
proof -
  have v: "f (Val (d + 1) t0) \<noteq> Inl OutOfFuel" using need by (intro fuelledD [OF f]) simp
  have "f (Elems d a' (tl (skip_ws r2))) \<noteq> Inl OutOfFuel" if x: "f (Val (d + 1) t0) = Inr (x, r2)" for a' x r2
    using shrinksD [OF s x] need length_skip_ws [of r2] by (intro fuelledD [OF f]) simp
  with v show ?thesis by (auto simp: elems_body_def Let_def split: sum.splits)
qed

lemma json_parse_fuelled: "fuelled n (json_parse n)"
proof (induction n)
  case 0
  have "call_need c \<noteq> 0" for c by (cases c) simp_all
  then show ?case by (simp add: fuelled_def)
next
  case (Suc n)
  show ?case unfolding fuelled_def
  proof (intro allI impI)
    fix c assume "call_need c \<le> Suc n"
    then show "json_parse (Suc n) c \<noteq> Inl OutOfFuel"
      using val_body_fuel [OF Suc] members_body_fuel [OF json_parse_shrinks Suc] elems_body_fuel [OF json_parse_shrinks Suc]
      by (cases c) simp_all
  qed
qed

text \<open>More fuel does not change an answer.\<close>

definition agrees :: "(json_call \<Rightarrow> json_result) \<Rightarrow> (json_call \<Rightarrow> json_result) \<Rightarrow> bool" where
  "agrees f g = (\<forall>c. f c \<noteq> Inl OutOfFuel \<longrightarrow> g c = f c)"

lemma agreesD: "agrees f g \<Longrightarrow> f c \<noteq> Inl OutOfFuel \<Longrightarrow> g c = f c"
  by (simp add: agrees_def)

lemma val_body_agrees:
  "agrees f g \<Longrightarrow> val_body f d t \<noteq> Inl OutOfFuel \<Longrightarrow> val_body g d t = val_body f d t"
  unfolding val_body_def Let_def by (simp add: agreesD split del: if_split split: if_splits)

lemma members_body_agrees:
  assumes "agrees f g" and "members_body f d o0 t \<noteq> Inl OutOfFuel"
  shows "members_body g d o0 t = members_body f d o0 t"
proof (cases "json_str (skip_ws t)")
  case (Inr p)
  obtain k r where p: "p = (k, r)" by (cases p)
  show ?thesis
  proof (cases "f (Val (d + 1) (tl (skip_ws r)))")
    case (Inl x)
    then show ?thesis using assms Inr p agreesD [OF assms(1), of "Val (d + 1) (tl (skip_ws r))"]
      by (cases "x = OutOfFuel") (auto simp: members_body_def Let_def)
  next
    case (Inr q)
    obtain v r2 where "q = (v, r2)" by (cases q)
    then show ?thesis using assms \<open>json_str (skip_ws t) = Inr p\<close> p Inr agreesD [OF assms(1), of "Val (d + 1) (tl (skip_ws r))"]
        agreesD [OF assms(1), of "Members d (o0 @ [(k, v)]) (tl (skip_ws r2))"]
      by (auto simp: members_body_def Let_def)
  qed
qed (simp add: members_body_def Let_def)

lemma elems_body_agrees:
  assumes "agrees f g" and "elems_body f d a t \<noteq> Inl OutOfFuel"
  shows "elems_body g d a t = elems_body f d a t"
proof (cases "f (Val (d + 1) t)")
  case (Inl x)
  then show ?thesis using assms agreesD [OF assms(1), of "Val (d + 1) t"]
    by (cases "x = OutOfFuel") (auto simp: elems_body_def Let_def)
next
  case (Inr q)
  obtain v r2 where "q = (v, r2)" by (cases q)
  then show ?thesis using assms Inr agreesD [OF assms(1), of "Val (d + 1) t"]
      agreesD [OF assms(1), of "Elems d (a @ [v]) (tl (skip_ws r2))"]
    by (auto simp: elems_body_def Let_def)
qed

lemma call_body_agrees: "agrees f g \<Longrightarrow> agrees (call_body f) (call_body g)"
  unfolding agrees_def [of "call_body f"]
proof (intro allI impI)
  fix c
  assume "agrees f g" and "call_body f c \<noteq> Inl OutOfFuel"
  then show "call_body g c = call_body f c"
    by (cases c) (simp_all add: val_body_agrees members_body_agrees elems_body_agrees)
qed

lemma json_parse_Suc: "agrees (json_parse n) (json_parse (Suc n))"
proof (induction n)
  case (Suc n)
  then show ?case by (simp add: call_body_agrees)
qed (simp add: agrees_def)

lemma json_parse_mono: "n \<le> m \<Longrightarrow> json_parse n c = Inr x \<Longrightarrow> json_parse m c = Inr x"
proof (induction m rule: dec_induct)
  case (step m)
  then show ?case using agreesD [OF json_parse_Suc, of m c] by simp
qed

text \<open>\<open>parses c v r\<close>: some fuel makes the call answer \<open>v\<close> with \<open>r\<close> left. The fuel the code's translation
  passes is then enough.\<close>

definition parses :: "json_call \<Rightarrow> LosslessJson \<Rightarrow> jstr \<Rightarrow> bool" where
  "parses c v r = (\<exists>n. json_parse n c = Inr (v, r))"

lemma parses_default:
  assumes "parses c v r" and "call_need c \<le> n"
  shows "json_parse n c = Inr (v, r)"
proof -
  obtain m where m: "json_parse m c = Inr (v, r)" using assms(1) by (auto simp: parses_def)
  have "json_parse n c \<noteq> Inl OutOfFuel" by (rule fuelledD [OF json_parse_fuelled assms(2)])
  then have "json_parse (max m n) c = json_parse n c"
  proof -
    have "agrees (json_parse n) (json_parse (n + k))" for k
    proof (induction k)
      case (Suc k)
      then show ?case using json_parse_Suc [of "n + k"] by (simp del: json_parse.simps add: agrees_def)
    qed (simp add: agrees_def)
    from agreesD [OF this [of "max m n - n"], of c] \<open>json_parse n c \<noteq> Inl OutOfFuel\<close> show ?thesis by simp
  qed
  with json_parse_mono [OF _ m, of "max m n"] show ?thesis by simp
qed

lemma parses_step: "json_parse (Suc n) c = Inr (v, r) \<Longrightarrow> parses c v r"
  unfolding parses_def by blast

lemma parses_members_last:
  assumes "take 1 (skip_ws t) = [34]" and "json_str (skip_ws t) = Inr (k, r)" and "k \<notin> fst ` set o0"
    and "take 1 (skip_ws r) = [58]" and "parses (Val (d + 1) (tl (skip_ws r))) v r2" and "take 1 (skip_ws r2) = [125]"
  shows "parses (Members d o0 t) (JObject (o0 @ [(k, v)])) (tl (skip_ws r2))"
proof -
  obtain n where "json_parse n (Val (d + 1) (tl (skip_ws r))) = Inr (v, r2)" using assms(5) by (auto simp: parses_def)
  with assms show ?thesis by (intro parses_step [of n]) (simp add: members_body_def Let_def)
qed

lemma parses_members_more:
  assumes "take 1 (skip_ws t) = [34]" and "json_str (skip_ws t) = Inr (k, r)" and "k \<notin> fst ` set o0"
    and "take 1 (skip_ws r) = [58]" and "parses (Val (d + 1) (tl (skip_ws r))) v r2" and "take 1 (skip_ws r2) = [44]"
    and "parses (Members d (o0 @ [(k, v)]) (tl (skip_ws r2))) x r3"
  shows "parses (Members d o0 t) x r3"
proof -
  obtain n m where n: "json_parse n (Val (d + 1) (tl (skip_ws r))) = Inr (v, r2)"
    and m: "json_parse m (Members d (o0 @ [(k, v)]) (tl (skip_ws r2))) = Inr (x, r3)"
    using assms(5,7) by (auto simp: parses_def)
  from assms json_parse_mono [OF _ n, of "max n m"] json_parse_mono [OF _ m, of "max n m"] show ?thesis
    by (intro parses_step [of "max n m"]) (simp add: members_body_def Let_def)
qed

lemma parses_elems_last:
  assumes "parses (Val (d + 1) t) v r" and "take 1 (skip_ws r) = [93]"
  shows "parses (Elems d a t) (JArray (a @ [v])) (tl (skip_ws r))"
proof -
  obtain n where "json_parse n (Val (d + 1) t) = Inr (v, r)" using assms(1) by (auto simp: parses_def)
  with assms show ?thesis by (intro parses_step [of n]) (simp add: elems_body_def Let_def)
qed

lemma parses_elems_more:
  assumes "parses (Val (d + 1) t) v r" and "take 1 (skip_ws r) = [44]" and "parses (Elems d (a @ [v]) (tl (skip_ws r))) x r3"
  shows "parses (Elems d a t) x r3"
proof -
  obtain n m where n: "json_parse n (Val (d + 1) t) = Inr (v, r)"
    and m: "json_parse m (Elems d (a @ [v]) (tl (skip_ws r))) = Inr (x, r3)"
    using assms(1,3) by (auto simp: parses_def)
  from assms json_parse_mono [OF _ n, of "max n m"] json_parse_mono [OF _ m, of "max n m"] show ?thesis
    by (intro parses_step [of "max n m"]) (simp add: elems_body_def Let_def)
qed

section \<open>Layouts\<close>

text \<open>\<open>lays_out v t\<close>: \<open>t\<close> is a JSON text of \<open>v\<close>, with any white space between tokens.\<close>

abbreviation blank :: "jstr \<Rightarrow> bool" where
  "blank w \<equiv> list_all json_ws w"

inductive lays_out :: "LosslessJson \<Rightarrow> jstr \<Rightarrow> bool"
  and lays_elems :: "LosslessJson list \<Rightarrow> jstr \<Rightarrow> bool"
  and lays_members :: "(jstr \<times> LosslessJson) list \<Rightarrow> jstr \<Rightarrow> bool" where
  null: "lays_out JNull (js ''null'')"
| true: "lays_out (JBool True) (js ''true'')"
| false: "lays_out (JBool False) (js ''false'')"
| number: "num_token x \<Longrightarrow> lays_out (JsonNumber x) x"
| string: "units s \<Longrightarrow> lays_out (JString s) (quoteJson s)"
| empty_array: "blank w \<Longrightarrow> lays_out (JArray []) (91 # w @ [93])"
| array: "lays_elems vs t \<Longrightarrow> lays_out (JArray vs) (91 # t @ [93])"
| empty_object: "blank w \<Longrightarrow> lays_out (JObject []) (123 # w @ [125])"
| object: "lays_members kvs t \<Longrightarrow> distinct (map fst kvs) \<Longrightarrow> lays_out (JObject kvs) (123 # t @ [125])"
| elem: "blank w \<Longrightarrow> lays_out v t \<Longrightarrow> blank w' \<Longrightarrow> lays_elems [v] (w @ t @ w')"
| elems: "blank w \<Longrightarrow> lays_out v t \<Longrightarrow> blank w' \<Longrightarrow> lays_elems vs u \<Longrightarrow> lays_elems (v # vs) (w @ t @ w' @ 44 # u)"
| member: "blank w \<Longrightarrow> units k \<Longrightarrow> blank w1 \<Longrightarrow> blank w2 \<Longrightarrow> lays_out v t \<Longrightarrow> blank w3 \<Longrightarrow>
    lays_members [(k, v)] (w @ quoteJson k @ w1 @ 58 # w2 @ t @ w3)"
| members: "blank w \<Longrightarrow> units k \<Longrightarrow> blank w1 \<Longrightarrow> blank w2 \<Longrightarrow> lays_out v t \<Longrightarrow> blank w3 \<Longrightarrow> lays_members kvs u \<Longrightarrow>
    lays_members ((k, v) # kvs) (w @ quoteJson k @ w1 @ 58 # w2 @ t @ w3 @ 44 # u)"

fun jdepth :: "LosslessJson \<Rightarrow> nat" where
  "jdepth (JArray vs) = foldr max (map (\<lambda>v. Suc (jdepth v)) vs) 0"
| "jdepth (JObject kvs) = foldr max (map (\<lambda>kv. Suc (jdepth (snd kv))) kvs) 0"
| "jdepth v = 0"

lemma skip_blank: "blank w \<Longrightarrow> \<not> json_ws c \<Longrightarrow> skip_ws (w @ c # t) = c # t"
  unfolding skip_ws_def by (induction w) simp_all

lemma json_ws_tokens: "\<not> json_ws 34" "\<not> json_ws 44" "\<not> json_ws 58" "\<not> json_ws 91" "\<not> json_ws 93" "\<not> json_ws 123" "\<not> json_ws 125"
  by (simp_all add: json_ws_def)

lemma is_dig_not_ws: "is_dig c \<Longrightarrow> \<not> json_ws c"
  by (auto simp: is_dig_def json_ws_def)

lemma lays_out_hd:
  assumes "lays_out v t"
  shows "\<exists>c u. t = c # u \<and> \<not> json_ws c"
  using assms
proof (cases rule: lays_out.cases)
  case number
  then show ?thesis using num_token_hd [of t] is_dig_not_ws by (cases t) (auto simp: json_ws_def)
qed (auto simp: js_def json_ws_def quoteJson_def)

lemma stop_blank: "blank w \<Longrightarrow> stop t \<Longrightarrow> stop (w @ t)"
  by (cases w) (auto simp: stop_def)

lemma stop_tokens: "stop (44 # t)" "stop (93 # t)" "stop (125 # t)"
  by (simp_all add: stop_def)

lemma skip_lays_out: "lays_out v t \<Longrightarrow> blank w \<Longrightarrow> skip_ws (w @ t @ r) = t @ r"
  using lays_out_hd [of v t] by (auto simp: skip_blank)

lemma val_step: "val_body (json_parse n) d t = Inr (v, r) \<Longrightarrow> parses (Val d t) v r"
  by (rule parses_step [of n]) simp

lemma parses_literal:
  assumes "d \<le> 256"
  shows "skip_ws t = 116 # 114 # 117 # 101 # r \<Longrightarrow> parses (Val d t) (JBool True) r"
    and "skip_ws t = 102 # 97 # 108 # 115 # 101 # r \<Longrightarrow> parses (Val d t) (JBool False) r"
    and "skip_ws t = 110 # 117 # 108 # 108 # r \<Longrightarrow> parses (Val d t) JNull r"
    and "skip_ws t = 34 # u \<Longrightarrow> json_str (34 # u) = Inr (s, r) \<Longrightarrow> parses (Val d t) (JString s) r"
  using assms by (auto intro!: val_step simp: val_body_def js_def)

lemma parses_number:
  assumes "d \<le> 256" and t: "skip_ws t = x @ r" and "num_token x" and "stop r"
  shows "parses (Val d t) (JsonNumber x) r"
proof -
  obtain c u where x: "x = c # u" and c: "c = 45 \<or> is_dig c" using num_token_hd [OF assms(3)] by (cases x) auto
  then have "c \<notin> {123, 91, 34, 116, 102, 110}" by (auto simp: is_dig_def)
  with assms(1) t x num_token_stop [OF assms(3,4)] show ?thesis
    by (intro val_step) (auto simp: val_body_def js_def)
qed

lemma parsesE [elim]:
  assumes "parses c v r"
  obtains n where "json_parse n c = Inr (v, r)"
  using assms by (auto simp: parses_def)

lemma parses_array:
  assumes d: "d \<le> 256" and t: "skip_ws t = 91 # u"
  shows "skip_ws u = 93 # r \<Longrightarrow> parses (Val d t) (JArray []) r"
    and "take 1 (skip_ws u) \<noteq> [93] \<Longrightarrow> parses (Elems d [] (skip_ws u)) v r \<Longrightarrow> parses (Val d t) v r"
proof -
  show "skip_ws u = 93 # r \<Longrightarrow> parses (Val d t) (JArray []) r"
    using d t by (intro val_step) (simp add: val_body_def)
  assume u: "take 1 (skip_ws u) \<noteq> [93]" and "parses (Elems d [] (skip_ws u)) v r"
  from this(2) obtain n where "json_parse n (Elems d [] (skip_ws u)) = Inr (v, r)" by (rule parsesE)
  then show "parses (Val d t) v r"
    using d t u by (intro val_step [of n]) (simp add: val_body_def)
qed

lemma parses_object:
  assumes d: "d \<le> 256" and t: "skip_ws t = 123 # u"
  shows "skip_ws u = 125 # r \<Longrightarrow> parses (Val d t) (JObject []) r"
    and "take 1 (skip_ws u) \<noteq> [125] \<Longrightarrow> parses (Members d [] (skip_ws u)) v r \<Longrightarrow> parses (Val d t) v r"
proof -
  show "skip_ws u = 125 # r \<Longrightarrow> parses (Val d t) (JObject []) r"
    using d t by (intro val_step) (simp add: val_body_def)
  assume u: "take 1 (skip_ws u) \<noteq> [125]" and "parses (Members d [] (skip_ws u)) v r"
  from this(2) obtain n where "json_parse n (Members d [] (skip_ws u)) = Inr (v, r)" by (rule parsesE)
  then show "parses (Val d t) v r"
    using d t u by (intro val_step [of n]) (simp add: val_body_def)
qed

lemma skip_again: "blank w \<Longrightarrow> skip_ws (w @ t) = skip_ws t"
  unfolding skip_ws_def by (induction w) simp_all

lemma skip_skip [simp]: "skip_ws (skip_ws t) = skip_ws t"
  unfolding skip_ws_def by (rule dropWhile_idem)

text \<open>The loops skip leading white space themselves.\<close>

lemma parses_skip:
  "parses (Elems d a (skip_ws t)) v r \<longleftrightarrow> parses (Elems d a t) v r" 
  "parses (Members d o0 (skip_ws t)) v r \<longleftrightarrow> parses (Members d o0 t) v r"
proof -
  have v: "val_body f d (skip_ws t) = val_body f d t" for f d by (simp add: val_body_def)
  have "json_parse n (Val d (skip_ws t)) = json_parse n (Val d t)" for n d
    by (cases n) (simp_all add: v)
  then have "json_parse n (Elems d a (skip_ws t)) = json_parse n (Elems d a t)" for n
    by (cases n) (simp_all add: elems_body_def)
  moreover have "json_parse n (Members d o0 (skip_ws t)) = json_parse n (Members d o0 t)" for n
    by (cases n) (simp_all add: members_body_def)
  ultimately show "parses (Elems d a (skip_ws t)) v r \<longleftrightarrow> parses (Elems d a t) v r"
    "parses (Members d o0 (skip_ws t)) v r \<longleftrightarrow> parses (Members d o0 t) v r"
    by (simp_all add: parses_def)
qed

lemma jdepth_elem: "v \<in> set vs \<Longrightarrow> Suc (jdepth v) \<le> jdepth (JArray vs)"
  by (induction vs) auto

lemma jdepth_member: "(k, v) \<in> set kvs \<Longrightarrow> Suc (jdepth v) \<le> jdepth (JObject kvs)"
  by (induction kvs) auto

lemma lays_out_not_close:
  assumes "lays_out v t"
  shows "take 1 (t @ r) \<noteq> [93]"
  using assms
proof (cases rule: lays_out.cases)
  case number
  then show ?thesis using num_token_hd [of t] by (cases t) (auto simp: is_dig_def)
qed (auto simp: js_def quoteJson_def)

lemma lays_elems_hd: "lays_elems vs t \<Longrightarrow> take 1 (skip_ws (t @ r)) \<noteq> [93]"
proof -
  assume "lays_elems vs t"
  then obtain w v t1 u where "t = w @ t1 @ u" "blank w" "lays_out v t1"
    by (cases rule: lays_elems.cases) auto
  then show ?thesis using skip_lays_out [of v t1 w "u @ r"] lays_out_not_close [of v t1 "u @ r"] by simp
qed

lemma lays_members_hd: "lays_members kvs t \<Longrightarrow> take 1 (skip_ws (t @ r)) \<noteq> [125]"
  by (cases rule: lays_members.cases, assumption) (simp_all add: quoteJson_def skip_blank json_ws_tokens)

lemma key_parse:
  assumes "blank w" "units k" "blank w1"
  shows "take 1 (skip_ws (w @ quoteJson k @ u)) = [34]" "json_str (skip_ws (w @ quoteJson k @ u)) = Inr (k, u)"
    "skip_ws (w1 @ 58 # u) = 58 # u"
proof -
  have "skip_ws (w @ quoteJson k @ u) = quoteJson k @ u"
    using assms(1) by (simp add: quoteJson_def skip_blank json_ws_tokens)
  then show "take 1 (skip_ws (w @ quoteJson k @ u)) = [34]" "json_str (skip_ws (w @ quoteJson k @ u)) = Inr (k, u)"
    using json_str_quote [OF assms(2), of u] by (simp_all add: quoteJson_def)
  show "skip_ws (w1 @ 58 # u) = 58 # u" using assms(3) by (simp add: skip_blank json_ws_tokens)
qed

lemma layout_parses:
  "lays_out v t \<Longrightarrow> d + jdepth v \<le> 256 \<Longrightarrow> blank w \<Longrightarrow> stop r \<Longrightarrow> parses (Val d (w @ t @ r)) v r"
  "lays_elems vs t \<Longrightarrow> \<forall>v \<in> set vs. Suc d + jdepth v \<le> 256 \<Longrightarrow> parses (Elems d a (t @ 93 # r)) (JArray (a @ vs)) r"
  "lays_members kvs t \<Longrightarrow> \<forall>(k, v) \<in> set kvs. Suc d + jdepth v \<le> 256 \<Longrightarrow> distinct (map fst (o0 @ kvs)) \<Longrightarrow>
     parses (Members d o0 (t @ 125 # r)) (JObject (o0 @ kvs)) r"
proof (induction arbitrary: d w r and d a r and d o0 r rule: lays_out_lays_elems_lays_members.inducts)
  case (number x)
  then show ?case using parses_number skip_lays_out [OF lays_out_lays_elems_lays_members.number] by simp
next
  case (string s)
  then show ?case using parses_literal(4) json_str_quote [of s r] skip_blank [of w 34] by (simp add: quoteJson_def json_ws_tokens)
next
  case (empty_array w')
  then show ?case by (intro parses_array(1) [where u = "w' @ 93 # r"]) (simp_all add: skip_blank json_ws_tokens)
next
  case (array vs t)
  have "\<forall>v \<in> set vs. Suc d + jdepth v \<le> 256"
    using jdepth_elem [of _ vs] array.prems(1) by (fastforce simp del: jdepth.simps)
  then have "parses (Elems d [] (skip_ws (t @ 93 # r))) (JArray vs) r"
    using array.IH [of d "[]" r] by (simp add: parses_skip)
  then show ?case using lays_elems_hd [OF array(1), of "93 # r"] array.prems
    by (intro parses_array(2) [where u = "t @ 93 # r"]) (simp_all del: jdepth.simps add: skip_blank json_ws_tokens)
next
  case (empty_object w')
  then show ?case by (intro parses_object(1) [where u = "w' @ 125 # r"]) (simp_all add: skip_blank json_ws_tokens)
next
  case (object kvs t)
  have "\<forall>(k, v) \<in> set kvs. Suc d + jdepth v \<le> 256"
    using jdepth_member [of _ _ kvs] object.prems(1) by (fastforce simp del: jdepth.simps)
  then have "parses (Members d [] (skip_ws (t @ 125 # r))) (JObject kvs) r"
    using object.IH [of d "[]" r] object.hyps by (simp add: parses_skip)
  then show ?case using lays_members_hd [OF object(1), of "125 # r"] object.prems
    by (intro parses_object(2) [where u = "t @ 125 # r"]) (simp_all del: jdepth.simps add: skip_blank json_ws_tokens)
next
  case (elem w v t w')
  then have "parses (Val (d + 1) (w @ t @ w' @ 93 # r)) v (w' @ 93 # r)"
    by (intro elem.IH) (auto intro: stop_blank stop_tokens)
  from parses_elems_last [OF this, of a] elem show ?case by (simp add: skip_blank json_ws_tokens)
next
  case (elems w v t w' vs u)
  then have "parses (Val (d + 1) (w @ t @ w' @ 44 # u @ 93 # r)) v (w' @ 44 # u @ 93 # r)"
    by (intro elems.IH) (auto intro: stop_blank stop_tokens)
  from parses_elems_more [OF this] elems elems.IH(2) [of d "a @ [v]" r] show ?case by (simp add: skip_blank json_ws_tokens)
next
  case (member w k w1 w2 v t w3)
  then have "parses (Val (d + 1) (w2 @ t @ w3 @ 125 # r)) v (w3 @ 125 # r)"
    by (intro member.IH) (auto intro: stop_blank stop_tokens)
  with member key_parse [of w k w1] show ?case
    using parses_members_last [of "w @ quoteJson k @ w1 @ 58 # w2 @ t @ w3 @ 125 # r" k _ o0 d v "w3 @ 125 # r"]
    by (simp add: skip_blank json_ws_tokens)
next
  case (members w k w1 w2 v t w3 kvs u)
  then have "parses (Val (d + 1) (w2 @ t @ w3 @ 44 # u @ 125 # r)) v (w3 @ 44 # u @ 125 # r)"
    by (intro members.IH) (auto intro: stop_blank stop_tokens)
  with members key_parse [of w k w1] members.IH(2) [of d "o0 @ [(k, v)]" r] show ?case
    using parses_members_more [of "w @ quoteJson k @ w1 @ 58 # w2 @ t @ w3 @ 44 # u @ 125 # r" k _ o0 d v "w3 @ 44 # u @ 125 # r"]
    by (simp add: skip_blank json_ws_tokens)
qed (use parses_literal skip_blank in \<open>simp_all add: js_def json_ws_def\<close>)

lemma layout_parse_eq:
  assumes "lays_out v t" and "jdepth v \<le> 256" and "blank w" and "blank w'"
  shows "parseJsonLossless (w @ t @ w') = Inr v"
proof -
  have "stop w'" using assms(4) by (cases w') (auto simp: stop_def)
  then have "parses (Val 0 (w @ t @ w')) v w'"
    using layout_parses(1) [OF assms(1), of 0 w w'] assms by simp
  then have "json_parse (2 * length (w @ t @ w') + 1) (Val 0 (w @ t @ w')) = Inr (v, w')"
    by (rule parses_default) simp
  moreover have "skip_ws w' = []" using assms(4) by (simp add: skip_ws_def list_all_iff)
  ultimately show ?thesis by (simp add: parseJsonLossless_def)
qed

section \<open>The printer lays out\<close>

text \<open>A value whose numbers are number texts, whose strings are code units and whose objects have distinct
  keys that are not array indices.\<close>

fun json_ok :: "LosslessJson \<Rightarrow> bool" where
  "json_ok JNull = True"
| "json_ok (JBool b) = True"
| "json_ok (JString s) = units s"
| "json_ok (JsonNumber x) = num_token x"
| "json_ok (JArray vs) = list_all json_ok vs"
| "json_ok (JObject kvs) = (distinct (map fst kvs) \<and> list_all (\<lambda>kv. units (fst kv) \<and> \<not> array_index (fst kv) \<and> json_ok (snd kv)) kvs)"

lemma own_props_plain: "list_all (\<lambda>kv. \<not> array_index (fst kv)) kvs \<Longrightarrow> own_props kvs = kvs"
  unfolding own_props_def list_all_iff by (simp add: filter_empty_conv)

lemma joined_simps: "joined sep [] = []" "joined sep [x] = x" "ys \<noteq> [] \<Longrightarrow> joined sep (x # ys) = x @ sep @ joined sep ys"
  by (simp_all add: joined_def split: list.splits)

lemma lays_elems_joined:
  "vs \<noteq> [] \<Longrightarrow> (\<And>v. v \<in> set vs \<Longrightarrow> lays_out v (p v)) \<Longrightarrow> lays_elems vs (joined [44] (map p vs))"
proof (induction vs rule: list_nonempty_induct)
  case (single v)
  then show ?case using lays_out_lays_elems_lays_members.elem [of "[]" v "p v" "[]"] by (simp add: joined_simps)
next
  case (cons v vs)
  then show ?case
    using lays_out_lays_elems_lays_members.elems [of "[]" v "p v" "[]" vs "joined [44] (map p vs)"]
    by (simp add: joined_simps)
qed

lemma lays_members_joined:
  "kvs \<noteq> [] \<Longrightarrow> (\<And>k v. (k, v) \<in> set kvs \<Longrightarrow> units k \<and> lays_out v (p v)) \<Longrightarrow>
   lays_members kvs (joined [44] (map (\<lambda>kv. quoteJson (fst kv) @ [58] @ p (snd kv)) kvs))"
proof (induction kvs rule: list_nonempty_induct)
  case (single kv)
  then show ?case
    using lays_out_lays_elems_lays_members.member [of "[]" "fst kv" "[]" "[]" "snd kv" "p (snd kv)" "[]"]
    by (cases kv) (simp add: joined_simps)
next
  case (cons kv kvs)
  obtain k v where kv: "kv = (k, v)" by (cases kv)
  with cons.prems have "units k" "lays_out v (p v)" by auto
  moreover have "lays_members kvs (joined [44] (map (\<lambda>kv. quoteJson (fst kv) @ [58] @ p (snd kv)) kvs))"
    by (intro cons.IH cons.prems) simp
  ultimately show ?case
    using lays_out_lays_elems_lays_members.members [of "[]" k "[]" "[]" v "p v" "[]"] cons.hyps kv
    by (simp add: joined_simps)
qed

lemma stringify_lays_out: "json_ok v \<Longrightarrow> lays_out v (stringifyLossless v)"
proof (induction v)
  case (JArray vs)
  then show ?case
    using lays_out_lays_elems_lays_members.array [OF lays_elems_joined, of vs stringifyLossless]
      lays_out_lays_elems_lays_members.empty_array [of "[]"]
    by (cases "vs = []") (auto simp: joined_def list_all_iff)
next
  case (JObject kvs)
  have eq: "own_props (map (\<lambda>kv. (fst kv, stringifyLossless (snd kv))) kvs) = map (\<lambda>kv. (fst kv, stringifyLossless (snd kv))) kvs"
    using JObject.prems by (intro own_props_plain) (auto simp: list_all_iff)
  show ?case
  proof (cases "kvs = []")
    case True
    then show ?thesis using lays_out_lays_elems_lays_members.empty_object [of "[]"] by (simp add: own_props_def joined_def)
  next
    case False
    have "lays_members kvs (joined [44] (map (\<lambda>kv. quoteJson (fst kv) @ [58] @ stringifyLossless (snd kv)) kvs))"
      using JObject False by (intro lays_members_joined) (auto simp: list_all_iff)
    then show ?thesis
      using lays_out_lays_elems_lays_members.object JObject.prems by (simp add: eq comp_def)
  qed
qed (auto intro: lays_out_lays_elems_lays_members.intros)

section \<open>Properties\<close>


definition demo_json :: LosslessJson where
  "demo_json = JObject [(js ''stake'', JsonNumber (js ''340282366920938463463374607431768211455'')),
     (js ''tag'', JString [34, 92, 10, 55357, 56832, 55357]), (js ''xs'', JArray [JNull, JBool True, JArray []])]"

lemma demo_json_ok: "json_ok demo_json" "jdepth demo_json \<le> 256"
  by (simp_all add: demo_json_def js_def num_token_def num_match_def num_int_def num_frac_def num_exp_def is_dig_def array_index_def)


text \<open>C40: The parser's recursion ends on every text: the fuel its translation passes, twice the length of the text
  plus one, never runs out, so every answer is the code's own value or error.\<close>

theorem json_parser_never_out_of_fuel: "parseJsonLossless text \<noteq> Inl OutOfFuel"
proof -
  have "json_parse (2 * length text + 1) (Val 0 text) \<noteq> Inl OutOfFuel"
    by (rule fuelledD [OF json_parse_fuelled]) simp
  then show ?thesis by (cases "json_parse (2 * length text + 1) (Val 0 text)") (auto simp: parseJsonLossless_def split: if_splits)
qed

text \<open>An object whose keys were created in the order \<open>b\<close>, \<open>1\<close> is printed with \<open>1\<close> first.\<close>

lemma stringify_reorders_index_keys:
  "stringifyLossless (JObject [(js ''b'', JNull), (js ''1'', JNull)]) = js ''{\"1\":null,\"b\":null}''"
  by (simp add: js_def own_props_def array_index_def is_dig_def dec_units_def joined_def quoteJson_def quote_unit_def
      high_surrogate_def low_surrogate_def)

end
