(* ===== verification/F64.thy ===== *)
theory F64
  imports Lossless_Json "HOL-Library.Log_Nat"
begin

text \<open>
  The binary64 numbers of JavaScript as far as the sources use them: \<open>Number(text)\<close> of a JSON number,
  and the shortest digits \<open>toExponential()\<close> prints. A finite number is its sign, its significand
  and its binary exponent, so all arithmetic is on integers.
\<close>

datatype f64 = F64NaN | F64Inf bool | F64Fin (f_neg: bool) (f_mant: nat) (f_exp: int)

text \<open>\<open>n / d\<close> with the binary scale \<open>e\<close> taken out, rounded to the nearest integer, ties to even.\<close>

definition round_div :: "nat \<Rightarrow> nat \<Rightarrow> nat" where
  "round_div n d = (let q = n div d; r = n mod d in
     if 2 * r < d then q else if 2 * r > d then q + 1 else if even q then q else q + 1)"

definition scale_num :: "nat \<Rightarrow> int \<Rightarrow> nat" where
  "scale_num n e = (if e < 0 then n * 2 ^ nat (- e) else n)"

definition scale_den :: "nat \<Rightarrow> int \<Rightarrow> nat" where
  "scale_den d e = (if e < 0 then d else d * 2 ^ nat e)"

text \<open>The largest \<open>k\<close> with \<open>2\<^sup>k \<le> n / d\<close>.\<close>

definition ratio_log2 :: "nat \<Rightarrow> nat \<Rightarrow> int" where
  "ratio_log2 n d = (let k = int (floorlog 2 n) - int (floorlog 2 d) in
     if scale_num n k \<ge> scale_den d k then k else k - 1)"

text \<open>The binary64 number nearest to \<open>n / d\<close>, ties to even, with the sign given.\<close>

definition nearest_f64 :: "bool \<Rightarrow> nat \<Rightarrow> nat \<Rightarrow> f64" where
  "nearest_f64 neg n d =
     (if n = 0 then F64Fin neg 0 (-1074)
      else let e = max (ratio_log2 n d - 52) (-1074);
               q = round_div (scale_num n e) (scale_den d e);
               (m, x) = (if q = 2 ^ 53 then (2 ^ 52, e + 1) else (q, e))
           in if x > 971 then F64Inf neg else F64Fin neg m x)"

definition pow10_num :: "int \<Rightarrow> nat" where
  "pow10_num k = (if k < 0 then 1 else 10 ^ nat k)"

definition pow10_den :: "int \<Rightarrow> nat" where
  "pow10_den k = (if k < 0 then 10 ^ nat (- k) else 1)"

text \<open>The binary64 number nearest to \<open>n * 10\<^sup>k\<close>.\<close>

definition f64_of_decimal :: "bool \<Rightarrow> nat \<Rightarrow> int \<Rightarrow> f64" where
  "f64_of_decimal neg n k = nearest_f64 neg (n * pow10_num k) (pow10_den k)"

text \<open>\<open>Number(raw)\<close> of a JSON number text: its digits without the point, and the decimal exponent.\<close>

definition Number_raw :: "jstr \<Rightarrow> f64" where
  "Number_raw x =
     (let neg = (x \<noteq> [] \<and> hd x = 45);
          body = (if neg then tl x else x);
          ip = takeWhile is_dig body;
          r1 = dropWhile is_dig body;
          fp = (if r1 \<noteq> [] \<and> hd r1 = 46 then takeWhile is_dig (tl r1) else []);
          r2 = (if r1 \<noteq> [] \<and> hd r1 = 46 then dropWhile is_dig (tl r1) else r1);
          r3 = tl r2;
          sg = (r3 \<noteq> [] \<and> hd r3 = 45);
          ds = (if r3 \<noteq> [] \<and> (hd r3 = 45 \<or> hd r3 = 43) then tl r3 else r3);
          ex = (if r2 = [] then 0 else if sg then - int (dec_units ds) else int (dec_units ds))
      in f64_of_decimal neg (dec_units (ip @ fp)) (ex - int (length fp)))"

text \<open>The value of a finite number as a fraction.\<close>

definition f64_num :: "nat \<Rightarrow> int \<Rightarrow> nat" where
  "f64_num m e = (if e < 0 then m else m * 2 ^ nat e)"

definition f64_den :: "int \<Rightarrow> nat" where
  "f64_den e = (if e < 0 then 2 ^ nat (- e) else 1)"

text \<open>The largest \<open>k\<close> with \<open>10\<^sup>k \<le> n / d\<close>: at most one step away from the digit counts' difference.\<close>

definition ratio_log10 :: "nat \<Rightarrow> nat \<Rightarrow> int" where
  "ratio_log10 n d = (let k = int (floorlog 10 n) - int (floorlog 10 d) in
     if n * pow10_den k \<ge> d * pow10_num k then k else k - 1)"

text \<open>The candidate with \<open>f + 1\<close> digits nearest to the number that reads back as it, if there is one:
  the digits and the decimal exponent.\<close>

definition digits_candidate :: "f64 \<Rightarrow> nat \<Rightarrow> nat \<Rightarrow> int \<Rightarrow> nat \<Rightarrow> (nat \<times> int) option" where
  "digits_candidate x n d e f =
     (let k = e - int f;
          nn = n * pow10_den k; dd = d * pow10_num k;
          lo = nn div dd; r = nn mod dd;
          ok = (\<lambda>m. f64_of_decimal False m k = x);
          fit = (\<lambda>m. if m = 10 ^ (f + 1) then (10 ^ f, e + 1) else (m, e))
      in if ok lo \<and> ok (lo + 1) then Some (fit (if 2 * r < dd \<or> 2 * r = dd \<and> even lo then lo else lo + 1))
         else if ok lo then Some (fit lo) else if ok (lo + 1) then Some (fit (lo + 1)) else None)"

text \<open>Fewest digits first; 17 digits always identify a binary64 number.\<close>

fun shortest_digits :: "nat \<Rightarrow> f64 \<Rightarrow> nat \<Rightarrow> nat \<Rightarrow> int \<Rightarrow> nat \<Rightarrow> nat \<times> nat \<times> int" where
  "shortest_digits 0 x n d e f = (f, n * pow10_den (e - int f) div (d * pow10_num (e - int f)), e)"
| "shortest_digits (Suc k) x n d e f =
     (case digits_candidate x n d e f of Some (m, e') \<Rightarrow> (f, m, e') | None \<Rightarrow> shortest_digits k x n d e (f + 1))"

text \<open>\<open>Math.abs(x).toExponential()\<close> of a finite number other than zero: its digits and its exponent.\<close>

definition toExponential_abs :: "nat \<Rightarrow> int \<Rightarrow> jstr \<times> int" where
  "toExponential_abs m e =
     (let n = f64_num m e; d = f64_den e; (f, v, x) = shortest_digits 17 (F64Fin False m e) n d (ratio_log10 n d) 0
      in (js (dec_nat v), x))"

section \<open>Text of a number\<close>

definition zeros :: "nat \<Rightarrow> jstr" where
  "zeros n = replicate n 48"

definition dec_js :: "int \<Rightarrow> jstr" where
  "dec_js i = js (dec_int i)"

text \<open>\<open>String(x)\<close>.\<close>

definition positive_text :: "nat \<Rightarrow> int \<Rightarrow> jstr" where
  "positive_text m e =
     (let (ds, x) = toExponential_abs m e; k = int (length ds); n = x + 1 in
      if k \<le> n \<and> n \<le> 21 then ds @ zeros (nat (n - k))
      else if 0 < n \<and> n \<le> 21 then take (nat n) ds @ [46] @ drop (nat n) ds
      else if -6 < n \<and> n \<le> 0 then [48, 46] @ zeros (nat (- n)) @ ds
      else take 1 ds @ (if k = 1 then [] else [46] @ drop 1 ds) @ [101, if x < 0 then 45 else 43] @ dec_js \<bar>x\<bar>)"

fun String_f64 :: "f64 \<Rightarrow> jstr" where
  "String_f64 F64NaN = js ''NaN''"
| "String_f64 (F64Inf b) = (if b then js ''-Infinity'' else js ''Infinity'')"
| "String_f64 (F64Fin b m e) = (if m = 0 then js ''0'' else (if b then [45] else []) @ positive_text m e)"

section \<open>Comparison and sums\<close>

text \<open>A finite number as an integer count of the smallest positive number.\<close>

fun f64_ticks :: "f64 \<Rightarrow> int" where
  "f64_ticks (F64Fin b m e) = (if b then - 1 else 1) * int m * 2 ^ nat (e + 1074)"
| "f64_ticks _ = 0"

fun f64_eq :: "f64 \<Rightarrow> f64 \<Rightarrow> bool" where
  "f64_eq F64NaN y = False"
| "f64_eq x F64NaN = False"
| "f64_eq (F64Inf a) y = (y = F64Inf a)"
| "f64_eq x (F64Inf b) = False"
| "f64_eq x y = (f64_ticks x = f64_ticks y)"

fun f64_less :: "f64 \<Rightarrow> f64 \<Rightarrow> bool" where
  "f64_less F64NaN y = False"
| "f64_less x F64NaN = False"
| "f64_less (F64Inf a) (F64Inf b) = (a \<and> \<not> b)"
| "f64_less (F64Inf a) y = a"
| "f64_less x (F64Inf b) = (\<not> b)"
| "f64_less x y = (f64_ticks x < f64_ticks y)"

definition f64_le :: "f64 \<Rightarrow> f64 \<Rightarrow> bool" where
  "f64_le x y = (f64_less x y \<or> f64_eq x y)"

definition f64_of_ticks :: "bool \<Rightarrow> int \<Rightarrow> f64" where
  "f64_of_ticks negzero i = nearest_f64 (i < 0 \<or> i = 0 \<and> negzero) (nat \<bar>i\<bar>) (2 ^ 1074)"

fun f64_add :: "f64 \<Rightarrow> f64 \<Rightarrow> f64" where
  "f64_add F64NaN y = F64NaN"
| "f64_add x F64NaN = F64NaN"
| "f64_add (F64Inf a) (F64Inf b) = (if a = b then F64Inf a else F64NaN)"
| "f64_add (F64Inf a) y = F64Inf a"
| "f64_add x (F64Inf b) = F64Inf b"
| "f64_add x y = f64_of_ticks (f_neg x \<and> f_neg y) (f64_ticks x + f64_ticks y)"

fun f64_uminus :: "f64 \<Rightarrow> f64" where
  "f64_uminus F64NaN = F64NaN"
| "f64_uminus (F64Inf b) = F64Inf (\<not> b)"
| "f64_uminus (F64Fin b m e) = F64Fin (\<not> b) m e"

definition f64_sub :: "f64 \<Rightarrow> f64 \<Rightarrow> f64" where
  "f64_sub x y = f64_add x (f64_uminus y)"

text \<open>An integer literal of the code.\<close>

definition f64_of_int :: "int \<Rightarrow> f64" where
  "f64_of_int i = nearest_f64 (i < 0) (nat \<bar>i\<bar>) 1"

section \<open>Products, quotients and integers\<close>

fun f64_mul :: "f64 \<Rightarrow> f64 \<Rightarrow> f64" where
  "f64_mul F64NaN y = F64NaN"
| "f64_mul x F64NaN = F64NaN"
| "f64_mul (F64Inf a) (F64Inf b) = F64Inf (a \<noteq> b)"
| "f64_mul (F64Inf a) (F64Fin b m e) = (if m = 0 then F64NaN else F64Inf (a \<noteq> b))"
| "f64_mul (F64Fin a m e) (F64Inf b) = (if m = 0 then F64NaN else F64Inf (a \<noteq> b))"
| "f64_mul (F64Fin a m e) (F64Fin b n x) = nearest_f64 (a \<noteq> b) (f64_num m e * f64_num n x) (f64_den e * f64_den x)"

fun f64_div :: "f64 \<Rightarrow> f64 \<Rightarrow> f64" where
  "f64_div F64NaN y = F64NaN"
| "f64_div x F64NaN = F64NaN"
| "f64_div (F64Inf a) (F64Inf b) = F64NaN"
| "f64_div (F64Inf a) (F64Fin b m e) = F64Inf (a \<noteq> b)"
| "f64_div (F64Fin a m e) (F64Inf b) = F64Fin (a \<noteq> b) 0 (-1074)"
| "f64_div (F64Fin a m e) (F64Fin b n x) =
     (if n = 0 then if m = 0 then F64NaN else F64Inf (a \<noteq> b)
      else nearest_f64 (a \<noteq> b) (f64_num m e * f64_den x) (f64_den e * f64_num n x))"

text \<open>The number 1 as a count of the smallest positive number.\<close>

definition one_ticks :: int where "one_ticks = 2 ^ 1074"

text \<open>\<open>Math.ceil\<close> and \<open>Math.round\<close>; a result 0 keeps the sign of the argument.\<close>

definition int_or_zero :: "bool \<Rightarrow> int \<Rightarrow> f64" where
  "int_or_zero neg i = (if i = 0 then F64Fin neg 0 (-1074) else f64_of_int i)"

definition Math_ceil :: "f64 \<Rightarrow> f64" where
  "Math_ceil x = (case x of F64Fin b m e \<Rightarrow> int_or_zero b (- ((- f64_ticks x) div one_ticks)) | _ \<Rightarrow> x)"

definition Math_round :: "f64 \<Rightarrow> f64" where
  "Math_round x = (case x of F64Fin b m e \<Rightarrow> int_or_zero b ((2 * f64_ticks x + one_ticks) div (2 * one_ticks)) | _ \<Rightarrow> x)"

text \<open>\<open>BigInt(x)\<close>, which throws on a fraction.\<close>

definition BigInt_f64 :: "f64 \<Rightarrow> int option" where
  "BigInt_f64 x = (case x of F64Fin b m e \<Rightarrow>
      if f64_ticks x mod one_ticks = 0 then Some (f64_ticks x div one_ticks) else None | _ \<Rightarrow> None)"

section \<open>Integers are exact\<close>

lemma ratio_log2_quotient:
  assumes "n > 0" "d > 0"
  obtains k where "ratio_log2 (n * d) d = int k" "2 ^ k \<le> n" "n < 2 ^ Suc k"
proof -
  define a where "a = floorlog 2 (n * d)"
  define b where "b = floorlog 2 d"
  have N: "2 ^ (a - 1) \<le> n * d" "n * d < 2 ^ a" and D: "2 ^ (b - 1) \<le> d" "d < 2 ^ b"
    using floorlog_bounds [of "n * d" 2] floorlog_bounds [of d 2] assms by (simp_all add: a_def b_def)
  have ab: "b \<le> a" unfolding a_def b_def using assms by (intro floorlog_mono) simp
  have pos: "a > 0" "b > 0" using N D assms by (auto intro: gr0I)
  obtain c where c: "a = b + c" using ab le_Suc_ex by blast
  have "n * 2 ^ (b - 1) \<le> n * d" using D(1) by simp
  also have "\<dots> < 2 ^ (b - 1) * 2 ^ Suc c" using N(2) pos(2) by (cases b) (simp_all add: c power_add mult_ac)
  finally have up: "n < 2 ^ Suc c" by (simp add: mult.commute)
  have "2 ^ (a - 1) < n * 2 ^ b" using N(1) D(2) assms(1) by (meson le_less_trans mult_less_mono2)
  then have low: "c > 0 \<Longrightarrow> 2 ^ (c - 1) \<le> n" using c pos
    by (metis Nat.add_diff_assoc One_nat_def Suc_leI less_imp_le mult.commute mult_less_cancel1 power_add add.commute less_or_eq_imp_le)
  have r: "ratio_log2 (n * d) d = (if n * d \<ge> d * 2 ^ c then int c else int c - 1)"
    by (simp add: ratio_log2_def a_def [symmetric] b_def [symmetric] c Let_def scale_num_def scale_den_def)
  show ?thesis
  proof (cases "2 ^ c \<le> n")
    case True
    then have "n * d \<ge> d * 2 ^ c" by (simp add: mult.commute)
    then show ?thesis using that [of c] r True up by simp
  next
    case False
    then have "\<not> n * d \<ge> d * 2 ^ c" using assms(2) by (simp add: mult.commute)
    moreover have "c > 0" using False assms(1) by (intro gr0I) simp
    ultimately show ?thesis using that [of "c - 1"] r low False by simp
  qed
qed

text \<open>A binary64 number that is a natural number.\<close>

definition f64_is :: "f64 \<Rightarrow> nat \<Rightarrow> bool" where
  "f64_is x n = (\<exists>m e. x = F64Fin False m e \<and> - 1074 \<le> e \<and> f64_num m e = n * f64_den e)"

lemma nearest_exact:
  assumes "d > 0" "n < 2 ^ 53"
  shows "f64_is (nearest_f64 False (n * d) d) n"
proof (cases "n = 0")
  case True
  then show ?thesis by (simp add: nearest_f64_def f64_is_def f64_num_def)
next
  case False
  then obtain k where k: "ratio_log2 (n * d) d = int k" "2 ^ k \<le> n" "n < 2 ^ Suc k"
    using ratio_log2_quotient [of n d] assms(1) by auto
  have "k < 53" using k(2) assms(2) by (metis le_less_trans power_less_imp_less_exp one_less_numeral_iff semiring_norm(76))
  then obtain j where j: "52 = k + j" by (metis less_Suc_eq_le numeral_Bit0 numeral_Bit1 le_Suc_ex eval_nat_numeral(3) numeral_eq_Suc pred_numeral_simps)
  have e: "max (int k - 52) (- 1074) = - int j" using j by simp
  have q: "round_div (scale_num (n * d) (- int j)) (scale_den d (- int j)) = n * 2 ^ j"
    using assms(1) by (cases "j = 0") (simp_all add: round_div_def scale_num_def scale_den_def Let_def mult.assoc mult.commute [of d] flip: mult.assoc)
  have "n * 2 ^ j < 2 ^ Suc k * 2 ^ j" using k(3) by simp
  also have "2 ^ Suc k * 2 ^ j = (2 ^ (Suc k + j) :: nat)" by (simp only: power_add)
  also have "Suc k + j = 53" using j by simp
  finally have "n * 2 ^ j \<noteq> 2 ^ 53" by simp
  then have "nearest_f64 False (n * d) d = F64Fin False (n * 2 ^ j) (- int j)"
    using False assms(1) k(1) e q by (simp add: nearest_f64_def Let_def)
  moreover have "f64_num (n * 2 ^ j) (- int j) = n * f64_den (- int j)" by (simp add: f64_num_def f64_den_def)
  moreover have "j \<le> 52" using j by simp
  ultimately show ?thesis unfolding f64_is_def by auto
qed

lemma f64_is_int: "n < 2 ^ 53 \<Longrightarrow> f64_is (f64_of_int (int n)) n"
  using nearest_exact [of 1 n] by (simp add: f64_of_int_def)

lemma f64_is_mul:
  assumes "f64_is x a" "f64_is y b" "a * b < 2 ^ 53"
  shows "f64_is (f64_mul x y) (a * b)"
proof -
  obtain m e n k where x: "x = F64Fin False m e" "f64_num m e = a * f64_den e" and y: "y = F64Fin False n k" "f64_num n k = b * f64_den k"
    using assms(1,2) by (auto simp: f64_is_def)
  have "f64_den e * f64_den k > 0" by (simp add: f64_den_def)
  from nearest_exact [OF this assms(3)] show ?thesis by (simp add: x y mult_ac)
qed

lemma f64_is_div:
  assumes "f64_is x (a * b)" "f64_is y b" "b > 0" "a < 2 ^ 53"
  shows "f64_is (f64_div x y) a"
proof -
  obtain m e n k where x: "x = F64Fin False m e" "f64_num m e = a * b * f64_den e" and y: "y = F64Fin False n k" "f64_num n k = b * f64_den k"
    using assms(1,2) by (auto simp: f64_is_def)
  have "n \<noteq> 0" using y(2) assms(3) by (auto simp: f64_num_def f64_den_def split: if_splits)
  moreover have "f64_den e * (b * f64_den k) > 0" using assms(3) by (simp add: f64_den_def)
  from nearest_exact [OF this assms(4)] have "f64_is (nearest_f64 False (f64_num m e * f64_den k) (f64_den e * f64_num n k)) a"
    by (simp add: x y mult_ac)
  ultimately show ?thesis by (simp add: x(1) y(1))
qed

lemma one_ticks_pos: "one_ticks > 0"
  by (simp only: one_ticks_def zero_less_power zero_less_numeral)

lemma f64_is_ticks: "f64_is x n \<Longrightarrow> (\<exists>m e. x = F64Fin False m e) \<and> f64_ticks x = int n * one_ticks"
proof -
  assume "f64_is x n"
  then obtain m e where x: "x = F64Fin False m e" "- 1074 \<le> e" "f64_num m e = n * f64_den e" by (auto simp: f64_is_def)
  have "int m * 2 ^ nat (e + 1074) = int n * one_ticks"
  proof (cases "e < 0")
    case True
    then have "m = n * 2 ^ nat (- e)" using x(3) by (simp add: f64_num_def f64_den_def)
    then have "int m * 2 ^ nat (e + 1074) = int n * (2 ^ nat (- e) * 2 ^ nat (e + 1074))" by simp
    also have "2 ^ nat (- e) * 2 ^ nat (e + 1074) = (2 ^ (nat (- e) + nat (e + 1074)) :: int)" by (simp only: power_add)
    also have "nat (- e) + nat (e + 1074) = 1074" using True x(2) by (simp flip: nat_add_distrib)
    finally show ?thesis unfolding one_ticks_def .
  next
    case False
    then have "n = m * 2 ^ nat e" using x(3) by (simp add: f64_num_def f64_den_def)
    moreover have "nat (e + 1074) = nat e + 1074" using False by (simp add: nat_add_distrib)
    ultimately show ?thesis by (simp only: one_ticks_def power_add of_nat_mult of_nat_power of_nat_numeral mult.assoc)
  qed
  then show ?thesis by (simp add: x(1))
qed

lemma f64_is_round: "f64_is x n \<Longrightarrow> n < 2 ^ 53 \<Longrightarrow> f64_is (Math_round x) n"
proof -
  assume x: "f64_is x n" and n: "n < 2 ^ 53"
  obtain m e where "x = F64Fin False m e" "f64_ticks x = int n * one_ticks" using f64_is_ticks [OF x] by blast
  moreover have "(2 * (int n * one_ticks) + one_ticks) div (2 * one_ticks) = int n"
    using one_ticks_pos by (intro int_div_pos_eq [where r = one_ticks]) simp_all
  moreover have "f64_is (int_or_zero False (int n)) n"
    using f64_is_int [OF n] by (simp add: int_or_zero_def f64_is_def f64_num_def)
  ultimately show ?thesis by (simp add: Math_round_def del: f64_ticks.simps)
qed

lemma f64_is_ceil: "f64_is x n \<Longrightarrow> n < 2 ^ 53 \<Longrightarrow> f64_is (Math_ceil x) n"
proof -
  assume x: "f64_is x n" and n: "n < 2 ^ 53"
  obtain m e where "x = F64Fin False m e" "f64_ticks x = int n * one_ticks" using f64_is_ticks [OF x] by blast
  moreover have "- ((- (int n * one_ticks)) div one_ticks) = int n" using one_ticks_pos nonzero_mult_div_cancel_right [of one_ticks "- int n"] by simp
  moreover have "f64_is (int_or_zero False (int n)) n"
    using f64_is_int [OF n] by (simp add: int_or_zero_def f64_is_def f64_num_def)
  ultimately show ?thesis by (simp add: Math_ceil_def del: f64_ticks.simps)
qed

lemma BigInt_f64_is: "f64_is x n \<Longrightarrow> BigInt_f64 x = Some (int n)"
  using f64_is_ticks [of x n] one_ticks_pos by (auto simp: BigInt_f64_def simp del: f64_ticks.simps)

lemma BigInt_of_nat: "n < 2 ^ 53 \<Longrightarrow> BigInt_f64 (f64_of_int (int n)) = Some (int n)"
  by (rule BigInt_f64_is [OF f64_is_int])

lemma f64_is_less: "f64_is x a \<Longrightarrow> f64_is y b \<Longrightarrow> f64_less x y \<longleftrightarrow> a < b"
  using f64_is_ticks [of x a] f64_is_ticks [of y b] one_ticks_pos by (auto simp del: f64_ticks.simps)

lemma f64_is_le: "f64_is x a \<Longrightarrow> f64_is y b \<Longrightarrow> f64_le x y \<longleftrightarrow> a \<le> b"
  using f64_is_ticks [of x a] f64_is_ticks [of y b] one_ticks_pos by (auto simp: f64_le_def simp del: f64_ticks.simps)

lemma f64_eq_refl: "x \<noteq> F64NaN \<Longrightarrow> f64_eq x x"
  by (cases x) simp_all

end
