(* ===== verification/Canonical_Encoding.thy ===== *)
theory Canonical_Encoding
  imports F64 "HOL-Library.List_Lexorder"
begin

text \<open>
  The canonical encodings of \<open>packages/core/src/finality-verify.ts\<close>: the exact serde_json text of a
  transaction, a finality proof and a block header, and the hashes over them. A thrown
  \<open>EncodeError\<close> is \<^const>\<open>None\<close>; its message, which names the field, is left out. A property that
  is absent (\<open>undefined\<close>) is \<^const>\<open>None\<close> as well.

  The theorems show that the hashed bytes are unambiguous: a block's transaction preimage
  determines the encoding of each transaction, their number and their order, and a block preimage
  determines the header's encoding and the signature.
\<close>

section \<open>Values\<close>

fun isObj :: "LosslessJson option \<Rightarrow> bool" where
  "isObj (Some (JObject kvs)) = True"
| "isObj _ = False"

definition own :: "(jstr \<times> LosslessJson) list \<Rightarrow> string \<Rightarrow> LosslessJson option" where
  "own kvs k = map_of kvs (js k)"

text \<open>\<open>v.k\<close>, with \<open>undefined\<close> for a value that is not an object.\<close>

fun field_of :: "LosslessJson option \<Rightarrow> string \<Rightarrow> LosslessJson option" where
  "field_of (Some (JObject kvs)) k = own kvs k"
| "field_of _ k = None"

section \<open>Numbers\<close>

definition formatF64 :: "f64 \<Rightarrow> jstr option" where
  "formatF64 x = (case x of F64NaN \<Rightarrow> None | F64Inf b \<Rightarrow> None
     | F64Fin neg m ex \<Rightarrow>
       if m = 0 then Some (if neg then js ''-0.0'' else js ''0.0'')
       else let sgn = (if neg then [45] else []);
                (digits, e) = toExponential_abs m ex;
                len = int (length digits)
            in if -5 \<le> e \<and> e \<le> 15 then
                 Some (if len - 1 \<le> e then sgn @ digits @ zeros (nat (e - (len - 1))) @ js ''.0''
                       else if e \<ge> 0 then sgn @ take (nat (e + 1)) digits @ [46] @ drop (nat (e + 1)) digits
                       else sgn @ js ''0.'' @ zeros (nat (- e - 1)) @ digits)
               else Some (sgn @ take 1 digits @ (if len > 1 then [46] @ drop 1 digits else []) @
                 [101, if e < 0 then 45 else 43] @ dec_js \<bar>e\<bar>))"

definition U64_MAX :: int where "U64_MAX = 2 ^ 64 - 1"
definition U128_MAX :: int where "U128_MAX = 2 ^ 128 - 1"
definition I64_MIN :: int where "I64_MIN = - (2 ^ 63)"

text \<open>The test \<open>/^(0|[1-9][0-9]*)$/\<close>.\<close>

definition uint_text :: "jstr \<Rightarrow> bool" where
  "uint_text x = (x = [48] \<or> x \<noteq> [] \<and> hd x \<noteq> 48 \<and> list_all is_dig x)"

definition encUint :: "LosslessJson option \<Rightarrow> int \<Rightarrow> jstr option" where
  "encUint v mx = (case v of
      Some (JsonNumber x) \<Rightarrow> if \<not> uint_text x then None else if int (dec_units x) > mx then None else Some x
    | _ \<Rightarrow> None)"

definition encF64 :: "LosslessJson option \<Rightarrow> jstr option" where
  "encF64 v = (case v of Some (JsonNumber x) \<Rightarrow> formatF64 (Number_raw x) | _ \<Rightarrow> None)"

definition encStr :: "LosslessJson option \<Rightarrow> jstr option" where
  "encStr v = (case v of Some (JString s) \<Rightarrow> Some (quoteJson s) | _ \<Rightarrow> None)"

definition encBool :: "LosslessJson option \<Rightarrow> jstr option" where
  "encBool v = (case v of Some (JBool b) \<Rightarrow> Some (if b then js ''true'' else js ''false'') | _ \<Rightarrow> None)"

text \<open>The code points \<open>Array.from\<close> splits a string into.\<close>

fun code_points :: "jstr \<Rightarrow> nat list" where
  "code_points [] = []"
| "code_points [u] = [u]"
| "code_points (u # v # us) =
     (if high_surrogate u \<and> low_surrogate v then (65536 + (u - 55296) * 1024 + (v - 56320)) # code_points us
      else u # code_points (v # us))"

text \<open>The options of a list of encodings: an error in one is an error of the whole.\<close>

fun those :: "'a option list \<Rightarrow> 'a list option" where
  "those [] = Some []"
| "those (None # xs) = None"
| "those (Some x # xs) = map_option ((#) x) (those xs)"

definition encInteger :: "jstr \<Rightarrow> jstr option" where
  "encInteger x = (let neg = (x \<noteq> [] \<and> hd x = 45); ds = (if neg then tl x else x); n = (if neg then - int (dec_units ds) else int (dec_units ds)) in
     if uint_text ds \<and> x \<noteq> js ''-0'' \<and> n \<le> U64_MAX \<and> n \<ge> I64_MIN then Some (dec_js n) else None)"

text \<open>Object keys in the order of their code points. The encodings are computed first and sorted with
  their keys.\<close>

fun encValue :: "LosslessJson \<Rightarrow> jstr option" where
  "encValue JNull = Some (stringifyLossless JNull)"
| "encValue (JBool b) = Some (stringifyLossless (JBool b))"
| "encValue (JString s) = Some (stringifyLossless (JString s))"
| "encValue (JsonNumber x) = (case encInteger x of Some t \<Rightarrow> Some t | None \<Rightarrow> formatF64 (Number_raw x))"
| "encValue (JArray vs) = map_option (\<lambda>ts. [91] @ joined [44] ts @ [93]) (those (map encValue vs))"
| "encValue (JObject kvs) = map_option (\<lambda>ts. [123] @ joined [44] ts @ [125])
     (those (map (\<lambda>kt. map_option (\<lambda>t. quoteJson (fst kt) @ [58] @ t) (snd kt))
       (sort_key (\<lambda>kt. code_points (fst kt)) (own_props (map (\<lambda>kv. (fst kv, encValue (snd kv))) kvs)))))"

section \<open>Structs\<close>

datatype Kind = KStr | KU8 | KU16 | KU32 | KU64 | KU128 | KF64 | KBool | KVstr | KVu64 | KValue | KVvalue

definition encArray :: "(LosslessJson \<Rightarrow> jstr option) \<Rightarrow> LosslessJson option \<Rightarrow> jstr option" where
  "encArray f v = (case v of Some (JArray vs) \<Rightarrow> map_option (\<lambda>ts. [91] @ joined [44] ts @ [93]) (those (map f vs)) | _ \<Rightarrow> None)"

fun encKind :: "Kind \<Rightarrow> LosslessJson option \<Rightarrow> jstr option" where
  "encKind KStr v = encStr v"
| "encKind KU8 v = encUint v 255"
| "encKind KU16 v = encUint v 65535"
| "encKind KU32 v = encUint v 4294967295"
| "encKind KU64 v = encUint v U64_MAX"
| "encKind KU128 v = encUint v U128_MAX"
| "encKind KF64 v = encF64 v"
| "encKind KBool v = encBool v"
| "encKind KVstr v = encArray (\<lambda>x. encStr (Some x)) v"
| "encKind KVu64 v = encArray (\<lambda>x. encUint (Some x) U64_MAX) v"
| "encKind KValue v = Option.bind v encValue"
| "encKind KVvalue v = encArray encValue v"

datatype Mode = MReq | MNull | MSkip

type_synonym Field = "string \<times> Kind \<times> Mode"

text \<open>The texts a struct's fields add, in order.\<close>

definition encField :: "(jstr \<times> LosslessJson) list \<Rightarrow> Field \<Rightarrow> jstr list option" where
  "encField kvs f = (case f of (name, kind, mode) \<Rightarrow>
     let x = own kvs name; item = map_option (\<lambda>t. [quoteJson (js name) @ [58] @ t]) (encKind kind x) in
     if mode = MReq then (if x = None then None else item)
     else if x = None \<or> x = Some JNull then Some (if mode = MNull then [quoteJson (js name) @ js '':null''] else [])
     else item)"

definition encStruct :: "LosslessJson option \<Rightarrow> Field list \<Rightarrow> jstr option" where
  "encStruct v fields = (case v of
      Some (JObject kvs) \<Rightarrow>
        if \<not> list_all (\<lambda>kv. fst kv \<in> set (map (\<lambda>f. js (fst f)) fields)) kvs then None
        else map_option (\<lambda>out. [123] @ joined [44] (concat out) @ [125]) (those (map (encField kvs) fields))
    | _ \<Rightarrow> None)"


text \<open>\<open>TxPayload\<close> in declaration order.\<close>

definition PAYLOAD_FIELDS :: "Field list" where
  "PAYLOAD_FIELDS = [
    (''to_pub_key_hex'', KStr, MNull), (''amount'', KU64, MNull), (''faucet'', KBool, MNull),
    (''target_pub_key'', KStr, MNull), (''reason'', KStr, MNull), (''token_name'', KStr, MNull),
    (''token_symbol'', KStr, MNull), (''token_decimals'', KU8, MNull), (''token_total_supply'', KU64, MNull),
    (''metadata_image'', KStr, MNull), (''metadata_description'', KStr, MNull), (''metadata_website'', KStr, MNull),
    (''metadata_twitter'', KStr, MNull), (''metadata_discord'', KStr, MNull), (''pool_id'', KStr, MNull),
    (''token_a_symbol'', KStr, MNull), (''token_b_symbol'', KStr, MNull), (''amount_a'', KU64, MNull),
    (''amount_b'', KU64, MNull), (''min_amount_out'', KU64, MNull), (''swap_path'', KVstr, MNull),
    (''lp_amount'', KU64, MNull), (''evm_address'', KStr, MNull), (''nft_collection_symbol'', KStr, MSkip),
    (''nft_collection_name'', KStr, MSkip), (''nft_collection_id'', KStr, MSkip), (''nft_description'', KStr, MSkip),
    (''nft_image'', KStr, MSkip), (''nft_max_supply'', KU64, MSkip), (''nft_royalty_bps'', KU16, MSkip),
    (''nft_royalty_recipient'', KStr, MSkip), (''nft_token_id'', KU64, MSkip), (''nft_token_name'', KStr, MSkip),
    (''nft_metadata_uri'', KStr, MSkip), (''nft_attributes'', KValue, MSkip), (''nft_locked'', KBool, MSkip),
    (''nft_public_mint'', KBool, MNull), (''nft_mint_price'', KF64, MSkip), (''nft_token_gate_symbol'', KStr, MSkip),
    (''nft_token_gate_amount'', KF64, MSkip), (''nft_discount_pct'', KU32, MSkip), (''nft_frozen'', KBool, MSkip),
    (''nft_batch_names'', KVstr, MSkip), (''nft_batch_uris'', KVstr, MSkip),
    (''nft_batch_attributes'', KVvalue, MSkip), (''shielded_nullifiers'', KVstr, MSkip),
    (''shielded_output_commitments'', KVstr, MSkip), (''shielded_proof'', KStr, MSkip),
    (''shielded_fee'', KU64, MSkip), (''shielded_commitment'', KStr, MSkip), (''shielded_value'', KU64, MSkip),
    (''shielded_randomness'', KStr, MSkip), (''lock_until_height'', KU64, MSkip), (''lock_id'', KStr, MSkip),
    (''staking_pool_id'', KStr, MSkip), (''staking_reward_rate'', KU64, MSkip), (''proposal_id'', KStr, MSkip),
    (''proposal_title'', KStr, MSkip), (''proposal_description'', KStr, MSkip), (''vote_option'', KStr, MSkip),
    (''proposal_end_height'', KU64, MSkip), (''proposal_type'', KStr, MSkip),
    (''proposal_action_payload'', KValue, MSkip), (''proposal_quorum'', KU64, MSkip),
    (''proposal_timelock_blocks'', KU64, MSkip), (''delegate_to'', KStr, MSkip), (''spender_pub_key'', KStr, MSkip),
    (''allowance_amount'', KU64, MSkip), (''owner_pub_key'', KStr, MSkip), (''airdrop_recipients'', KVstr, MSkip),
    (''airdrop_amounts'', KVu64, MSkip), (''contract_wasm'', KStr, MSkip), (''contract_addr'', KStr, MSkip),
    (''contract_method'', KStr, MSkip), (''contract_args'', KValue, MSkip), (''contract_gas_limit'', KU64, MSkip),
    (''contract_attach_symbol'', KStr, MSkip), (''contract_attach_amount'', KU64, MSkip),
    (''multisig_wallet_id'', KStr, MSkip), (''multisig_signers'', KVstr, MSkip),
    (''multisig_threshold'', KU32, MSkip), (''multisig_label'', KStr, MSkip),
    (''multisig_proposal_id'', KStr, MSkip), (''multisig_proposal_tx_type'', KStr, MSkip),
    (''multisig_proposal_payload'', KValue, MSkip), (''multisig_proposal_fee'', KF64, MSkip),
    (''multisig_approval_sig'', KStr, MSkip), (''limit_order_id'', KStr, MSkip),
    (''limit_order_expires'', KU64, MSkip), (''token_mintable'', KBool, MSkip), (''token_max_supply'', KU64, MSkip),
    (''shield_v2_body'', KStr, MSkip), (''shield_v2_proof'', KStr, MSkip)]"

definition VOTE_FIELDS :: "Field list" where
  "VOTE_FIELDS = [
    (''vote_type'', KStr, MReq), (''height'', KU64, MReq), (''round'', KU32, MReq), (''block_hash'', KStr, MReq),
    (''voter_pub_key'', KStr, MReq), (''signature'', KStr, MReq)]"

text \<open>The literals \<open>"name":\<close> of the encoders; no name has a character that needs an escape.\<close>

definition labelled :: "string \<Rightarrow> jstr option \<Rightarrow> jstr option" where
  "labelled name t = map_option (\<lambda>x. quoteJson (js name) @ [58] @ x) t"

definition present :: "(jstr \<times> LosslessJson) list \<Rightarrow> string \<Rightarrow> bool" where
  "present kvs k = (own kvs k \<noteq> None \<and> own kvs k \<noteq> Some JNull)"

text \<open>The key tests the three encoders start with: no unknown key, every required key.\<close>

definition shape_ok :: "string list \<Rightarrow> nat \<Rightarrow> (jstr \<times> LosslessJson) list \<Rightarrow> bool" where
  "shape_ok known n kvs = (list_all (\<lambda>kv. fst kv \<in> set (map js known)) kvs \<and> list_all (\<lambda>k. own kvs k \<noteq> None) (take n known))"

definition record_text :: "jstr option list \<Rightarrow> jstr option" where
  "record_text parts = map_option (\<lambda>ts. [123] @ joined [44] ts @ [125]) (those parts)"

definition encodeTxV1 :: "LosslessJson \<Rightarrow> jstr option" where
  "encodeTxV1 tx = (case tx of
      JObject kvs \<Rightarrow>
        if \<not> shape_ok [''version'', ''tx_type'', ''from_pub_key'', ''nonce'', ''payload'', ''fee'', ''sig'', ''signed_payload''] 7 kvs then None
        else record_text
          ([labelled ''version'' (encUint (own kvs ''version'') 4294967295),
            labelled ''tx_type'' (encStr (own kvs ''tx_type'')),
            labelled ''from_pub_key'' (encStr (own kvs ''from_pub_key'')),
            labelled ''nonce'' (encUint (own kvs ''nonce'') U64_MAX),
            labelled ''payload'' (encStruct (own kvs ''payload'') PAYLOAD_FIELDS),
            labelled ''fee'' (encF64 (own kvs ''fee'')),
            labelled ''sig'' (encStr (own kvs ''sig''))] @
           (if present kvs ''signed_payload'' then [labelled ''signed_payload'' (encStr (own kvs ''signed_payload''))] else []))
    | _ \<Rightarrow> None)"

definition encodeFinalityProof :: "LosslessJson \<Rightarrow> jstr option" where
  "encodeFinalityProof p = (case p of
      JObject kvs \<Rightarrow>
        if \<not> shape_ok [''height'', ''block_hash'', ''total_stake'', ''voting_stake'', ''quorum_threshold'', ''precommit_votes'', ''created_at''] 7 kvs then None
        else (case own kvs ''precommit_votes'' of
          Some (JArray votes) \<Rightarrow> record_text
            [labelled ''height'' (encUint (own kvs ''height'') U64_MAX),
             labelled ''block_hash'' (encStr (own kvs ''block_hash'')),
             labelled ''total_stake'' (encUint (own kvs ''total_stake'') U128_MAX),
             labelled ''voting_stake'' (encUint (own kvs ''voting_stake'') U128_MAX),
             labelled ''quorum_threshold'' (encUint (own kvs ''quorum_threshold'') U128_MAX),
             labelled ''precommit_votes'' (encArray (\<lambda>v. encStruct (Some v) VOTE_FIELDS) (Some (JArray votes))),
             labelled ''created_at'' (encUint (own kvs ''created_at'') U64_MAX)]
        | _ \<Rightarrow> None)
    | _ \<Rightarrow> None)"

definition encodeHeaderV1 :: "LosslessJson \<Rightarrow> jstr option" where
  "encodeHeaderV1 h = (case h of
      JObject kvs \<Rightarrow>
        if \<not> shape_ok [''version'', ''chain_id'', ''height'', ''time'', ''prev_hash'', ''tx_hash'', ''proposer_pub_key'', ''state_root'', ''parent_commit''] 7 kvs then None
        else record_text
          ([labelled ''version'' (encUint (own kvs ''version'') 4294967295),
            labelled ''chain_id'' (encStr (own kvs ''chain_id'')),
            labelled ''height'' (encUint (own kvs ''height'') U64_MAX),
            labelled ''time'' (encUint (own kvs ''time'') U64_MAX),
            labelled ''prev_hash'' (encStr (own kvs ''prev_hash'')),
            labelled ''tx_hash'' (encStr (own kvs ''tx_hash'')),
            labelled ''proposer_pub_key'' (encStr (own kvs ''proposer_pub_key''))] @
           (if present kvs ''state_root'' then [labelled ''state_root'' (encStr (own kvs ''state_root''))] else []) @
           (if present kvs ''parent_commit'' then [labelled ''parent_commit'' (Option.bind (own kvs ''parent_commit'') encodeFinalityProof)] else []))
    | _ \<Rightarrow> None)"

section \<open>Bytes and hashes\<close>

text \<open>\<open>TextEncoder\<close>: UTF-8, with a lone surrogate encoded as U+FFFD.\<close>

definition utf8_char :: "nat \<Rightarrow> nat list" where
  "utf8_char n =
     (if n < 128 then [n]
      else if n < 2048 then [192 + n div 64, 128 + n mod 64]
      else if high_surrogate n \<or> low_surrogate n then [239, 191, 189]
      else if n < 65536 then [224 + n div 4096, 128 + n div 64 mod 64, 128 + n mod 64]
      else [240 + n div 262144, 128 + n div 4096 mod 64, 128 + n div 64 mod 64, 128 + n mod 64])"

definition utf8 :: "jstr \<Rightarrow> nat list" where
  "utf8 s = concat (map utf8_char (code_points s))"

definition toHex :: "nat list \<Rightarrow> jstr" where
  "toHex b = concat (map (\<lambda>x. [hex_digit (x div 16), hex_digit (x mod 16)]) b)"

fun hex_bytes :: "jstr \<Rightarrow> nat list option" where
  "hex_bytes [] = Some []"
| "hex_bytes [a] = None"
| "hex_bytes (a # b # t) = (case (hex_value a, hex_value b, hex_bytes t) of
      (Some x, Some y, Some r) \<Rightarrow> Some ((16 * x + y) # r) | _ \<Rightarrow> None)"

definition fromHex :: "jstr \<Rightarrow> nat list option" where
  "fromHex h = (if length h mod 2 \<noteq> 0 \<or> \<not> list_all (\<lambda>c. hex_value c \<noteq> None) h then None else hex_bytes h)"

definition lower_hex :: "nat \<Rightarrow> bool" where
  "lower_hex c = (48 \<le> c \<and> c \<le> 57 \<or> 97 \<le> c \<and> c \<le> 102)"

definition hash_text :: "jstr \<Rightarrow> bool" where
  "hash_text s = (length s = 64 \<and> list_all lower_hex s)"

definition isHash :: "LosslessJson option \<Rightarrow> bool" where
  "isHash v = (case v of Some (JString s) \<Rightarrow> hash_text s | _ \<Rightarrow> False)"

text \<open>The two primitives of the noble libraries the code calls.\<close>

record crypto =
  sha256 :: "nat list \<Rightarrow> nat list"
  ml_dsa65_verify :: "nat list \<Rightarrow> nat list \<Rightarrow> nat list \<Rightarrow> exn + bool"

definition computeSingleTxHash :: "crypto \<Rightarrow> LosslessJson \<Rightarrow> jstr option" where
  "computeSingleTxHash cr tx = map_option (\<lambda>t. toHex (sha256 cr (utf8 t))) (encodeTxV1 tx)"

definition computeTxListHash :: "crypto \<Rightarrow> LosslessJson list \<Rightarrow> jstr option" where
  "computeTxListHash cr txs = map_option (\<lambda>ts. toHex (sha256 cr (concat (map utf8 ts)))) (those (map encodeTxV1 txs))"

definition computeBlockHash :: "crypto \<Rightarrow> LosslessJson \<Rightarrow> jstr \<Rightarrow> jstr option" where
  "computeBlockHash cr header proposerSig =
     map_option (\<lambda>t. toHex (sha256 cr (concat [utf8 t, utf8 proposerSig]))) (encodeHeaderV1 header)"

definition voteSigningMessage :: "jstr \<Rightarrow> jstr \<Rightarrow> jstr \<Rightarrow> nat \<Rightarrow> jstr \<Rightarrow> jstr" where
  "voteSigningMessage chainId voteType height rnd blockHash =
     js ''ROUGECHAIN_FINALITY_VOTE_V2'' @ js ''|chain='' @ chainId @ js ''|type='' @ voteType @ js ''|height='' @ height @
     js ''|round='' @ js (dec_nat rnd) @ js ''|block='' @ blockHash"

definition mlDsaVerify :: "crypto \<Rightarrow> jstr \<Rightarrow> nat list \<Rightarrow> jstr \<Rightarrow> bool" where
  "mlDsaVerify cr pubHex msg sigHex =
     (case (fromHex pubHex, fromHex sigHex) of
        (Some pk, Some sg) \<Rightarrow>
          if length pk \<noteq> 1952 \<or> length sg \<noteq> 3309 then False
          else (case ml_dsa65_verify cr sg msg pk of Inl e \<Rightarrow> False | Inr b \<Rightarrow> b)
      | _ \<Rightarrow> False)"

section \<open>Texts that are balanced\<close>

text \<open>\<open>object_rest\<close> reads bytes up to the brace or bracket that closes the object it is inside, and answers
  what follows. The arguments are the nesting depth, and whether the position is in a string and
  after a backslash.\<close>

fun object_rest :: "nat \<Rightarrow> bool \<Rightarrow> bool \<Rightarrow> nat list \<Rightarrow> nat list option" where
  "object_rest d q e [] = None"
| "object_rest d q e (c # t) =
     (if e then object_rest d q False t
      else if q then object_rest d (c \<noteq> 34) (c = 92) t
      else if c = 34 then object_rest d True False t
      else if c = 123 \<or> c = 91 then object_rest (d + 1) False False t
      else if c = 125 \<or> c = 93 then (if d \<le> 1 then Some t else object_rest (d - 1) False False t)
      else object_rest d False False t)"

text \<open>A text that can be followed by any other, and leaves the nesting where it was.\<close>

definition balanced :: "jstr \<Rightarrow> bool" where
  "balanced t = ((\<forall>u. code_points (t @ u) = code_points t @ code_points u) \<and>
     (\<forall>d u. d \<ge> 1 \<longrightarrow> object_rest d False False (utf8 t @ u) = object_rest d False False u))"

lemma code_points_Cons: "\<not> high_surrogate c \<Longrightarrow> code_points (c # t) = c # code_points t"
  by (cases t) simp_all

lemma code_points_ascii: "list_all (\<lambda>c. c < 128) t \<Longrightarrow> code_points (t @ u) = t @ code_points u"
  by (induction t) (auto simp: code_points_Cons high_surrogate_def)

lemma utf8_ascii: "list_all (\<lambda>c. c < 128) t \<Longrightarrow> utf8 t = t"
  using code_points_ascii [of t "[]"] by (induction t) (auto simp: utf8_def utf8_char_def code_points_Cons high_surrogate_def)

lemma utf8_split: "code_points (t @ u) = code_points t @ code_points u \<Longrightarrow> utf8 (t @ u) = utf8 t @ utf8 u"
  by (simp add: utf8_def)

lemma balanced_append:
  assumes "balanced t" and "balanced u"
  shows "balanced (t @ u)"
proof -
  have cp: "code_points (t @ x) = code_points t @ code_points x" "code_points (u @ x) = code_points u @ code_points x" for x
    using assms by (auto simp: balanced_def)
  then have "utf8 (t @ u) = utf8 t @ utf8 u" by (simp add: utf8_split)
  then show ?thesis using assms cp by (simp add: balanced_def)
qed

lemma balanced_Nil: "balanced []"
  by (simp add: balanced_def utf8_def)

definition plain :: "nat \<Rightarrow> bool" where
  "plain c = (c < 128 \<and> c \<notin> {34, 91, 93, 123, 125})"

lemma object_rest_plain: "list_all plain t \<Longrightarrow> object_rest d False False (t @ u) = object_rest d False False u"
  by (induction t) (auto simp: plain_def)

lemma balanced_plain: "list_all plain t \<Longrightarrow> balanced t"
proof -
  assume t: "list_all plain t"
  then have a: "list_all (\<lambda>c. c < 128) t" by (auto simp: list_all_iff plain_def)
  then have "code_points t = t" using code_points_ascii [of t "[]"] by simp
  with a t show ?thesis by (simp add: balanced_def code_points_ascii utf8_ascii object_rest_plain)
qed

lemma balanced_concat: "list_all balanced ts \<Longrightarrow> balanced (concat ts)"
  by (induction ts) (auto simp: balanced_Nil balanced_append)

lemma balanced_Cons: "plain c \<Longrightarrow> balanced t \<Longrightarrow> balanced (c # t)"
  using balanced_append [OF balanced_plain, of "[c]" t] by simp

lemma balanced_joined: "list_all balanced ts \<Longrightarrow> balanced (joined [44] ts)"
proof (induction ts)
  case (Cons t us)
  then show ?case
    by (cases "us = []") (auto simp: joined_simps plain_def intro!: balanced_append balanced_Cons)
qed (simp add: joined_simps balanced_Nil)

text \<open>Between braces or brackets.\<close>

lemma balanced_enclosed:
  assumes t: "balanced t" and c: "(a, b) = (123, 125) \<or> (a, b) = (91, 93)"
  shows "balanced ([a] @ t @ [b])"
proof -
  have ab: "a < 128" "b < 128" "\<not> high_surrogate a" "\<not> high_surrogate b" using c by (auto simp: high_surrogate_def)
  have cp: "code_points ([a] @ t @ [b] @ u) = [a] @ code_points t @ [b] @ code_points u" for u
    using t ab by (simp add: balanced_def code_points_Cons)
  from cp [of "[]"] have "utf8 ([a] @ t @ [b]) = [a] @ utf8 t @ [b]"
    using ab by (simp add: utf8_def utf8_char_def)
  moreover have "object_rest d False False ([a] @ utf8 t @ [b] @ u) = object_rest d False False u" if "d \<ge> 1" for d u
    using t c that by (auto simp: balanced_def)
  ultimately show ?thesis using cp cp [of "[]"] by (simp add: balanced_def)
qed

text \<open>Inside a string: escapes and code units from 128 up never close it.\<close>

lemma object_rest_high: "list_all (\<lambda>c. c \<ge> 128) t \<Longrightarrow> object_rest d True False (t @ u) = object_rest d True False u"
  by (induction t) auto

lemma utf8_char_high: "n \<ge> 128 \<Longrightarrow> list_all (\<lambda>c. c \<ge> 128) (utf8_char n)"
  by (simp add: utf8_char_def)

definition in_string :: "jstr \<Rightarrow> bool" where
  "in_string t = ((\<forall>u. code_points (t @ u) = code_points t @ code_points u) \<and>
     (\<forall>d u. object_rest d True False (utf8 t @ u) = object_rest d True False u))"

lemma in_string_append:
  assumes "in_string t" and "in_string u"
  shows "in_string (t @ u)"
proof -
  have cp: "code_points (t @ x) = code_points t @ code_points x" "code_points (u @ x) = code_points u @ code_points x" for x
    using assms by (auto simp: in_string_def)
  then have "utf8 (t @ u) = utf8 t @ utf8 u" by (simp add: utf8_split)
  then show ?thesis using assms cp by (simp add: in_string_def)
qed

lemma in_string_plain: "c < 128 \<Longrightarrow> c \<noteq> 34 \<Longrightarrow> c \<noteq> 92 \<Longrightarrow> in_string [c]"
  by (simp add: in_string_def code_points_Cons high_surrogate_def utf8_def utf8_char_def)

lemma in_string_escape: "e < 128 \<Longrightarrow> in_string [92, e]"
  by (simp add: in_string_def code_points_Cons high_surrogate_def utf8_def utf8_char_def)

lemma in_string_ascii: "list_all (\<lambda>c. c < 128 \<and> c \<noteq> 34 \<and> c \<noteq> 92) t \<Longrightarrow> in_string t"
proof (induction t)
  case (Cons c t)
  then show ?case using in_string_append [OF in_string_plain, of c t] by simp
qed (simp add: in_string_def utf8_def)

lemma in_string_unit:
  assumes "\<not> high_surrogate u" and "c = u" and "c \<ge> 128"
  shows "in_string [c]"
proof -
  have "code_points ([c] @ t) = c # code_points t" for t using assms by (simp add: code_points_Cons)
  then show ?thesis
    using object_rest_high [OF utf8_char_high [OF assms(3)]] by (simp add: in_string_def utf8_def)
qed

lemma in_string_pair:
  assumes "high_surrogate u" and "low_surrogate v"
  shows "in_string [u, v]"
proof -
  let ?c = "65536 + (u - 55296) * 1024 + (v - 56320)"
  have "code_points ([u, v] @ t) = ?c # code_points t" for t using assms by simp
  moreover have "list_all (\<lambda>c. c \<ge> 128) (utf8_char ?c)" by (rule utf8_char_high) simp
  ultimately show ?thesis using object_rest_high by (simp add: in_string_def utf8_def)
qed

lemma hex4_in_string: "list_all (\<lambda>c. c < 128 \<and> c \<noteq> 34 \<and> c \<noteq> 92) (hex4 u)"
proof -
  have "hex_digit (n mod 16) < 128 \<and> hex_digit (n mod 16) \<noteq> 34 \<and> hex_digit (n mod 16) \<noteq> 92" for n
  proof -
    have "n mod 16 < 16" by simp
    then show ?thesis unfolding hex_digit_def by (cases "n mod 16 < 10") auto
  qed
  then show ?thesis unfolding hex4_def by (simp only: list.pred_inject simp_thms)
qed

lemma in_string_quote_unit: "in_string (quote_unit u)"
proof (cases "u < 32 \<or> u = 34 \<or> u = 92 \<or> high_surrogate u \<or> low_surrogate u")
  case True
  have "in_string ([92, 117] @ hex4 u)" by (intro in_string_append in_string_escape in_string_ascii hex4_in_string) simp
  with True show ?thesis unfolding quote_unit_def by (auto intro: in_string_escape)
next
  case False
  then have "quote_unit u = [u]" by (auto simp: quote_unit_def)
  with False show ?thesis using in_string_plain [of u] in_string_unit [of u u] by (cases "u < 128") auto
qed

lemma in_string_quote_units: "in_string (quote_units s)"
proof (induction s rule: quote_units.induct)
  case 1
  show ?case by (simp add: in_string_def utf8_def)
next
  case (2 u)
  show ?case by (simp add: in_string_quote_unit)
next
  case (3 u v us)
  show ?case
  proof (cases "high_surrogate u \<and> low_surrogate v")
    case True
    with 3 have "in_string ([u, v] @ quote_units us)" by (intro in_string_append in_string_pair) auto
    with True show ?thesis by simp
  next
    case False
    with 3 have "in_string (quote_unit u @ quote_units (v # us))" by (intro in_string_append in_string_quote_unit) auto
    with False show ?thesis by auto
  qed
qed

lemma balanced_quote: "balanced (quoteJson s)"
  unfolding balanced_def
proof (intro conjI allI impI)
  have i: "in_string (quote_units s)" by (rule in_string_quote_units)
  have cp: "code_points (quoteJson s @ u) = [34] @ code_points (quote_units s) @ [34] @ code_points u" for u
    using i by (simp add: quoteJson_def in_string_def code_points_Cons high_surrogate_def)
  have cp0: "code_points (quoteJson s) = [34] @ code_points (quote_units s) @ [34]"
    using cp [of "[]"] by simp
  show "code_points (quoteJson s @ u) = code_points (quoteJson s) @ code_points u" for u
    by (simp add: cp cp0)
  have "utf8 (quoteJson s) = [34] @ utf8 (quote_units s) @ [34]"
    unfolding utf8_def cp0 by (simp add: utf8_char_def)
  then show "object_rest d False False (utf8 (quoteJson s) @ u) = object_rest d False False u" for d u
    using i by (simp add: in_string_def)
qed

section \<open>Every encoding is balanced\<close>

lemma those_eq: "those xs = Some ys \<longleftrightarrow> xs = map Some ys"
proof (induction xs arbitrary: ys)
  case (Cons x xs)
  then show ?case by (cases x; cases ys) auto
qed auto

lemma plain_dec_nat: "list_all plain (js (dec_nat n))"
  using dec_nat_digits [of n] by (auto simp: js_def list_all_iff plain_def is_digit_def)

lemma plain_dec_js: "list_all plain (dec_js i)"
  using plain_dec_nat by (auto simp: dec_js_def dec_int_def js_def plain_def)

lemma plain_zeros: "list_all plain (zeros n)"
  by (simp add: zeros_def plain_def list_all_iff)

lemma plain_take_drop: "list_all plain t \<Longrightarrow> list_all plain (take n t) \<and> list_all plain (drop n t)"
  by (auto simp: list_all_iff dest: in_set_takeD in_set_dropD)

lemma plain_formatF64: "formatF64 x = Some t \<Longrightarrow> list_all plain t"
proof (cases x)
  case (F64Fin neg m ex)
  assume f: "formatF64 x = Some t"
  show ?thesis
  proof (cases "m = 0")
    case True
    with F64Fin f show ?thesis by (auto simp: formatF64_def js_def plain_def)
  next
    case False
    obtain ds e where de: "toExponential_abs m ex = (ds, e)" by fastforce
    then have ds: "list_all plain ds"
      using plain_dec_nat by (auto simp: toExponential_abs_def Let_def split: prod.splits)
    have c: "plain 45" "plain 46" "plain 43" "plain 101" "list_all plain (js ''.0'')" "list_all plain (js ''0.'')"
      by (simp_all add: plain_def js_def)
    show ?thesis using f F64Fin False de ds c plain_take_drop [OF ds] plain_zeros plain_dec_js
      by (auto simp: formatF64_def Let_def split: if_splits)
  qed
qed (simp_all add: formatF64_def)

lemma plain_uint: "uint_text x \<Longrightarrow> list_all plain x"
  by (auto simp: uint_text_def plain_def list_all_iff is_dig_def)

lemma balanced_encUint: "encUint v mx = Some t \<Longrightarrow> balanced t"
  by (auto simp: encUint_def intro: balanced_plain plain_uint split: option.splits LosslessJson.splits if_splits)

lemma balanced_encF64: "encF64 v = Some t \<Longrightarrow> balanced t"
  by (auto simp: encF64_def intro: balanced_plain plain_formatF64 split: option.splits LosslessJson.splits)

lemma balanced_encStr: "encStr v = Some t \<Longrightarrow> balanced t"
  by (auto simp: encStr_def balanced_quote split: option.splits LosslessJson.splits)

lemma plain_words: "list_all plain (js ''true'')" "list_all plain (js ''false'')" "list_all plain (js ''null'')"
  by (simp_all add: js_def plain_def)

lemmas balanced_words = plain_words [THEN balanced_plain]

lemma balanced_encBool: "encBool v = Some t \<Longrightarrow> balanced t"
  by (auto simp: encBool_def balanced_words split: option.splits LosslessJson.splits)

lemma balanced_list: "list_all balanced ts \<Longrightarrow> balanced ([91] @ joined [44] ts @ [93])"
  "list_all balanced ts \<Longrightarrow> balanced ([123] @ joined [44] ts @ [125])"
  by (intro balanced_enclosed balanced_joined; simp)+

lemma balanced_pair: "balanced t \<Longrightarrow> balanced (quoteJson k @ [58] @ t)"
  by (simp add: balanced_append balanced_quote balanced_Cons plain_def)

lemma balanced_encValue: "encValue v = Some t \<Longrightarrow> balanced t"
proof (induction v arbitrary: t)
  case (JsonNumber x)
  then show ?case
    by (auto simp: encInteger_def Let_def intro: balanced_plain plain_dec_js plain_formatF64 split: option.splits if_splits)
next
  case (JArray vs)
  then obtain ts where ts: "map encValue vs = map Some ts" "t = [91] @ joined [44] ts @ [93]" by (auto simp: those_eq)
  then have "list_all balanced ts" using JArray.IH by (auto simp: list_all_length list_eq_iff_nth_eq) (metis nth_mem)
  with ts show ?case using balanced_list by simp
next
  case (JObject kvs)
  let ?ps = "sort_key (\<lambda>kt. code_points (fst kt)) (own_props (map (\<lambda>kv. (fst kv, encValue (snd kv))) kvs))"
  obtain ts where ts: "map (\<lambda>kt. map_option (\<lambda>t. quoteJson (fst kt) @ [58] @ t) (snd kt)) ?ps = map Some ts"
    "t = [123] @ joined [44] ts @ [125]"
    using JObject.prems by (auto simp: those_eq)
  have "balanced x" if "x \<in> set ts" for x
  proof -
    from that have "Some x \<in> set (map (\<lambda>kt. map_option (\<lambda>t. quoteJson (fst kt) @ [58] @ t) (snd kt)) ?ps)"
      unfolding ts(1) by simp
    then obtain kt where "kt \<in> set ?ps" "map_option (\<lambda>t. quoteJson (fst kt) @ [58] @ t) (snd kt) = Some x"
      by (metis (mono_tags, lifting) imageE list.set_map)
    then obtain y where y: "snd kt = Some y" "x = quoteJson (fst kt) @ [58] @ y" "kt \<in> set ?ps" by auto
    from y(3) have "(fst kt, Some y) \<in> set ?ps" by (simp only: y(1) [symmetric] prod.collapse)
    then obtain v where "(fst kt, v) \<in> set kvs" "encValue v = Some y" by (auto simp: own_props_def)
    then have "balanced y" using JObject.IH [of "(fst kt, v)" v y] by simp
    then show ?thesis unfolding y(2) by (rule balanced_pair)
  qed
  then show ?case using ts(2) balanced_list(2) [of ts] by (simp add: list_all_iff)
qed (auto simp: balanced_words balanced_quote)

lemma balanced_encArray:
  assumes "encArray f v = Some t" and "\<And>x u. f x = Some u \<Longrightarrow> balanced u"
  shows "balanced t"
proof -
  obtain vs ts where "map f vs = map Some ts" and t: "t = [91] @ joined [44] ts @ [93]"
    using assms(1) by (auto simp: encArray_def those_eq split: option.splits LosslessJson.splits)
  then have "list_all balanced ts" using assms(2) by (auto simp: list_all_length list_eq_iff_nth_eq)
  then show ?thesis unfolding t by (rule balanced_list)
qed

lemma balanced_encKind: "encKind k v = Some t \<Longrightarrow> balanced t"
  by (cases k) (auto dest: balanced_encUint balanced_encF64 balanced_encStr balanced_encBool balanced_encValue
      elim: balanced_encArray split: bind_splits)

lemma balanced_encField:
  assumes "encField kvs f = Some ts"
  shows "list_all balanced ts"
proof -
  obtain name kind mode where f: "f = (name, kind, mode)" by (cases f)
  have "balanced (quoteJson (js name) @ js '':null'')"
    by (intro balanced_append balanced_quote balanced_plain) (simp add: js_def plain_def)
  then show ?thesis
    using assms balanced_pair balanced_encKind [of kind "own kvs name"]
    by (auto simp: encField_def f Let_def split: if_splits)
qed

lemma balanced_encStruct:
  assumes "encStruct v fs = Some t"
  shows "balanced t"
proof -
  obtain kvs outs where "map (encField kvs) fs = map Some outs" and t: "t = [123] @ joined [44] (concat outs) @ [125]"
    using assms by (auto simp: encStruct_def those_eq split: option.splits LosslessJson.splits if_splits)
  then have "list_all (list_all balanced) outs"
    by (auto simp: list_all_length list_eq_iff_nth_eq intro!: balanced_encField [unfolded list_all_length, rule_format])
  then have "list_all balanced (concat outs)" by (auto simp: list_all_iff)
  then show ?thesis unfolding t by (rule balanced_list)
qed

section \<open>Preimages are unambiguous\<close>

definition object_text :: "jstr \<Rightarrow> bool" where
  "object_text t = (\<exists>b. balanced b \<and> t = [123] @ b @ [125])"

definition bal :: "jstr option \<Rightarrow> bool" where
  "bal x = (\<forall>u. x = Some u \<longrightarrow> balanced u)"

lemma bal_encs: "bal (encUint v mx)" "bal (encStr v)" "bal (encF64 v)" "bal (encStruct v fs)"
  using balanced_encUint balanced_encStr balanced_encF64 balanced_encStruct by (auto simp: bal_def)

lemma bal_labelled: "bal x \<Longrightarrow> bal (labelled name x)"
  using balanced_pair [of _ "js name"] by (auto simp: bal_def labelled_def)

lemma bal_encArray: "(\<And>x. bal (f x)) \<Longrightarrow> bal (encArray f v)"
  unfolding bal_def by (blast intro: balanced_encArray)

lemma object_text_record:
  assumes "record_text parts = Some t" and "list_all bal parts"
  shows "object_text t"
proof -
  obtain ts where ts: "parts = map Some ts" "t = [123] @ joined [44] ts @ [125]"
    using assms(1) by (auto simp: record_text_def those_eq)
  then have "list_all balanced ts" using assms(2) by (auto simp: list_all_iff bal_def)
  then show ?thesis unfolding object_text_def ts(2) using balanced_joined by blast
qed

lemma object_text_tx: "encodeTxV1 tx = Some t \<Longrightarrow> object_text t"
  unfolding encodeTxV1_def
  by (simp split: LosslessJson.splits if_split_asm) (erule object_text_record, simp add: bal_encs bal_labelled)+

lemma object_text_proof: "encodeFinalityProof p = Some t \<Longrightarrow> object_text t"
  unfolding encodeFinalityProof_def
  by (simp split: LosslessJson.splits if_split_asm option.splits) (erule object_text_record, simp add: bal_encs bal_labelled bal_encArray)

lemma object_text_balanced: "object_text t \<Longrightarrow> balanced t"
  unfolding object_text_def using balanced_enclosed by blast

lemma bal_proof: "bal (Option.bind v encodeFinalityProof)"
  using object_text_balanced [OF object_text_proof] by (cases v) (auto simp: bal_def)

lemma object_text_header: "encodeHeaderV1 h = Some t \<Longrightarrow> object_text t"
  unfolding encodeHeaderV1_def
  by (simp split: LosslessJson.splits if_split_asm) (erule object_text_record, simp add: bal_encs bal_labelled bal_proof)+

lemma object_rest_object:
  assumes "object_text t"
  shows "object_rest 0 False False (utf8 t @ u) = Some u" and "utf8 t \<noteq> []"
proof -
  obtain b where b: "balanced b" "t = [123] @ b @ [125]" using assms by (auto simp: object_text_def)
  have "code_points t = [123] @ code_points b @ [125]"
    using b by (simp add: balanced_def code_points_Cons high_surrogate_def)
  then have u8: "utf8 t = [123] @ utf8 b @ [125]" by (simp add: utf8_def utf8_char_def)
  then show "object_rest 0 False False (utf8 t @ u) = Some u" using b(1) by (simp add: balanced_def)
  from u8 show "utf8 t \<noteq> []" by simp
qed

lemma object_prefix:
  assumes "object_text t" "object_text t'" "utf8 t @ u = utf8 t' @ u'"
  shows "utf8 t = utf8 t' \<and> u = u'"
proof -
  have "Some u = Some u'"
    using object_rest_object(1) [OF assms(1), of u] object_rest_object(1) [OF assms(2), of u'] assms(3) by simp
  with assms(3) show ?thesis by simp
qed

lemma objects_concat:
  "list_all object_text ts \<Longrightarrow> list_all object_text ts' \<Longrightarrow> concat (map utf8 ts) = concat (map utf8 ts') \<Longrightarrow> map utf8 ts = map utf8 ts'"
proof (induction ts arbitrary: ts')
  case Nil
  then show ?case using object_rest_object(2) by (cases ts') auto
next
  case (Cons t ts)
  then obtain t' us where ts': "ts' = t' # us" using object_rest_object(2) by (cases ts') auto
  with Cons.prems have "utf8 t = utf8 t' \<and> concat (map utf8 ts) = concat (map utf8 us)"
    by (intro object_prefix) simp_all
  with Cons ts' show ?case by simp
qed

lemma hex_digit_inject: "a < 16 \<Longrightarrow> b < 16 \<Longrightarrow> hex_digit a = hex_digit b \<longleftrightarrow> a = b"
  by (metis hex_value_digit option.inject)

lemma toHex_inject:
  "list_all (\<lambda>b. b < 256) x \<Longrightarrow> list_all (\<lambda>b. b < 256) y \<Longrightarrow> toHex x = toHex y \<Longrightarrow> x = y"
proof (induction x arbitrary: y)
  case (Cons a x)
  then obtain b y' where y: "y = b # y'" by (cases y) (auto simp: toHex_def)
  with Cons.prems have "a div 16 = b div 16" "a mod 16 = b mod 16" "toHex x = toHex y'"
    by (auto simp: toHex_def hex_digit_inject div_less_iff_less_mult)
  then show ?case using Cons y by (metis div_mult_mod_eq list.pred_inject(2))
qed (cases y, auto simp: toHex_def)

definition bytes_out :: "crypto \<Rightarrow> bool" where
  "bytes_out cr = (\<forall>x. list_all (\<lambda>b. b < 256) (sha256 cr x))"

definition tx_preimage :: "LosslessJson list \<Rightarrow> nat list" where
  "tx_preimage txs = concat (map (\<lambda>tx. utf8 (the (encodeTxV1 tx))) txs)"

definition block_preimage :: "LosslessJson \<Rightarrow> jstr \<Rightarrow> nat list" where
  "block_preimage h sg = utf8 (the (encodeHeaderV1 h)) @ utf8 sg"

definition collides :: "crypto \<Rightarrow> nat list \<Rightarrow> nat list \<Rightarrow> bool" where
  "collides cr x y = (x \<noteq> y \<and> sha256 cr x = sha256 cr y)"

lemma tx_texts:
  assumes "map encodeTxV1 xs = map Some us"
  shows "tx_preimage xs = concat (map utf8 us)" and "list_all object_text us"
    and "map (computeSingleTxHash cr) xs = map (\<lambda>b. Some (toHex (sha256 cr b))) (map utf8 us)"
proof -
  have len: "length us = length xs" using assms by (metis length_map)
  have nth: "encodeTxV1 (xs ! i) = Some (us ! i)" if "i < length xs" for i
    using assms that len by (metis nth_map)
  have "map (\<lambda>tx. utf8 (the (encodeTxV1 tx))) xs = map utf8 us"
    by (rule nth_equalityI) (simp_all add: len nth)
  then show "tx_preimage xs = concat (map utf8 us)" by (simp only: tx_preimage_def)
  show "list_all object_text us" unfolding list_all_length len using object_text_tx [OF nth] by blast
  show "map (computeSingleTxHash cr) xs = map (\<lambda>b. Some (toHex (sha256 cr b))) (map utf8 us)"
    by (rule nth_equalityI) (simp_all add: len nth computeSingleTxHash_def)
qed

lemma computeTxListHash_SomeE:
  assumes "computeTxListHash cr txs = Some h"
  obtains ts where "map encodeTxV1 txs = map Some ts" and "h = toHex (sha256 cr (concat (map utf8 ts)))"
proof -
  obtain ts where "those (map encodeTxV1 txs) = Some ts" "h = toHex (sha256 cr (concat (map utf8 ts)))"
    using assms unfolding computeTxListHash_def map_option_eq_Some by metis
  then show ?thesis using that by (simp only: those_eq)
qed

lemma sha_hex_inject: "bytes_out cr \<Longrightarrow> toHex (sha256 cr x) = toHex (sha256 cr y) \<Longrightarrow> sha256 cr x = sha256 cr y"
  by (rule toHex_inject) (simp_all add: bytes_out_def)

section \<open>A sample transaction and header\<close>

definition toy_crypto :: crypto where
  "toy_crypto = \<lparr>sha256 = (\<lambda>x. replicate 32 (sum_list x mod 256)), ml_dsa65_verify = (\<lambda>sg msg pk. Inr (take 1 sg = take 1 pk))\<rparr>"

definition sample_fields :: "(jstr \<times> LosslessJson) list" where
  "sample_fields = [(js ''version'', JsonNumber (js ''1'')), (js ''tx_type'', JString (js ''transfer'')),
     (js ''from_pub_key'', JString (js ''ab'')), (js ''nonce'', JsonNumber (js ''7'')),
     (js ''payload'', JObject []), (js ''fee'', JsonNumber (js ''0'')), (js ''sig'', JString (js ''cd''))]"

definition sample_header :: "(jstr \<times> LosslessJson) list" where
  "sample_header = [(js ''version'', JsonNumber (js ''1'')), (js ''chain_id'', JString (js ''rougechain'')),
     (js ''height'', JsonNumber (js ''7'')), (js ''time'', JsonNumber (js ''9'')), (js ''prev_hash'', JString (js ''aa'')),
     (js ''tx_hash'', JString (js ''bb'')), (js ''proposer_pub_key'', JString (js ''cc''))]"

lemma toy_bytes_out: "bytes_out toy_crypto"
  by (simp add: bytes_out_def toy_crypto_def list_all_iff)

lemma js_inject: "js a = js b \<longleftrightarrow> a = b"
  unfolding js_def by (auto dest!: map_injective simp: inj_def)

lemma own_rev: "distinct (map fst kvs) \<Longrightarrow> own (rev kvs) k = own kvs k"
  unfolding own_def using map_of_inject_set [of "rev kvs" kvs] by (simp add: rev_map [symmetric])

lemma empty_payload_encodes: "\<exists>t. encStruct (Some (JObject [])) PAYLOAD_FIELDS = Some t"
proof -
  have "list_all (\<lambda>f. snd (snd f) \<noteq> MReq) fs \<Longrightarrow> \<exists>ts. map (encField []) fs = map Some ts" for fs
    by (induction fs) (auto simp: encField_def own_def Let_def Cons_eq_map_conv split: prod.splits)
  moreover have "list_all (\<lambda>f. snd (snd f) \<noteq> MReq) PAYLOAD_FIELDS" by (simp add: PAYLOAD_FIELDS_def)
  ultimately show ?thesis by (auto simp: encStruct_def those_eq)
qed

lemma sample_fee: "\<exists>t. encF64 (Some (JsonNumber (js ''0''))) = Some t"
proof -
  have "encF64 (Some (JsonNumber (js ''0''))) \<noteq> None" by code_simp
  then show ?thesis by simp
qed

lemmas sample_digits = uint_text_def is_dig_def dec_units_def U64_MAX_def

lemma sample_tx_encodes:
  "\<exists>t. encodeTxV1 (JObject sample_fields) = Some t \<and> encodeTxV1 (JObject (rev sample_fields)) = Some t"
proof -
  have d: "distinct (map fst sample_fields)" by (simp add: sample_fields_def js_inject)
  have "encodeTxV1 (JObject (rev sample_fields)) = encodeTxV1 (JObject sample_fields)"
    unfolding encodeTxV1_def by (simp add: shape_ok_def present_def own_rev [OF d])
  moreover have "\<exists>t. encodeTxV1 (JObject sample_fields) = Some t"
    using empty_payload_encodes sample_fee
    by (auto simp: encodeTxV1_def shape_ok_def present_def own_def sample_fields_def js_inject labelled_def encUint_def encStr_def record_text_def sample_digits js_def)
  ultimately show ?thesis by auto
qed

lemma sample_header_encodes:
  "\<exists>t. encodeHeaderV1 (JObject sample_header) = Some t \<and> encodeHeaderV1 (JObject (rev sample_header)) = Some t"
proof -
  have d: "distinct (map fst sample_header)" by (simp add: sample_header_def js_inject)
  have "encodeHeaderV1 (JObject (rev sample_header)) = encodeHeaderV1 (JObject sample_header)"
    unfolding encodeHeaderV1_def by (simp add: shape_ok_def present_def own_rev [OF d])
  moreover have "\<exists>t. encodeHeaderV1 (JObject sample_header) = Some t"
    by (auto simp: encodeHeaderV1_def shape_ok_def present_def own_def sample_header_def js_inject labelled_def encUint_def encStr_def record_text_def sample_digits js_def)
  ultimately show ?thesis by auto
qed

section \<open>The vote message\<close>

lemma code_points_append: "ys = [] \<or> \<not> low_surrogate (hd ys) \<Longrightarrow> code_points (xs @ ys) = code_points xs @ code_points ys"
proof (induction xs rule: code_points.induct)
  case (2 u)
  then show ?case by (cases ys) auto
qed auto

lemma utf8_append_ascii:
  assumes "list_all (\<lambda>c. c < 128) t" shows "utf8 (x @ t) = utf8 x @ t"
proof -
  have "t = [] \<or> \<not> low_surrogate (hd t)" using assms by (cases t) (auto simp: low_surrogate_def)
  then have "utf8 (x @ t) = utf8 x @ utf8 t" by (simp add: utf8_split code_points_append)
  then show ?thesis by (simp add: utf8_ascii assms)
qed

lemma utf8_ascii_append: "list_all (\<lambda>c. c < 128) t \<Longrightarrow> utf8 (t @ x) = t @ utf8 x"
  by (induction t) (simp_all add: utf8_def code_points_Cons high_surrogate_def utf8_char_def)

lemma last_mark:
  "xs @ e # ds = ys @ e # es \<Longrightarrow> e \<notin> set ds \<Longrightarrow> e \<notin> set es \<Longrightarrow> xs = ys \<and> ds = es"
  by (auto simp: append_eq_append_conv2 Cons_eq_append_conv append_eq_Cons_conv)

lemma voteSigningMessage_bytes:
  assumes "uint_text h" "hash_text b"
  shows "utf8 (voteSigningMessage c (js ''precommit'') h 0 b) =
    js ''ROUGECHAIN_FINALITY_VOTE_V2|chain='' @ utf8 c @ js ''|type=precommit|height'' @ 61 # h @ js ''|round=0|block='' @ b"
proof -
  have h: "list_all (\<lambda>c. c < 128) h" using assms(1) by (auto simp: uint_text_def is_dig_def list_all_iff)
  have b: "list_all (\<lambda>c. c < 128) b" using assms(2) by (auto simp: hash_text_def lower_hex_def list_all_iff)
  let ?t = "js ''|type=precommit|height'' @ 61 # h @ js ''|round=0|block='' @ b"
  have t: "list_all (\<lambda>c. c < 128) ?t" using h b by (simp add: js_def)
  have "dec_nat 0 = ''0''" by (subst dec_nat.simps) simp
  then have m: "voteSigningMessage c (js ''precommit'') h 0 b = js ''ROUGECHAIN_FINALITY_VOTE_V2|chain='' @ c @ ?t"
    by (simp add: voteSigningMessage_def js_def)
  have p: "list_all (\<lambda>c. c < 128) (js ''ROUGECHAIN_FINALITY_VOTE_V2|chain='')" by (simp add: js_def)
  show ?thesis unfolding m utf8_ascii_append [OF p] utf8_append_ascii [OF t] ..
qed

section \<open>Properties\<close>

text \<open>C36: The transaction hash of a header binds the transactions one by one: two transaction lists with the same list
  hash have the same transaction hashes, in number and order, unless their two preimages are an
  explicit SHA-256 collision. (SHA-256 is any function to bytes.)\<close>

theorem tx_list_hash_binds_transactions:
  assumes "bytes_out cr" and "computeTxListHash cr txs = Some h" and "computeTxListHash cr txs' = Some h"
  shows "map (computeSingleTxHash cr) txs = map (computeSingleTxHash cr) txs' \<or> collides cr (tx_preimage txs) (tx_preimage txs')"
proof -
  obtain ts where e: "map encodeTxV1 txs = map Some ts" and h: "h = toHex (sha256 cr (concat (map utf8 ts)))"
    using assms(2) by (rule computeTxListHash_SomeE)
  obtain ts' where e': "map encodeTxV1 txs' = map Some ts'" and h': "h = toHex (sha256 cr (concat (map utf8 ts')))"
    using assms(3) by (rule computeTxListHash_SomeE)
  have "sha256 cr (concat (map utf8 ts)) = sha256 cr (concat (map utf8 ts'))"
    using h h' by (intro sha_hex_inject [OF assms(1)]) simp
  moreover have "map utf8 ts = map utf8 ts'" if "concat (map utf8 ts) = concat (map utf8 ts')"
    using objects_concat [OF tx_texts(2) [OF e] tx_texts(2) [OF e'] that] .
  ultimately show ?thesis
    unfolding collides_def tx_texts(1) [OF e] tx_texts(1) [OF e'] tx_texts(3) [OF e] tx_texts(3) [OF e'] by metis
qed

theorem tx_list_hash_binds_transactions_witness:
  "\<exists>h. computeTxListHash toy_crypto [JObject sample_fields] = Some h \<and>
     computeTxListHash toy_crypto [JObject (rev sample_fields)] = Some h \<and>
     (map (computeSingleTxHash toy_crypto) [JObject sample_fields] = map (computeSingleTxHash toy_crypto) [JObject (rev sample_fields)] \<or>
      collides toy_crypto (tx_preimage [JObject sample_fields]) (tx_preimage [JObject (rev sample_fields)]))"
proof -
  obtain t where "encodeTxV1 (JObject sample_fields) = Some t" "encodeTxV1 (JObject (rev sample_fields)) = Some t"
    using sample_tx_encodes by blast
  then have "computeTxListHash toy_crypto [JObject sample_fields] = Some (toHex (sha256 toy_crypto (utf8 t)))"
    "computeTxListHash toy_crypto [JObject (rev sample_fields)] = Some (toHex (sha256 toy_crypto (utf8 t)))"
    by (simp_all add: computeTxListHash_def)
  with tx_list_hash_binds_transactions [OF toy_bytes_out this] show ?thesis by blast
qed

text \<open>The block hash binds the header and the proposer's signature: two blocks with the same hash have the same
  header bytes and the same signature bytes, unless their preimages are an explicit SHA-256
  collision.\<close>

theorem block_hash_binds_header:
  assumes "bytes_out cr" and "computeBlockHash cr h sg = Some x" and "computeBlockHash cr h' sg' = Some x"
  shows "utf8 (the (encodeHeaderV1 h)) = utf8 (the (encodeHeaderV1 h')) \<and> utf8 sg = utf8 sg' \<or>
    collides cr (block_preimage h sg) (block_preimage h' sg')"
proof -
  obtain t where e: "encodeHeaderV1 h = Some t" and x: "x = toHex (sha256 cr (utf8 t @ utf8 sg))"
    using assms(2) by (auto simp: computeBlockHash_def)
  obtain t' where e': "encodeHeaderV1 h' = Some t'" and x': "x = toHex (sha256 cr (utf8 t' @ utf8 sg'))"
    using assms(3) by (auto simp: computeBlockHash_def)
  have "sha256 cr (utf8 t @ utf8 sg) = sha256 cr (utf8 t' @ utf8 sg')"
    using x x' by (intro sha_hex_inject [OF assms(1)]) simp
  moreover have "utf8 t = utf8 t' \<and> utf8 sg = utf8 sg'" if "utf8 t @ utf8 sg = utf8 t' @ utf8 sg'"
    using object_prefix [OF object_text_header [OF e] object_text_header [OF e'] that] .
  ultimately show ?thesis unfolding collides_def block_preimage_def e e' option.sel by metis
qed

theorem block_hash_binds_header_witness:
  "\<exists>x. computeBlockHash toy_crypto (JObject sample_header) (js ''ab'') = Some x \<and>
     computeBlockHash toy_crypto (JObject (rev sample_header)) (js ''ab'') = Some x \<and>
     (utf8 (the (encodeHeaderV1 (JObject sample_header))) = utf8 (the (encodeHeaderV1 (JObject (rev sample_header)))) \<and>
        utf8 (js ''ab'') = utf8 (js ''ab'') \<or>
      collides toy_crypto (block_preimage (JObject sample_header) (js ''ab'')) (block_preimage (JObject (rev sample_header)) (js ''ab'')))"
proof -
  obtain t where "encodeHeaderV1 (JObject sample_header) = Some t" "encodeHeaderV1 (JObject (rev sample_header)) = Some t"
    using sample_header_encodes by blast
  then have "computeBlockHash toy_crypto (JObject sample_header) (js ''ab'') = Some (toHex (sha256 toy_crypto (utf8 t @ utf8 (js ''ab''))))"
    "computeBlockHash toy_crypto (JObject (rev sample_header)) (js ''ab'') = Some (toHex (sha256 toy_crypto (utf8 t @ utf8 (js ''ab''))))"
    by (simp_all add: computeBlockHash_def)
  with block_hash_binds_header [OF toy_bytes_out this] show ?thesis by blast
qed

text \<open>The bytes a validator signs bind the chain, the height and the block: two precommit messages with decimal
  heights and hexadecimal block hashes are equal only if all three agree, whatever characters the
  chain name has.\<close>

theorem vote_message_binds:
  assumes "utf8 (voteSigningMessage c (js ''precommit'') h 0 b) = utf8 (voteSigningMessage c' (js ''precommit'') h' 0 b')"
    and "uint_text h" "uint_text h'" "hash_text b" "hash_text b'"
  shows "utf8 c = utf8 c' \<and> h = h' \<and> b = b'"
proof -
  have nomark: "61 \<notin> set x" if "uint_text x" for x
    using that by (auto simp: uint_text_def is_dig_def list_all_iff)
  have len: "length b = length b'" using assms(4,5) by (simp add: hash_text_def)
  have "js ''ROUGECHAIN_FINALITY_VOTE_V2|chain='' @ utf8 c @ js ''|type=precommit|height'' @ 61 # h @ js ''|round=0|block='' @ b
      = js ''ROUGECHAIN_FINALITY_VOTE_V2|chain='' @ utf8 c' @ js ''|type=precommit|height'' @ 61 # h' @ js ''|round=0|block='' @ b'"
    using assms(1) by (simp only: voteSigningMessage_bytes [OF assms(2,4)] voteSigningMessage_bytes [OF assms(3,5)])
  then have "(utf8 c @ js ''|type=precommit|height'' @ 61 # h) @ js ''|round=0|block='' @ b
      = (utf8 c' @ js ''|type=precommit|height'' @ 61 # h') @ js ''|round=0|block='' @ b'" by simp
  from append_eq_append_conv [THEN iffD1, OF _ this]
  have b: "b = b'" and m: "(utf8 c @ js ''|type=precommit|height'') @ 61 # h = (utf8 c' @ js ''|type=precommit|height'') @ 61 # h'"
    using len by simp_all
  from last_mark [OF m nomark nomark] show ?thesis using assms(2,3) b by simp
qed

theorem vote_message_binds_witness:
  "utf8 (voteSigningMessage [55296] (js ''precommit'') (js ''7'') 0 (replicate 64 97)) =
     utf8 (voteSigningMessage [65533] (js ''precommit'') (js ''7'') 0 (replicate 64 97)) \<and>
   utf8 [55296] = utf8 [65533] \<and> js ''7'' = js ''7'' \<and> replicate 64 (97::nat) = replicate 64 97"
proof -
  have ok: "uint_text (js ''7'')" "hash_text (replicate 64 97)"
    by (simp_all add: uint_text_def hash_text_def js_def is_dig_def lower_hex_def list_all_iff)
  have u: "utf8 [55296] = [239, 191, 189]" "utf8 [65533] = [239, 191, 189]"
    by (simp_all add: utf8_def utf8_char_def high_surrogate_def low_surrogate_def)
  have "utf8 (voteSigningMessage [55296] (js ''precommit'') (js ''7'') 0 (replicate 64 97)) =
     utf8 (voteSigningMessage [65533] (js ''precommit'') (js ''7'') 0 (replicate 64 97))"
    by (simp only: voteSigningMessage_bytes [OF ok] u)
  with vote_message_binds [OF this ok(1) ok(1) ok(2) ok(2)] show ?thesis by blast
qed

end
