(* ===== verification/Finality_Certificate.thy ===== *)
theory Finality_Certificate
  imports Canonical_Encoding
begin

text \<open>
  Finality certificates (\<open>packages/core/src/finality-verify.ts\<close>): the stake set of a list of
  validators and \<open>verifyFinalityCertificate\<close>. The checks the function returns are kept with their
  name, verdict, criticality and node; the explanatory text of a check is left out.

  The theorems give an exact description of the certificates that are accepted, and accountable
  safety: two accepted certificates for different blocks at one height show more than a third of
  the stake signing two different messages.
\<close>

section \<open>Checks\<close>

record FinalityCheck =
  ck_name :: jstr
  ck_ok :: bool
  ck_critical :: bool
  ck_node :: "jstr option"

definition check :: "string \<Rightarrow> bool \<Rightarrow> bool \<Rightarrow> jstr option \<Rightarrow> FinalityCheck list \<Rightarrow> FinalityCheck list" where
  "check name ok critical node checks =
     checks @ [\<lparr>ck_name = js name, ck_ok = ok, ck_critical = critical, ck_node = (if node = Some [] then None else node)\<rparr>]"

definition critOk :: "FinalityCheck list \<Rightarrow> bool" where
  "critOk checks = list_all (\<lambda>c. ck_ok c \<or> \<not> ck_critical c) checks"

section \<open>The validator set\<close>

text \<open>A stake as the caller may give it: a bigint, a number or a string; \<open>BigInt(stake)\<close> throws on a
  fraction and on a text that is no integer literal.\<close>

datatype StakeInput = StakeBig int | StakeNum f64 | StakeText jstr

definition space_unit :: "nat \<Rightarrow> bool" where
  "space_unit c = (c \<in> {9, 10, 11, 12, 13, 32, 160, 5760, 8232, 8233, 8239, 8287, 12288, 65279} \<or> 8192 \<le> c \<and> c \<le> 8202)"

definition trim_units :: "jstr \<Rightarrow> jstr" where
  "trim_units s = rev (dropWhile space_unit (rev (dropWhile space_unit s)))"

definition BigInt_units :: "jstr \<Rightarrow> int option" where
  "BigInt_units s = (let t = trim_units s in
     if list_all (\<lambda>c. c < 128) t then BigInt_str (map char_of t) else None)"

fun BigInt_stake :: "StakeInput \<Rightarrow> int option" where
  "BigInt_stake (StakeBig i) = Some i"
| "BigInt_stake (StakeNum x) = BigInt_f64 x"
| "BigInt_stake (StakeText s) = BigInt_units s"

record ValidatorEntry =
  publicKey :: jstr
  stake :: StakeInput

record TrustedValidatorSet =
  validators :: "ValidatorEntry list"
  vs_height :: "f64 option"

record StakeSet =
  stakes :: "(jstr, int) jsmap"
  total :: int
  quorum :: int
  ss_height :: "f64 option"

text \<open>Division of bigints truncates.\<close>

definition big_div :: "int \<Rightarrow> int \<Rightarrow> int" where
  "big_div a b = sgn a * sgn b * (\<bar>a\<bar> div \<bar>b\<bar>)"

definition finalityQuorum :: "int \<Rightarrow> int" where
  "finalityQuorum totalStake = big_div (totalStake * 2) 3 + 1"

fun addStakes :: "ValidatorEntry list \<Rightarrow> (jstr, int) jsmap \<Rightarrow> (jstr, int) jsmap option" where
  "addStakes [] m = Some m"
| "addStakes (e # es) m = (case BigInt_stake (stake e) of
      None \<Rightarrow> None
    | Some s \<Rightarrow> addStakes es (if s > 0
        then map_set (publicKey e) ((case map_get m (publicKey e) of None \<Rightarrow> 0 | Some x \<Rightarrow> x) + s) m else m))"

definition toStakeSet :: "ValidatorEntry list \<Rightarrow> f64 option \<Rightarrow> StakeSet option" where
  "toStakeSet entries height = map_option (\<lambda>m.
     let t = foldl (+) 0 (map_values m) in
     \<lparr>stakes = m, total = t, quorum = big_div (t * 2) 3 + 1, ss_height = height\<rparr>) (addStakes entries [])"

section \<open>verifyFinalityCertificate\<close>

definition FINALITY_MAX_PROOF_VOTES :: nat where "FINALITY_MAX_PROOF_VOTES = 1024"
definition FINALITY_ONLY_ROUND :: nat where "FINALITY_ONLY_ROUND = 0"

record CertContext =
  ctx_chainId :: jstr
  ctx_height :: f64
  ctx_blockHash :: jstr
  ctx_validatorSet :: TrustedValidatorSet

record VerifiedCertificate =
  vc_height :: f64
  vc_blockHash :: jstr
  vc_votingStake :: jstr
  vc_totalStake :: jstr
  vc_quorum :: jstr
  vc_voters :: "jstr list"

record CertResult =
  cv_ok :: bool
  cv_checks :: "FinalityCheck list"
  cv_verified :: "VerifiedCertificate option"

definition raw_of :: "LosslessJson option \<Rightarrow> jstr option" where
  "raw_of v = (case v of Some (JsonNumber x) \<Rightarrow> Some x | _ \<Rightarrow> None)"

definition str_of :: "LosslessJson option \<Rightarrow> jstr option" where
  "str_of v = (case v of Some (JString x) \<Rightarrow> Some x | _ \<Rightarrow> None)"

text \<open>The stake of a vote that passes the tests before the duplicate test.\<close>

definition voteStake :: "crypto \<Rightarrow> StakeSet \<Rightarrow> CertContext \<Rightarrow> LosslessJson \<Rightarrow> (jstr \<times> int) option" where
  "voteStake cr S ctx v =
     (if str_of (field_of (Some v) ''vote_type'') \<noteq> Some (js ''precommit'') then None
      else if raw_of (field_of (Some v) ''round'') \<noteq> Some (js (dec_nat FINALITY_ONLY_ROUND)) then None
      else if raw_of (field_of (Some v) ''height'') \<noteq> Some (String_f64 (ctx_height ctx)) then None
      else if \<not> isHash (field_of (Some v) ''block_hash'') \<or> str_of (field_of (Some v) ''block_hash'') \<noteq> Some (ctx_blockHash ctx) then None
      else (case (str_of (field_of (Some v) ''voter_pub_key''), str_of (field_of (Some v) ''signature'')) of
          (Some pk, Some sg) \<Rightarrow>
            (case map_get (stakes S) pk of
               None \<Rightarrow> None
             | Some st \<Rightarrow>
                 let msg = voteSigningMessage (ctx_chainId ctx) (js ''precommit'') (String_f64 (ctx_height ctx)) FINALITY_ONLY_ROUND (ctx_blockHash ctx) in
                 if mlDsaVerify cr pk (utf8 msg) sg then Some (pk, st) else None)
        | _ \<Rightarrow> None))"

record VoteState =
  voters :: "jstr list"
  voting :: int
  allVotesOk :: bool
  vt_checks :: "FinalityCheck list"

definition castVote :: "crypto \<Rightarrow> StakeSet \<Rightarrow> CertContext \<Rightarrow> LosslessJson \<Rightarrow> nat \<Rightarrow> VoteState \<Rightarrow> VoteState" where
  "castVote cr S ctx v k st =
     (let fail = st\<lparr>allVotesOk := False, vt_checks := check (''cert.vote['' @ dec_nat k @ '']'') False True None (vt_checks st)\<rparr> in
      case voteStake cr S ctx v of
        None \<Rightarrow> fail
      | Some (pk, x) \<Rightarrow>
          if pk \<in> set (voters st) then fail
          else st\<lparr>voters := voters st @ [pk], voting := voting st + x,
                  vt_checks := check (''cert.vote['' @ dec_nat k @ '']'') True True None (vt_checks st)\<rparr>)"

fun castVotes :: "crypto \<Rightarrow> StakeSet \<Rightarrow> CertContext \<Rightarrow> LosslessJson list \<Rightarrow> nat \<Rightarrow> VoteState \<Rightarrow> VoteState" where
  "castVotes cr S ctx [] k st = st"
| "castVotes cr S ctx (v # vs) k st = castVotes cr S ctx vs (Suc k) (castVote cr S ctx v k st)"

definition claimCheck :: "LosslessJson \<Rightarrow> bool \<Rightarrow> string \<times> int \<Rightarrow> FinalityCheck list \<Rightarrow> FinalityCheck list" where
  "claimCheck cert forHeight fv checks =
     check (''cert.claim.'' @ fst fv) (raw_of (field_of (Some cert) (fst fv)) = Some (dec_js (snd fv))) forHeight None checks"

definition rejected :: "FinalityCheck list \<Rightarrow> CertResult" where
  "rejected checks = \<lparr>cv_ok = False, cv_checks = checks, cv_verified = None\<rparr>"

text \<open>The function after the vote loop.\<close>

definition settleCertificate :: "LosslessJson \<Rightarrow> CertContext \<Rightarrow> StakeSet \<Rightarrow> VoteState \<Rightarrow> CertResult" where
  "settleCertificate cert ctx S st =
     (if \<not> allVotesOk st then rejected (vt_checks st)
      else let c5 = check ''cert.quorum'' (voting st \<ge> quorum S) True None (vt_checks st) in
        if \<not> voting st \<ge> quorum S then rejected c5
        else let forHeight = (case ss_height S of None \<Rightarrow> False | Some h \<Rightarrow> f64_eq h (ctx_height ctx));
                 c6 = fold (claimCheck cert forHeight)
                   [(''voting_stake'', voting st), (''total_stake'', total S), (''quorum_threshold'', quorum S)] c5
             in \<lparr>cv_ok = critOk c6, cv_checks = c6,
                 cv_verified = (if critOk c6 then Some \<lparr>vc_height = ctx_height ctx, vc_blockHash = ctx_blockHash ctx,
                   vc_votingStake = dec_js (voting st), vc_totalStake = dec_js (total S), vc_quorum = dec_js (quorum S), vc_voters = voters st\<rparr> else None)\<rparr>)"

text \<open>The result is \<^const>\<open>None\<close> when \<open>BigInt\<close> throws on a stake of the set.\<close>

definition verifyFinalityCertificate :: "crypto \<Rightarrow> LosslessJson \<Rightarrow> CertContext \<Rightarrow> CertResult option" where
  "verifyFinalityCertificate cr cert ctx =
     (case toStakeSet (validators (ctx_validatorSet ctx)) (vs_height (ctx_validatorSet ctx)) of
        None \<Rightarrow> None
      | Some S \<Rightarrow> Some (
          if \<not> isObj (Some cert) then rejected (check ''cert.shape'' False True None [])
          else if encodeFinalityProof cert = None then rejected (check ''cert.shape'' False True None [])
          else let c1 = check ''cert.shape'' True True None [];
                   h_ok = (raw_of (field_of (Some cert) ''height'') = Some (String_f64 (ctx_height ctx)));
                   c2 = check ''cert.height'' h_ok True None c1;
                   b_ok = (str_of (field_of (Some cert) ''block_hash'') = Some (ctx_blockHash ctx));
                   c3 = check ''cert.block_hash'' b_ok True None c2;
                   s_ok = (length (stakes S) > 0 \<and> total S > 0);
                   c4 = check ''validator_set.nonempty'' s_ok True None c3;
                   votes = (case field_of (Some cert) ''precommit_votes'' of Some (JArray vs) \<Rightarrow> vs | _ \<Rightarrow> []);
                   n_ok = (length votes \<le> FINALITY_MAX_PROOF_VOTES \<and> length votes \<le> length (stakes S));
                   c5 = check ''cert.vote_count'' n_ok True None c4
               in if \<not> h_ok then rejected c2 else if \<not> b_ok then rejected c3 else if \<not> s_ok then rejected c4
                  else if \<not> n_ok then rejected c5
                  else settleCertificate cert ctx S
                    (castVotes cr S ctx votes 0 \<lparr>voters = [], voting = 0, allVotesOk = True, vt_checks = c5\<rparr>)))"

section \<open>Stake sets\<close>

definition stake_wf :: "(jstr, int) jsmap \<Rightarrow> bool" where
  "stake_wf m = (map_wf m \<and> all_entries (\<lambda>k v. v > 0) m)"

lemma stake_wf_add:
  "stake_wf m \<Longrightarrow> s > 0 \<Longrightarrow> stake_wf (map_set k ((case map_get m k of None \<Rightarrow> 0 | Some x \<Rightarrow> x) + s) m)"
  unfolding stake_wf_def
  by (auto intro!: map_wf_set all_entries_set split: option.splits dest: all_entries_get)

lemma addStakes_wf: "addStakes es m = Some m' \<Longrightarrow> stake_wf m \<Longrightarrow> stake_wf m'"
  by (induction es m rule: addStakes.induct) (auto simp: stake_wf_add split: option.splits if_splits)

lemma foldl_plus_int: "foldl (+) (a::int) xs = a + sum_list xs"
  by (induction xs arbitrary: a) simp_all

definition stake_of :: "StakeSet \<Rightarrow> jstr \<Rightarrow> int" where
  "stake_of S pk = (case map_get (stakes S) pk of None \<Rightarrow> 0 | Some s \<Rightarrow> s)"

definition keys_of :: "StakeSet \<Rightarrow> jstr set" where
  "keys_of S = set (map fst (stakes S))"

lemma map_get_keys: "map_get m k \<noteq> None \<longleftrightarrow> k \<in> set (map fst m)"
  by (auto simp: map_get_def map_of_eq_None_iff)

lemma sum_keys: "map_wf m \<Longrightarrow> sum_list (map snd m) = sum (\<lambda>k. case map_get m k of None \<Rightarrow> 0 | Some s \<Rightarrow> s) (set (map fst m))"
proof -
  assume m: "map_wf m"
  have "sum_list (map snd m) = sum_list (map (\<lambda>k. case map_get m k of None \<Rightarrow> 0 | Some s \<Rightarrow> s) (map fst m))"
  proof -
    have "map_get m (fst kv) = Some (snd kv)" if "kv \<in> set m" for kv
      using m that by (simp add: map_get_def map_wf_def)
    then show ?thesis by (simp add: comp_def cong: map_cong)
  qed
  also have "\<dots> = sum (\<lambda>k. case map_get m k of None \<Rightarrow> 0 | Some s \<Rightarrow> s) (set (map fst m))"
    using m by (simp only: sum_list_distinct_conv_sum_set map_wf_def)
  finally show ?thesis .
qed

lemma toStakeSet_props:
  assumes "toStakeSet es h = Some S"
  shows "total S = sum (stake_of S) (keys_of S)" and "quorum S = finalityQuorum (total S)"
    and "\<And>pk. stake_of S pk \<ge> 0" and "finite (keys_of S)" and "length (stakes S) = card (keys_of S)"
proof -
  obtain m where m: "addStakes es [] = Some m" and S: "S = \<lparr>stakes = m, total = sum_list (map snd m),
      quorum = finalityQuorum (sum_list (map snd m)), ss_height = h\<rparr>"
    using assms by (auto simp: toStakeSet_def Let_def foldl_plus_int map_values_def finalityQuorum_def)
  have wf: "stake_wf m" using addStakes_wf [OF m] by (simp add: stake_wf_def map_wf_def)
  then have mw: "map_wf m" by (simp add: stake_wf_def)
  show "total S = sum (stake_of S) (keys_of S)" using sum_keys [OF mw] unfolding S keys_of_def by (simp add: stake_of_def [abs_def])
  show "quorum S = finalityQuorum (total S)" by (simp add: S)
  show "stake_of S pk \<ge> 0" for pk
    using wf all_entries_get by (fastforce simp: S stake_of_def stake_wf_def split: option.splits)
  show "finite (keys_of S)" by (simp add: keys_of_def)
  show "length (stakes S) = card (keys_of S)"
    using distinct_card [of "map fst m"] mw by (simp add: S keys_of_def map_wf_def)
qed

lemma quorum_bound: "t \<ge> 0 \<Longrightarrow> 3 * finalityQuorum t > 2 * t"
  unfolding finalityQuorum_def big_div_def by (cases "t = 0") auto

text \<open>Two sets of voters that each reach the quorum share more than a third of the stake.\<close>

lemma quorum_intersection:
  assumes S: "toStakeSet es h = Some S" and "A \<subseteq> keys_of S" "B \<subseteq> keys_of S"
    and "sum (stake_of S) A \<ge> quorum S" "sum (stake_of S) B \<ge> quorum S"
  shows "3 * sum (stake_of S) (A \<inter> B) > total S"
proof -
  note T = toStakeSet_props [OF S]
  have fin: "finite A" "finite B" using assms(2,3) T(4) by (auto intro: finite_subset)
  have "sum (stake_of S) A + sum (stake_of S) B = sum (stake_of S) (A \<union> B) + sum (stake_of S) (A \<inter> B)"
    using fin by (rule sum.union_inter [symmetric])
  moreover have "sum (stake_of S) (A \<union> B) \<le> total S"
    unfolding T(1) using assms(2,3) T(3,4) by (intro sum_mono2) auto
  moreover have "total S \<ge> 0" unfolding T(1) using T(3) by (simp add: sum_nonneg)
  then have "3 * quorum S > 2 * total S" unfolding T(2) by (rule quorum_bound)
  ultimately show ?thesis using assms(4,5) by linarith
qed

section \<open>Accepted certificates\<close>

definition vote_msg :: "CertContext \<Rightarrow> nat list" where
  "vote_msg ctx = utf8 (voteSigningMessage (ctx_chainId ctx) (js ''precommit'') (String_f64 (ctx_height ctx)) 0 (ctx_blockHash ctx))"

text \<open>A vote for the block of the context that a validator of the set signed.\<close>

definition vote_counts :: "crypto \<Rightarrow> StakeSet \<Rightarrow> CertContext \<Rightarrow> LosslessJson \<Rightarrow> bool" where
  "vote_counts cr S ctx v = (\<exists>pk sg.
     str_of (field_of (Some v) ''vote_type'') = Some (js ''precommit'') \<and>
     raw_of (field_of (Some v) ''round'') = Some (js ''0'') \<and>
     raw_of (field_of (Some v) ''height'') = Some (String_f64 (ctx_height ctx)) \<and>
     str_of (field_of (Some v) ''block_hash'') = Some (ctx_blockHash ctx) \<and> hash_text (ctx_blockHash ctx) \<and>
     str_of (field_of (Some v) ''voter_pub_key'') = Some pk \<and> str_of (field_of (Some v) ''signature'') = Some sg \<and>
     pk \<in> keys_of S \<and> mlDsaVerify cr pk (vote_msg ctx) sg)"

definition voter :: "LosslessJson \<Rightarrow> jstr" where
  "voter v = the (str_of (field_of (Some v) ''voter_pub_key''))"

definition votes_of :: "LosslessJson \<Rightarrow> LosslessJson list" where
  "votes_of cert = (case field_of (Some cert) ''precommit_votes'' of Some (JArray vs) \<Rightarrow> vs | _ \<Rightarrow> [])"

text \<open>What an accepted certificate is.\<close>

definition certifies :: "crypto \<Rightarrow> StakeSet \<Rightarrow> LosslessJson \<Rightarrow> CertContext \<Rightarrow> bool" where
  "certifies cr S cert ctx =
     (encodeFinalityProof cert \<noteq> None \<and>
      raw_of (field_of (Some cert) ''height'') = Some (String_f64 (ctx_height ctx)) \<and>
      str_of (field_of (Some cert) ''block_hash'') = Some (ctx_blockHash ctx) \<and>
      length (votes_of cert) \<le> 1024 \<and>
      list_all (vote_counts cr S ctx) (votes_of cert) \<and> distinct (map voter (votes_of cert)) \<and>
      sum (stake_of S) (set (map voter (votes_of cert))) \<ge> finalityQuorum (total S) \<and> total S > 0 \<and>
      ((\<exists>h. ss_height S = Some h \<and> f64_eq h (ctx_height ctx)) \<longrightarrow>
        raw_of (field_of (Some cert) ''voting_stake'') = Some (dec_js (sum (stake_of S) (set (map voter (votes_of cert))))) \<and>
        raw_of (field_of (Some cert) ''total_stake'') = Some (dec_js (total S)) \<and>
        raw_of (field_of (Some cert) ''quorum_threshold'') = Some (dec_js (quorum S))))"

lemma dec_nat_0: "dec_nat 0 = ''0''"
  by (subst dec_nat.simps) simp

lemma voteStake_iff:
  "voteStake cr S ctx v = (if vote_counts cr S ctx v then Some (voter v, stake_of S (voter v)) else None)"
proof -
  have hash: "isHash x \<and> str_of x = Some b \<longleftrightarrow> str_of x = Some b \<and> hash_text b" for x b
    by (auto simp: isHash_def str_of_def split: option.splits LosslessJson.splits)
  have keys: "pk \<in> keys_of S \<longleftrightarrow> (\<exists>s. map_get (stakes S) pk = Some s)" for pk
    using map_get_keys [of "stakes S" pk] by (simp add: keys_of_def)
  show ?thesis
  proof (cases "str_of (field_of (Some v) ''voter_pub_key'')")
    case None
    then show ?thesis by (auto simp: voteStake_def vote_counts_def)
  next
    case pk: (Some pk)
    show ?thesis
    proof (cases "str_of (field_of (Some v) ''signature'')")
      case None
      then show ?thesis by (auto simp: voteStake_def vote_counts_def split: option.splits)
    next
      case sg: (Some sg)
      show ?thesis
        using hash [of "field_of (Some v) ''block_hash''" "ctx_blockHash ctx"] keys [of pk]
        unfolding voteStake_def vote_counts_def voter_def vote_msg_def FINALITY_ONLY_ROUND_def dec_nat_0 pk sg Let_def
        by (cases "map_get (stakes S) pk") (auto simp: stake_of_def)
    qed
  qed
qed

lemma critOk_check: "critOk (check n ok c nd cs) \<longleftrightarrow> critOk cs \<and> (c \<longrightarrow> ok)"
  by (auto simp: critOk_def check_def)

lemma critOk_Nil: "critOk []"
  by (simp add: critOk_def)

lemma castVote_cases:
  "castVote cr S ctx v k st =
     (if vote_counts cr S ctx v \<and> voter v \<notin> set (voters st)
      then st\<lparr>voters := voters st @ [voter v], voting := voting st + stake_of S (voter v),
        vt_checks := check (''cert.vote['' @ dec_nat k @ '']'') True True None (vt_checks st)\<rparr>
      else st\<lparr>allVotesOk := False, vt_checks := check (''cert.vote['' @ dec_nat k @ '']'') False True None (vt_checks st)\<rparr>)"
  by (simp add: castVote_def voteStake_iff Let_def)

lemma castVotes_fails: "\<not> allVotesOk st \<Longrightarrow> \<not> allVotesOk (castVotes cr S ctx vs k st)"
  by (induction vs arbitrary: k st) (simp_all add: castVote_cases)

lemma castVotes_ok:
  "allVotesOk st \<Longrightarrow>
   allVotesOk (castVotes cr S ctx vs k st) =
     (list_all (vote_counts cr S ctx) vs \<and> distinct (map voter vs) \<and> set (map voter vs) \<inter> set (voters st) = {})"
proof (induction vs arbitrary: k st)
  case (Cons v vs)
  show ?case
  proof (cases "vote_counts cr S ctx v \<and> voter v \<notin> set (voters st)")
    case True
    then show ?thesis using Cons by (auto simp: castVote_cases)
  next
    case False
    then have "\<not> allVotesOk (castVote cr S ctx v k st)" unfolding castVote_cases by auto
    with False show ?thesis using castVotes_fails by auto
  qed
qed simp

lemma castVotes_result:
  "allVotesOk (castVotes cr S ctx vs k st) \<Longrightarrow>
   voters (castVotes cr S ctx vs k st) = voters st @ map voter vs \<and>
   voting (castVotes cr S ctx vs k st) = voting st + sum_list (map (\<lambda>v. stake_of S (voter v)) vs) \<and>
   critOk (vt_checks (castVotes cr S ctx vs k st)) = critOk (vt_checks st)"
proof (induction vs arbitrary: k st)
  case (Cons v vs)
  let ?st = "castVote cr S ctx v k st"
  have "allVotesOk ?st" using Cons.prems castVotes_fails by (metis castVotes.simps(2))
  then have ok: "vote_counts cr S ctx v \<and> voter v \<notin> set (voters st)" unfolding castVote_cases by (auto split: if_splits)
  show ?case using Cons.IH [of "Suc k" ?st] Cons.prems ok by (simp add: castVote_cases critOk_check)
qed simp

lemma settleCertificate_ok:
  assumes "critOk (vt_checks st)"
  shows "cv_ok (settleCertificate cert ctx S st) \<longleftrightarrow>
    allVotesOk st \<and> voting st \<ge> quorum S \<and>
    ((\<exists>h. ss_height S = Some h \<and> f64_eq h (ctx_height ctx)) \<longrightarrow>
        raw_of (field_of (Some cert) ''voting_stake'') = Some (dec_js (voting st)) \<and>
        raw_of (field_of (Some cert) ''total_stake'') = Some (dec_js (total S)) \<and>
        raw_of (field_of (Some cert) ''quorum_threshold'') = Some (dec_js (quorum S)))"
  using assms
  by (simp add: settleCertificate_def rejected_def Let_def claimCheck_def critOk_check split: option.splits) blast

lemma votes_nonempty: "certifies cr S cert ctx \<Longrightarrow> votes_of cert \<noteq> []"
proof
  assume c: "certifies cr S cert ctx" and "votes_of cert = []"
  then have "finalityQuorum (total S) \<le> 0" "total S > 0" by (simp_all add: certifies_def)
  with quorum_bound [of "total S"] show False by linarith
qed

lemma encodes_isObj: "encodeFinalityProof cert \<noteq> None \<Longrightarrow> isObj (Some cert)"
  by (cases cert) (simp_all add: encodeFinalityProof_def)

lemma vote_counts_key: "vote_counts cr S ctx v \<Longrightarrow> voter v \<in> keys_of S"
  by (auto simp: vote_counts_def voter_def)

lemma votes_fit:
  assumes "toStakeSet es h = Some S" "list_all (vote_counts cr S ctx) vs" "distinct (map voter vs)"
  shows "length vs \<le> length (stakes S)"
proof -
  have "set (map voter vs) \<subseteq> keys_of S" using assms(2) vote_counts_key by (fastforce simp: list_all_iff)
  then have "card (set (map voter vs)) \<le> card (keys_of S)" using toStakeSet_props(4) [OF assms(1)] by (rule card_mono [rotated])
  then show ?thesis using distinct_card [OF assms(3)] toStakeSet_props(5) [OF assms(1)] by simp
qed

lemma total_positive_nonempty:
  assumes "toStakeSet es h = Some S" "total S > 0"
  shows "length (stakes S) > 0"
  using toStakeSet_props(1) [OF assms(1)] assms(2) by (auto simp: keys_of_def)

lemma sum_voters: "distinct (map voter vs) \<Longrightarrow> (\<Sum>v\<leftarrow>vs. f (voter v)) = sum f (set (map voter vs))"
  using sum_list_distinct_conv_sum_set [of "map voter vs" f] by (simp add: comp_def)

lemma accepts_iff:
  assumes S: "toStakeSet (validators (ctx_validatorSet ctx)) (vs_height (ctx_validatorSet ctx)) = Some S"
  shows "cv_ok (the (verifyFinalityCertificate cr cert ctx)) \<longleftrightarrow> certifies cr S cert ctx"
proof -
  let ?vs = "votes_of cert"
  let ?st = "castVotes cr S ctx ?vs 0 \<lparr>voters = [], voting = 0, allVotesOk = True, vt_checks =
    check ''cert.vote_count'' True True None (check ''validator_set.nonempty'' True True None (check ''cert.block_hash'' True True None
      (check ''cert.height'' True True None (check ''cert.shape'' True True None []))))\<rparr>"
  have all: "allVotesOk ?st \<longleftrightarrow> list_all (vote_counts cr S ctx) ?vs \<and> distinct (map voter ?vs)"
    by (simp add: castVotes_ok)
  have res: "voting ?st = sum (stake_of S) (set (map voter ?vs))" "critOk (vt_checks ?st)" if ok: "allVotesOk ?st"
  proof -
    have "distinct (map voter ?vs)" using ok all by blast
    then show "voting ?st = sum (stake_of S) (set (map voter ?vs))"
      using castVotes_result [OF ok] sum_voters by (simp only: VoteState.simps add_0)
    show "critOk (vt_checks ?st)" using castVotes_result [OF ok] by (simp only: VoteState.simps critOk_check critOk_Nil simp_thms)
  qed
  have settle: "cv_ok (settleCertificate cert ctx S ?st) \<longleftrightarrow> list_all (vote_counts cr S ctx) ?vs \<and> distinct (map voter ?vs) \<and>
      sum (stake_of S) (set (map voter ?vs)) \<ge> quorum S \<and>
    ((\<exists>h. ss_height S = Some h \<and> f64_eq h (ctx_height ctx)) \<longrightarrow>
        raw_of (field_of (Some cert) ''voting_stake'') = Some (dec_js (sum (stake_of S) (set (map voter ?vs)))) \<and>
        raw_of (field_of (Some cert) ''total_stake'') = Some (dec_js (total S)) \<and>
        raw_of (field_of (Some cert) ''quorum_threshold'') = Some (dec_js (quorum S)))"
  proof (cases "allVotesOk ?st")
    case True
    then show ?thesis using settleCertificate_ok [OF res(2) [OF True], of cert ctx S] res(1) [OF True] all by simp
  next
    case False
    then have "\<not> cv_ok (settleCertificate cert ctx S ?st)" by (simp add: settleCertificate_def rejected_def)
    then show ?thesis using False all by blast
  qed
  show ?thesis
    using settle total_positive_nonempty [OF S] votes_fit [OF S, of cr ctx ?vs] encodes_isObj [of cert]
    unfolding verifyFinalityCertificate_def S certifies_def FINALITY_MAX_PROOF_VOTES_def votes_of_def [symmetric] toStakeSet_props(2) [OF S]
    by (simp add: rejected_def Let_def) blast
qed

section \<open>A sample certificate\<close>

definition sample_vote :: "jstr \<Rightarrow> LosslessJson" where
  "sample_vote b = JObject [(js ''vote_type'', JString (js ''precommit'')), (js ''height'', JsonNumber (js ''0'')),
     (js ''round'', JsonNumber (js ''0'')), (js ''block_hash'', JString b),
     (js ''voter_pub_key'', JString (replicate 3904 48)), (js ''signature'', JString (replicate 6618 48))]"

definition sample_cert :: "jstr \<Rightarrow> LosslessJson" where
  "sample_cert b = JObject [(js ''height'', JsonNumber (js ''0'')), (js ''block_hash'', JString b),
     (js ''total_stake'', JsonNumber (js ''9'')), (js ''voting_stake'', JsonNumber (js ''9'')),
     (js ''quorum_threshold'', JsonNumber (js ''7'')), (js ''precommit_votes'', JArray [sample_vote b]),
     (js ''created_at'', JsonNumber (js ''1''))]"

definition sample_set :: TrustedValidatorSet where
  "sample_set = \<lparr>validators = [\<lparr>publicKey = replicate 3904 48, stake = StakeBig 9\<rparr>], vs_height = None\<rparr>"

definition sample_ctx :: "jstr \<Rightarrow> CertContext" where
  "sample_ctx b = \<lparr>ctx_chainId = js ''main'', ctx_height = F64Fin False 0 (- 1074), ctx_blockHash = b, ctx_validatorSet = sample_set\<rparr>"

lemma fromHex_zeros: "fromHex (replicate (2 * n) 48) = Some (replicate n 0)"
proof -
  have "hex_bytes (replicate (2 * n) 48) = Some (replicate n 0)"
    by (induction n) (simp_all add: hex_value_def)
  then show ?thesis by (simp add: fromHex_def hex_value_def list_all_iff)
qed

lemma sample_signature: "mlDsaVerify toy_crypto (replicate 3904 48) m (replicate 6618 48)"
  using fromHex_zeros [of 1952] fromHex_zeros [of 3309] by (simp add: mlDsaVerify_def toy_crypto_def)

lemma sample_stakes: "toStakeSet (validators sample_set) (vs_height sample_set) =
    Some \<lparr>stakes = [(replicate 3904 48, 9)], total = 9, quorum = 7, ss_height = None\<rparr>"
  by (simp add: toStakeSet_def sample_set_def map_get_def map_values_def big_div_def)

lemmas own_simps = own_def js_inject

lemma sample_vote_encodes: "\<exists>t. encStruct (Some (sample_vote b)) VOTE_FIELDS = Some t"
  by (simp add: encStruct_def sample_vote_def VOTE_FIELDS_def encField_def own_simps encStr_def encUint_def sample_digits js_def U64_MAX_def)

lemma sample_cert_encodes: "encodeFinalityProof (sample_cert b) \<noteq> None"
  using sample_vote_encodes [of b]
  by (auto simp: encodeFinalityProof_def sample_cert_def shape_ok_def own_simps encStr_def encUint_def sample_digits js_def U128_MAX_def
    labelled_def record_text_def encArray_def)

lemma sample_certifies:
  assumes "hash_text b"
  shows "certifies toy_crypto \<lparr>stakes = [(replicate 3904 48, 9)], total = 9, quorum = 7, ss_height = None\<rparr> (sample_cert b) (sample_ctx b)"
proof -
  let ?S = "\<lparr>stakes = [(replicate 3904 (48::nat), 9 :: int)], total = 9, quorum = 7, ss_height = (None :: f64 option)\<rparr>"
  have vs: "votes_of (sample_cert b) = [sample_vote b]"
    by (simp add: votes_of_def sample_cert_def own_simps)
  have v: "voter (sample_vote b) = replicate 3904 48" by (simp add: voter_def sample_vote_def own_simps str_of_def)
  have "vote_counts toy_crypto ?S (sample_ctx b) (sample_vote b)"
    using assms sample_signature
    by (simp add: vote_counts_def sample_vote_def own_simps str_of_def raw_of_def sample_ctx_def keys_of_def)
  then show ?thesis
    using sample_cert_encodes [of b] vs v
    by (simp add: certifies_def sample_ctx_def sample_cert_def own_simps raw_of_def str_of_def stake_of_def map_get_def finalityQuorum_def big_div_def)
qed

section \<open>Properties\<close>

text \<open>C20: A certificate is accepted exactly when it is one: it encodes, names the height and the block, carries at
  most 1024 precommit votes for them from distinct validators of the set whose ML-DSA-65 signatures
  verify over the vote message, the stake of these voters reaches floor(2 * total / 3) + 1, and, when
  the set is declared for this height, the aggregates it claims are the recomputed ones.\<close>

theorem certificate_accepted_iff:
  "(\<exists>r. verifyFinalityCertificate cr cert ctx = Some r \<and> cv_ok r) \<longleftrightarrow>
   (\<exists>S. toStakeSet (validators (ctx_validatorSet ctx)) (vs_height (ctx_validatorSet ctx)) = Some S \<and> certifies cr S cert ctx)"
proof (cases "toStakeSet (validators (ctx_validatorSet ctx)) (vs_height (ctx_validatorSet ctx))")
  case None
  then show ?thesis by (simp add: verifyFinalityCertificate_def)
next
  case (Some S)
  then have "\<exists>r. verifyFinalityCertificate cr cert ctx = Some r" by (simp add: verifyFinalityCertificate_def)
  then show ?thesis using accepts_iff [OF Some, of cr cert] Some by auto
qed

lemma vote_msg_differs:
  assumes "ctx_chainId ctx = ctx_chainId ctx'" "ctx_height ctx = ctx_height ctx'" "ctx_blockHash ctx \<noteq> ctx_blockHash ctx'"
    and "uint_text (String_f64 (ctx_height ctx))" "hash_text (ctx_blockHash ctx)" "hash_text (ctx_blockHash ctx')"
  shows "vote_msg ctx \<noteq> vote_msg ctx'"
  using assms(3) voteSigningMessage_bytes [OF assms(4,5)] voteSigningMessage_bytes [OF assms(4,6)]
  by (simp only: vote_msg_def assms(1,2) same_append_eq list.inject) simp

lemma certifies_texts:
  assumes "certifies cr S cert ctx"
  shows "uint_text (String_f64 (ctx_height ctx))" and "hash_text (ctx_blockHash ctx)"
proof -
  obtain kvs where kvs: "cert = JObject kvs"
    using assms encodes_isObj [of cert] by (cases cert) (simp_all add: certifies_def)
  have "encodeFinalityProof cert \<noteq> None" using assms by (simp add: certifies_def)
  then have "encUint (own kvs ''height'') U64_MAX \<noteq> None"
    by (rule contrapos_nn) (simp add: kvs encodeFinalityProof_def record_text_def labelled_def split: option.split LosslessJson.split)
  then show "uint_text (String_f64 (ctx_height ctx))"
    using assms by (auto simp: kvs certifies_def raw_of_def encUint_def split: option.splits LosslessJson.splits if_splits)
  obtain v where "v \<in> set (votes_of cert)" using votes_nonempty [OF assms] by (cases "votes_of cert") auto
  then show "hash_text (ctx_blockHash ctx)" using assms by (auto simp: certifies_def vote_counts_def list_all_iff)
qed

text \<open>The voters of an accepted certificate reach the quorum and each signed its message.\<close>

lemma certifies_voters:
  assumes "certifies cr S cert ctx" "toStakeSet es h = Some S"
  shows "set (map voter (votes_of cert)) \<subseteq> keys_of S" and "sum (stake_of S) (set (map voter (votes_of cert))) \<ge> quorum S"
    and "\<And>pk. pk \<in> set (map voter (votes_of cert)) \<Longrightarrow> \<exists>sg. mlDsaVerify cr pk (vote_msg ctx) sg"
proof -
  have v: "vote_counts cr S ctx v" if "v \<in> set (votes_of cert)" for v
    using assms(1) that by (auto simp: certifies_def list_all_iff)
  show "set (map voter (votes_of cert)) \<subseteq> keys_of S" using v vote_counts_key by fastforce
  show "sum (stake_of S) (set (map voter (votes_of cert))) \<ge> quorum S"
    using assms(1) toStakeSet_props(2) [OF assms(2)] by (simp only: certifies_def)
  show "\<exists>sg. mlDsaVerify cr pk (vote_msg ctx) sg" if pk: "pk \<in> set (map voter (votes_of cert))" for pk
    using pk v by (fastforce simp: vote_counts_def voter_def)
qed

text \<open>C19: Accountable safety. When two certificates for different blocks at the same height are both accepted for
  one chain and one validator set, validators with more than a third of the total stake have each
  signed two different vote messages.\<close>

theorem conflicting_certificates_expose_a_third:
  assumes "verifyFinalityCertificate cr cert ctx = Some r" "cv_ok r"
    and "verifyFinalityCertificate cr cert' ctx' = Some r'" "cv_ok r'"
    and "ctx_chainId ctx = ctx_chainId ctx'" "ctx_height ctx = ctx_height ctx'" "ctx_validatorSet ctx = ctx_validatorSet ctx'"
    and "ctx_blockHash ctx \<noteq> ctx_blockHash ctx'"
  shows "\<exists>S D. toStakeSet (validators (ctx_validatorSet ctx)) (vs_height (ctx_validatorSet ctx)) = Some S \<and>
    D \<subseteq> keys_of S \<and> 3 * sum (stake_of S) D > total S \<and> vote_msg ctx \<noteq> vote_msg ctx' \<and>
    (\<forall>pk. pk \<in> D \<longrightarrow> (\<exists>sg. mlDsaVerify cr pk (vote_msg ctx) sg) \<and> (\<exists>sg. mlDsaVerify cr pk (vote_msg ctx') sg))"
proof -
  obtain S where S: "toStakeSet (validators (ctx_validatorSet ctx)) (vs_height (ctx_validatorSet ctx)) = Some S"
    using assms(1) by (auto simp: verifyFinalityCertificate_def split: option.splits)
  have c: "certifies cr S cert ctx" using accepts_iff [OF S, of cr cert] assms(1,2) by simp
  have c': "certifies cr S cert' ctx'"
    using accepts_iff [of ctx' S cr cert'] S assms(3,4,7) by simp
  note v = certifies_voters [OF c S] certifies_voters [OF c' S]
  let ?D = "set (map voter (votes_of cert)) \<inter> set (map voter (votes_of cert'))"
  have "3 * sum (stake_of S) ?D > total S" by (rule quorum_intersection [OF S v(1) v(4) v(2) v(5)])
  moreover have "vote_msg ctx \<noteq> vote_msg ctx'"
    using vote_msg_differs [OF assms(5,6,8) certifies_texts [OF c] certifies_texts(2) [OF c']] .
  moreover have "?D \<subseteq> keys_of S" using v(1) by blast
  ultimately show ?thesis using S v(3) v(6) by blast
qed

theorem conflicting_certificates_expose_a_third_witness:
  "\<exists>r r' S D. verifyFinalityCertificate toy_crypto (sample_cert (replicate 64 97)) (sample_ctx (replicate 64 97)) = Some r \<and> cv_ok r \<and>
    verifyFinalityCertificate toy_crypto (sample_cert (replicate 64 98)) (sample_ctx (replicate 64 98)) = Some r' \<and> cv_ok r' \<and>
    D \<subseteq> keys_of S \<and> 3 * sum (stake_of S) D > total S"
proof -
  have h: "hash_text (replicate 64 97)" "hash_text (replicate 64 98)"
    by (simp_all add: hash_text_def lower_hex_def list_all_iff)
  have "\<exists>r. verifyFinalityCertificate toy_crypto (sample_cert b) (sample_ctx b) = Some r \<and> cv_ok r" if "hash_text b" for b
    using accepts_iff [of "sample_ctx b"] sample_certifies [OF that] sample_stakes
    by (auto simp: verifyFinalityCertificate_def sample_ctx_def)
  then obtain r r' where r: "verifyFinalityCertificate toy_crypto (sample_cert (replicate 64 97)) (sample_ctx (replicate 64 97)) = Some r" "cv_ok r"
    and r': "verifyFinalityCertificate toy_crypto (sample_cert (replicate 64 98)) (sample_ctx (replicate 64 98)) = Some r'" "cv_ok r'"
    using h by meson
  have "ctx_blockHash (sample_ctx (replicate 64 97)) \<noteq> ctx_blockHash (sample_ctx (replicate 64 98))"
    by (simp add: sample_ctx_def replicate_eq_replicate)
  from conflicting_certificates_expose_a_third [OF r r' _ _ _ this] r r' show ?thesis by (auto simp: sample_ctx_def)
qed

end
