(* ===== verification/Finality_Verify.thy ===== *)
theory Finality_Verify
  imports Finality_Certificate Effects
begin

text \<open>
  Verifying that a transaction is finalized (\<open>packages/core/src/finality-verify.ts\<close>): fetching from
  nodes, \<open>verifyBlock\<close>, \<open>fetchAndVerifyBlock\<close> and \<open>verifyTxFinalized\<close>. \<open>fetch\<close> is an effect on an
  arbitrary world, so the nodes may answer anything, differently each time, or throw; a timeout is
  a throw. Explanatory texts are left out of the checks, as in the certificate theory.

  The theorems: a result \<open>finalized\<close> is backed by a block that contains the transaction, hashes to
  the reported block hash and carries an accepted certificate of the pinned set, whatever the nodes
  answered; and an honest node's answers lead to \<open>finalized\<close>.
\<close>

section \<open>Fetching\<close>

record 'w Response =
  res_ok :: bool
  res_status :: int
  res_text :: "('w, jstr) eff"

type_synonym 'w FetchLike = "jstr \<Rightarrow> ('w, 'w Response) eff"

text \<open>\<open>node.replace(/\/+$/, "")\<close>, and \<open>/api\<close> appended unless it ends so.\<close>

definition apiBase :: "jstr \<Rightarrow> jstr" where
  "apiBase node = (let n = rev (dropWhile (\<lambda>c. c = 47) (rev node)) in
     if length n \<ge> 4 \<and> drop (length n - 4) n = js ''/api'' then n else n @ js ''/api'')"

text \<open>\<open>getJson\<close>: the body, or \<^const>\<open>None\<close> for a network error, an HTTP error or a text that is no JSON.\<close>

definition getJson :: "'w FetchLike \<Rightarrow> jstr \<Rightarrow> ('w, LosslessJson option) io" where
  "getJson net url = attempt
     (bnd (net url) (\<lambda>res. bnd (res_text res) (\<lambda>text.
        if \<not> res_ok res then ret None
        else (case parseJsonLossless text of Inl e \<Rightarrow> throw ''SyntaxError'' | Inr body \<Rightarrow> ret (Some body)))))
     (\<lambda>r. case r of Inl e \<Rightarrow> ret None | Inr x \<Rightarrow> ret x)"

fun truthy :: "LosslessJson \<Rightarrow> bool" where
  "truthy JNull = False"
| "truthy (JBool b) = b"
| "truthy (JString s) = (s \<noteq> [])"
| "truthy _ = True"

text \<open>The list at \<open>body.k\<close>, if the body is an object with an array there.\<close>

definition list_at :: "LosslessJson option \<Rightarrow> string \<Rightarrow> LosslessJson list option" where
  "list_at body k = (case field_of body k of Some (JArray vs) \<Rightarrow> Some vs | _ \<Rightarrow> None)"

section \<open>Blocks\<close>

record VerifiedBlock =
  vb_height :: f64
  vb_blockHash :: jstr
  vb_chainId :: jstr
  vb_proposer :: jstr
  vb_txHashes :: "jstr list"
  vb_raw :: LosslessJson

record BlockResult =
  br_ok :: bool
  br_block :: "VerifiedBlock option"
  br_checks :: "FinalityCheck list"

definition no_block :: "FinalityCheck list \<Rightarrow> BlockResult" where
  "no_block checks = \<lparr>br_ok = False, br_block = None, br_checks = checks\<rparr>"

definition text_of :: "jstr option \<Rightarrow> jstr" where
  "text_of v = (case v of None \<Rightarrow> [] | Some x \<Rightarrow> x)"

text \<open>The checks once the shape is known: the header with its encoding, the transactions with their hashes.\<close>

definition checkBlock ::
  "crypto \<Rightarrow> LosslessJson \<Rightarrow> LosslessJson \<Rightarrow> jstr \<Rightarrow> LosslessJson list \<Rightarrow> jstr list \<Rightarrow> jstr \<Rightarrow> jstr \<Rightarrow> f64 option \<Rightarrow> jstr option \<Rightarrow> BlockResult" where
  "checkBlock cr blk header headerBytes txs txHashes sg chainId wanted node =
     (let c1 = check ''block.shape'' True True node [];
          height = Number_raw (text_of (raw_of (field_of (Some header) ''height'')));
          h_ok = (case wanted of None \<Rightarrow> True | Some h \<Rightarrow> f64_eq height h);
          c2 = (if wanted = None then c1 else check ''block.height'' h_ok True node c1)
      in if \<not> h_ok then no_block c2
         else let c3 = check ''block.chain_id'' (str_of (field_of (Some header) ''chain_id'') = Some chainId) True node c2;
                  c4 = check ''block.tx_hash'' (computeTxListHash cr txs \<noteq> None \<and> computeTxListHash cr txs = str_of (field_of (Some header) ''tx_hash'')) True node c3;
                  blockHash = toHex (sha256 cr (concat [utf8 headerBytes, utf8 sg]));
                  c5 = check ''block.hash'' (str_of (field_of (Some blk) ''hash'') = Some blockHash) True node c4;
                  proposer = text_of (str_of (field_of (Some header) ''proposer_pub_key''));
                  c6 = check ''block.proposer_signature'' (mlDsaVerify cr proposer (utf8 headerBytes) sg) True node c5
              in \<lparr>br_ok = critOk c6,
                  br_block = (if critOk c6 then Some \<lparr>vb_height = height, vb_blockHash = blockHash, vb_chainId = chainId,
                    vb_proposer = proposer, vb_txHashes = txHashes, vb_raw = blk\<rparr> else None),
                  br_checks = c6\<rparr>)"

definition verifyBlock :: "crypto \<Rightarrow> LosslessJson \<Rightarrow> jstr \<Rightarrow> f64 option \<Rightarrow> jstr option \<Rightarrow> BlockResult" where
  "verifyBlock cr blk chainId wanted node =
     (case (field_of (Some blk) ''header'', list_at (Some blk) ''txs'', str_of (field_of (Some blk) ''proposer_sig'')) of
        (Some header, Some txs, Some sg) \<Rightarrow>
          if \<not> isObj (Some header) then no_block (check ''block.shape'' False True node [])
          else (case (encodeHeaderV1 header, those (map (computeSingleTxHash cr) txs)) of
              (Some headerBytes, Some txHashes) \<Rightarrow> checkBlock cr blk header headerBytes txs txHashes sg chainId wanted node
            | _ \<Rightarrow> no_block (check ''block.shape'' False True node []))
      | _ \<Rightarrow> no_block (check ''block.shape'' False True node []))"

record FetchedBlock =
  fb_ok :: bool
  fb_block :: "VerifiedBlock option"
  fb_next :: "LosslessJson option"
  fb_checks :: "FinalityCheck list"

definition nextBlock :: "LosslessJson list \<Rightarrow> f64 \<Rightarrow> LosslessJson option" where
  "nextBlock blocks height = (case blocks of
      first # second # _ \<Rightarrow>
        if isObj (Some second) \<and> isObj (field_of (Some second) ''header'') \<and>
           raw_of (field_of (field_of (Some second) ''header'') ''height'') = Some (String_f64 (f64_add height (f64_of_int 1)))
        then Some second else None
    | _ \<Rightarrow> None)"

definition fetchAndVerifyBlock :: "crypto \<Rightarrow> 'w FetchLike \<Rightarrow> f64 \<Rightarrow> jstr \<Rightarrow> jstr \<Rightarrow> ('w, FetchedBlock) io" where
  "fetchAndVerifyBlock cr net height node0 chainId =
     (let node = apiBase node0 in
      bnd (getJson net (node @ js ''/blocks?from_height='' @ String_f64 height @ js ''&limit=2'')) (\<lambda>r.
      let blocks = (case list_at r ''blocks'' of None \<Rightarrow> [] | Some bs \<Rightarrow> bs);
          found = (case blocks of [] \<Rightarrow> False | b # _ \<Rightarrow> truthy b);
          c1 = check ''block.fetch'' found True (Some node) []
      in if \<not> found then ret \<lparr>fb_ok = False, fb_block = None, fb_next = None, fb_checks = c1\<rparr>
         else let v = verifyBlock cr (hd blocks) chainId (Some height) (Some node)
              in ret \<lparr>fb_ok = br_ok v, fb_block = br_block v, fb_next = nextBlock blocks height, fb_checks = c1 @ br_checks v\<rparr>))"

section \<open>verifyTxFinalized\<close>

datatype FinalityStatus = Finalized | IncludedNotFinalized | NotFound | Invalid
datatype ValidatorSetTrust = Pinned | NodeReported
datatype CertificateSource = ParentCommit | FinalityEndpoint

record VerifyTxFinalizedOptions =
  vo_txHash :: jstr
  vo_nodes :: "jstr list"
  vo_chainId :: jstr
  vo_trustedValidatorSet :: "TrustedValidatorSet option"
  vo_minConfirmations :: "f64 option"

record FinalityProof =
  fp_chainId :: jstr
  fp_height :: f64
  fp_time :: jstr
  fp_prevHash :: jstr
  fp_txHash :: jstr
  fp_stateRoot :: "jstr option"
  fp_proposer :: jstr
  fp_certificateSource :: "CertificateSource option"
  fp_certificate :: "VerifiedCertificate option"
  fp_validatorSetSource :: ValidatorSetTrust
  fp_nodesAgreeing :: "jstr list"

record VerifyTxFinalizedResult =
  vr_status :: FinalityStatus
  vr_height :: "f64 option"
  vr_blockHash :: "jstr option"
  vr_txIndex :: "nat option"
  vr_trust :: ValidatorSetTrust
  vr_proof :: "FinalityProof option"
  vr_outcome :: "LosslessJson option"
  vr_checks :: "FinalityCheck list"

text \<open>\<open>toLowerCase\<close>. Only the case of ASCII letters matters: no other character has a lower case that is
  a hexadecimal digit, so every other text fails the hash test in both forms.\<close>

definition lower_units :: "jstr \<Rightarrow> jstr" where
  "lower_units s = map (\<lambda>c. if 65 \<le> c \<and> c \<le> 90 then c + 32 else c) s"

text \<open>\<open>Array.from(new Set(xs))\<close>.\<close>

definition unique :: "'a list \<Rightarrow> 'a list" where
  "unique xs = rev (remdups (rev xs))"

text \<open>1. Which node reports the transaction, at which height, with which receipt.\<close>

fun lookupTx :: "'w FetchLike \<Rightarrow> jstr \<Rightarrow> jstr list \<Rightarrow> ('w, (f64 \<times> jstr \<times> LosslessJson option) option) io" where
  "lookupTx net txHash [] = ret None"
| "lookupTx net txHash (node # ns) = bnd (getJson net (node @ js ''/tx/'' @ txHash)) (\<lambda>r.
     case raw_of (field_of r ''blockHeight'') of
       Some x \<Rightarrow> if field_of r ''success'' = Some (JBool True)
         then ret (Some (Number_raw x, node, if isObj (field_of r ''receipt'') then field_of r ''receipt'' else None))
         else lookupTx net txHash ns
     | None \<Rightarrow> lookupTx net txHash ns)"

text \<open>2. The first node that serves a block at the height.\<close>

fun fetchFirst :: "crypto \<Rightarrow> 'w FetchLike \<Rightarrow> f64 \<Rightarrow> jstr \<Rightarrow> jstr list \<Rightarrow> FinalityCheck list \<Rightarrow> ('w, (FetchedBlock \<times> jstr) option \<times> FinalityCheck list) io" where
  "fetchFirst cr net hint chainId [] checks = ret (None, checks)"
| "fetchFirst cr net hint chainId (node # ns) checks = bnd (fetchAndVerifyBlock cr net hint node chainId) (\<lambda>r.
     let cs = checks @ fb_checks r in
     if list_ex (\<lambda>c. ck_name c = js ''block.fetch'' \<and> ck_ok c) (fb_checks r) then ret (Some (r, node), cs)
     else fetchFirst cr net hint chainId ns cs)"

text \<open>3. The validator set: the pinned one, or the active validators a node reports.\<close>

fun reportedEntries :: "LosslessJson list \<Rightarrow> ValidatorEntry list option" where
  "reportedEntries [] = Some []"
| "reportedEntries (v # vs) =
     (case (str_of (field_of (Some v) ''publicKey''), raw_of (field_of (Some v) ''stake'')) of
        (Some pk, Some x) \<Rightarrow>
          if str_of (field_of (Some v) ''status'') = Some (js ''active'')
          then (case BigInt_units x of None \<Rightarrow> None
                | Some s \<Rightarrow> map_option (\<lambda>es. \<lparr>publicKey = pk, stake = StakeBig s\<rparr> # es) (reportedEntries vs))
          else reportedEntries vs
      | _ \<Rightarrow> reportedEntries vs)"

definition validatorSetFor :: "'w FetchLike \<Rightarrow> VerifyTxFinalizedOptions \<Rightarrow> jstr \<Rightarrow> FinalityCheck list \<Rightarrow> ('w, TrustedValidatorSet option \<times> FinalityCheck list) io" where
  "validatorSetFor net opts primary checks =
     (case vo_trustedValidatorSet opts of
        Some V \<Rightarrow> ret (Some V, check ''validator_set'' True True None checks)
      | None \<Rightarrow> bnd (getJson net (primary @ js ''/validators'')) (\<lambda>r.
          case list_at r ''validators'' of
            None \<Rightarrow> ret (None, check ''validator_set'' False True (Some primary) checks)
          | Some vs \<Rightarrow> (case reportedEntries vs of
              None \<Rightarrow> throw ''SyntaxError''
            | Some es \<Rightarrow> ret (Some \<lparr>validators = es, vs_height = None\<rparr>, check ''validator_set'' True True (Some primary) checks))))"

definition proposerCheck :: "TrustedValidatorSet option \<Rightarrow> jstr \<Rightarrow> FinalityCheck list \<Rightarrow> FinalityCheck list" where
  "proposerCheck vset proposer checks = (case vset of
      None \<Rightarrow> checks
    | Some V \<Rightarrow> check ''block.proposer_in_set'' (list_ex (\<lambda>v. publicKey v = proposer) (validators V)) False None checks)"

text \<open>4. The certificate.\<close>

fun fetchCert :: "'w FetchLike \<Rightarrow> f64 \<Rightarrow> jstr list \<Rightarrow> ('w, (LosslessJson \<times> CertificateSource) option) io" where
  "fetchCert net height [] = ret None"
| "fetchCert net height (node # ns) = bnd (getJson net (node @ js ''/finality/'' @ String_f64 height)) (\<lambda>r.
     case field_of r ''proof'' of
       Some p \<Rightarrow> if field_of r ''success'' = Some (JBool True) \<and> isObj (Some p) then ret (Some (p, FinalityEndpoint)) else fetchCert net height ns
     | None \<Rightarrow> fetchCert net height ns)"

definition findCert :: "'w FetchLike \<Rightarrow> f64 \<Rightarrow> LosslessJson option \<Rightarrow> jstr list \<Rightarrow> ('w, (LosslessJson \<times> CertificateSource) option) io" where
  "findCert net height nextb ns = (case field_of (field_of nextb ''header'') ''parent_commit'' of
      Some p \<Rightarrow> if isObj (Some p) then ret (Some (p, ParentCommit)) else fetchCert net height ns
    | None \<Rightarrow> fetchCert net height ns)"

text \<open>5. The other nodes: those that serve this block, and whether one serves a different one.\<close>

fun crossCheck :: "crypto \<Rightarrow> 'w FetchLike \<Rightarrow> jstr \<Rightarrow> VerifiedBlock \<Rightarrow> jstr list \<Rightarrow> jstr list \<times> bool \<times> FinalityCheck list \<Rightarrow> ('w, jstr list \<times> bool \<times> FinalityCheck list) io" where
  "crossCheck cr net primary block [] acc = ret acc"
| "crossCheck cr net primary block (node # ns) (agreeing, conflict, checks) =
     (if node = primary then crossCheck cr net primary block ns (agreeing, conflict, checks)
      else bnd (getJson net (node @ js ''/blocks?from_height='' @ String_f64 (vb_height block) @ js ''&limit=1'')) (\<lambda>r.
        let b = (case list_at r ''blocks'' of Some (x # _) \<Rightarrow> Some x | _ \<Rightarrow> None);
            header = field_of b ''header'' in
        case (header, str_of (field_of b ''proposer_sig'')) of
          (Some h, Some sg) \<Rightarrow>
            if \<not> isObj header \<or> raw_of (field_of header ''height'') \<noteq> Some (String_f64 (vb_height block))
            then crossCheck cr net primary block ns (agreeing, conflict, check ''nodes.answer'' False False (Some node) checks)
            else if computeBlockHash cr h sg = Some (vb_blockHash block)
            then crossCheck cr net primary block ns (agreeing @ [node], conflict, check ''nodes.same_block'' True True (Some node) checks)
            else crossCheck cr net primary block ns (agreeing, True, check ''nodes.same_block'' False True (Some node) checks)
        | _ \<Rightarrow> crossCheck cr net primary block ns (agreeing, conflict, check ''nodes.answer'' False False (Some node) checks)))"

text \<open>Where the transaction was found: the fields the rest of the function shares.\<close>

record Located =
  lo_nodes :: "jstr list"
  lo_outcome :: "LosslessJson option"
  lo_block :: VerifiedBlock
  lo_next :: "LosslessJson option"
  lo_txIndex :: nat
  lo_primary :: jstr

definition trust_of :: "VerifyTxFinalizedOptions \<Rightarrow> ValidatorSetTrust" where
  "trust_of opts = (if vo_trustedValidatorSet opts \<noteq> None then Pinned else NodeReported)"

definition result_of :: "VerifyTxFinalizedOptions \<Rightarrow> FinalityStatus \<Rightarrow> f64 option \<Rightarrow> jstr option \<Rightarrow> nat option \<Rightarrow> FinalityProof option \<Rightarrow>
    LosslessJson option \<Rightarrow> FinalityCheck list \<Rightarrow> VerifyTxFinalizedResult" where
  "result_of opts status height blockHash txIndex pf outcome checks =
     \<lparr>vr_status = status, vr_height = height, vr_blockHash = blockHash, vr_txIndex = txIndex, vr_trust = trust_of opts,
      vr_proof = pf, vr_outcome = outcome, vr_checks = checks\<rparr>"

definition proofOf :: "VerifyTxFinalizedOptions \<Rightarrow> Located \<Rightarrow> CertificateSource option \<Rightarrow> VerifiedCertificate option \<Rightarrow> jstr list \<Rightarrow> FinalityProof" where
  "proofOf opts L src cert agreeing =
     (let header = field_of (Some (vb_raw (lo_block L))) ''header'' in
      \<lparr>fp_chainId = vo_chainId opts, fp_height = vb_height (lo_block L), fp_time = text_of (raw_of (field_of header ''time'')),
       fp_prevHash = text_of (str_of (field_of header ''prev_hash'')), fp_txHash = text_of (str_of (field_of header ''tx_hash'')),
       fp_stateRoot = str_of (field_of header ''state_root''), fp_proposer = vb_proposer (lo_block L),
       fp_certificateSource = src, fp_certificate = cert, fp_validatorSetSource = trust_of opts, fp_nodesAgreeing = agreeing\<rparr>)"

definition with_proof :: "VerifyTxFinalizedOptions \<Rightarrow> Located \<Rightarrow> FinalityStatus \<Rightarrow> FinalityProof \<Rightarrow> FinalityCheck list \<Rightarrow> VerifyTxFinalizedResult" where
  "with_proof opts L status pf checks =
     result_of opts status (Some (vb_height (lo_block L))) (Some (vb_blockHash (lo_block L))) (Some (lo_txIndex L)) (Some pf) (lo_outcome L) checks"

text \<open>6. The optional depth.\<close>

definition confirmDepth :: "'w FetchLike \<Rightarrow> VerifyTxFinalizedOptions \<Rightarrow> Located \<Rightarrow> FinalityProof \<Rightarrow> FinalityCheck list \<Rightarrow> ('w, VerifyTxFinalizedResult) io" where
  "confirmDepth net opts L pf checks =
     (let minConf = (case vo_minConfirmations opts of None \<Rightarrow> f64_of_int 1 | Some x \<Rightarrow> x) in
      if f64_less (f64_of_int 1) minConf
      then bnd (getJson net (lo_primary L @ js ''/stats'')) (\<lambda>r.
        let conf = (case raw_of (field_of r ''network_height'') of None \<Rightarrow> f64_of_int 0
              | Some x \<Rightarrow> f64_add (f64_sub (Number_raw x) (vb_height (lo_block L))) (f64_of_int 1));
            ok = f64_le minConf conf;
            cs = check ''confirmations'' ok True (Some (lo_primary L)) checks
        in ret (with_proof opts L (if ok then Finalized else IncludedNotFinalized) pf cs))
      else ret (with_proof opts L Finalized pf checks))"

definition crossCheckAndConfirm :: "crypto \<Rightarrow> 'w FetchLike \<Rightarrow> VerifyTxFinalizedOptions \<Rightarrow> Located \<Rightarrow> CertificateSource \<Rightarrow> VerifiedCertificate option \<Rightarrow>
    FinalityCheck list \<Rightarrow> ('w, VerifyTxFinalizedResult) io" where
  "crossCheckAndConfirm cr net opts L src vc checks =
     bnd (crossCheck cr net (lo_primary L) (lo_block L) (lo_nodes L) ([lo_primary L], False, checks)) (\<lambda>(agreeing, conflict, cs).
       let pf = proofOf opts L (Some src) vc agreeing;
           majority = length (lo_nodes L) div 2 + 1;
           cs' = check ''nodes.majority'' (length agreeing \<ge> majority) True None cs
       in if conflict then ret (with_proof opts L Invalid pf cs)
          else if \<not> length agreeing \<ge> majority then ret (with_proof opts L IncludedNotFinalized pf cs')
          else confirmDepth net opts L pf cs')"

text \<open>Steps 3 to 6.\<close>

definition certifyLocated :: "crypto \<Rightarrow> 'w FetchLike \<Rightarrow> VerifyTxFinalizedOptions \<Rightarrow> Located \<Rightarrow> FinalityCheck list \<Rightarrow> ('w, VerifyTxFinalizedResult) io" where
  "certifyLocated cr net opts L checks =
     bnd (validatorSetFor net opts (lo_primary L) checks) (\<lambda>(vset, c1).
     let c2 = proposerCheck vset (vb_proposer (lo_block L)) c1 in
     bnd (findCert net (vb_height (lo_block L)) (lo_next L) (lo_primary L # filter (\<lambda>n. n \<noteq> lo_primary L) (lo_nodes L))) (\<lambda>found.
     case found of
       None \<Rightarrow> ret (with_proof opts L IncludedNotFinalized (proofOf opts L None None [lo_primary L]) (check ''finality.certificate'' False True None c2))
     | Some (cert, src) \<Rightarrow>
         let c3 = check ''finality.certificate'' True True None c2 in
         (case vset of
            None \<Rightarrow> ret (with_proof opts L IncludedNotFinalized (proofOf opts L (Some src) None [lo_primary L]) c3)
          | Some V \<Rightarrow> (case verifyFinalityCertificate cr cert
                \<lparr>ctx_chainId = vo_chainId opts, ctx_height = vb_height (lo_block L), ctx_blockHash = vb_blockHash (lo_block L), ctx_validatorSet = V\<rparr> of
              None \<Rightarrow> throw ''SyntaxError''
            | Some cv \<Rightarrow>
                let c4 = c3 @ cv_checks cv in
                if \<not> cv_ok cv then ret (with_proof opts L Invalid (proofOf opts L (Some src) None [lo_primary L]) c4)
                else crossCheckAndConfirm cr net opts L src (cv_verified cv) c4))))"

fun indexOf :: "jstr list \<Rightarrow> jstr \<Rightarrow> nat option" where
  "indexOf [] x = None"
| "indexOf (y # ys) x = (if y = x then Some 0 else map_option Suc (indexOf ys x))"

text \<open>Step 2 and the search in the block.\<close>

definition locateTx :: "crypto \<Rightarrow> 'w FetchLike \<Rightarrow> VerifyTxFinalizedOptions \<Rightarrow> jstr \<Rightarrow> jstr list \<Rightarrow> f64 \<Rightarrow> jstr \<Rightarrow> LosslessJson option \<Rightarrow>
    FinalityCheck list \<Rightarrow> ('w, VerifyTxFinalizedResult) io" where
  "locateTx cr net opts txHash nodes hint hintNode outcome checks =
     bnd (fetchFirst cr net hint (vo_chainId opts) (hintNode # filter (\<lambda>n. n \<noteq> hintNode) nodes) checks) (\<lambda>(fb, c1).
     case fb of
       None \<Rightarrow> ret (result_of opts NotFound (Some hint) None None None outcome c1)
     | Some (f, primary) \<Rightarrow> (case (fb_ok f, fb_block f) of
           (True, Some block) \<Rightarrow>
             let c2 = check ''tx.in_block'' (indexOf (vb_txHashes block) txHash \<noteq> None) True (Some primary) c1 in
             (case indexOf (vb_txHashes block) txHash of
                None \<Rightarrow> ret (result_of opts NotFound (Some (vb_height block)) (Some (vb_blockHash block)) None None outcome c2)
              | Some i \<Rightarrow> certifyLocated cr net opts \<lparr>lo_nodes = nodes, lo_outcome = outcome, lo_block = block, lo_next = fb_next f,
                    lo_txIndex = i, lo_primary = primary\<rparr> c2)
         | _ \<Rightarrow> ret (result_of opts Invalid (Some hint) None None None outcome c1)))"

definition verifyTxFinalized :: "crypto \<Rightarrow> 'w FetchLike \<Rightarrow> VerifyTxFinalizedOptions \<Rightarrow> ('w, VerifyTxFinalizedResult) io" where
  "verifyTxFinalized cr net opts =
     (let txHash = lower_units (vo_txHash opts);
          nodes = unique (map apiBase (vo_nodes opts));
          input_ok = (hash_text txHash \<and> nodes \<noteq> [] \<and> vo_chainId opts \<noteq> []);
          c0 = check ''input'' input_ok True None []
      in if \<not> input_ok then ret (result_of opts Invalid None None None None None c0)
         else bnd (lookupTx net txHash nodes) (\<lambda>hit.
           case hit of
             None \<Rightarrow> ret (result_of opts NotFound None None None None None (check ''tx.lookup'' False True None c0))
           | Some (hint, hintNode, receipt) \<Rightarrow>
               locateTx cr net opts txHash nodes hint hintNode (field_of receipt ''status'') (check ''tx.lookup'' True True (Some hintNode) c0)))"

section \<open>Soundness\<close>

text \<open>A block whose hashes and signature were recomputed from its own header and transactions.\<close>

definition verified_block :: "crypto \<Rightarrow> jstr \<Rightarrow> VerifiedBlock \<Rightarrow> bool" where
  "verified_block cr chainId b = (\<exists>header txs sg hb h.
     field_of (Some (vb_raw b)) ''header'' = Some header \<and> list_at (Some (vb_raw b)) ''txs'' = Some txs \<and>
     encodeHeaderV1 header = Some hb \<and> map (computeSingleTxHash cr) txs = map Some (vb_txHashes b) \<and>
     str_of (field_of (Some header) ''chain_id'') = Some chainId \<and>
     computeTxListHash cr txs = Some h \<and> str_of (field_of (Some header) ''tx_hash'') = Some h \<and>
     computeBlockHash cr header sg = Some (vb_blockHash b) \<and>
     vb_proposer b = text_of (str_of (field_of (Some header) ''proposer_pub_key'')) \<and> mlDsaVerify cr (vb_proposer b) (utf8 hb) sg \<and>
     vb_height b = Number_raw (text_of (raw_of (field_of (Some header) ''height''))))"

lemma verifyBlock_sound:
  assumes "br_ok (verifyBlock cr blk chainId wanted node)" "br_block (verifyBlock cr blk chainId wanted node) = Some b"
  shows "verified_block cr chainId b"
proof -
  obtain header txs sg where f: "field_of (Some blk) ''header'' = Some header" "list_at (Some blk) ''txs'' = Some txs"
      "str_of (field_of (Some blk) ''proposer_sig'') = Some sg"
    using assms(1) by (auto simp: verifyBlock_def no_block_def split: option.splits)
  obtain hb hs where e: "encodeHeaderV1 header = Some hb" "those (map (computeSingleTxHash cr) txs) = Some hs"
    using assms(1) f by (auto simp: verifyBlock_def no_block_def split: option.splits if_splits)
  have v: "verifyBlock cr blk chainId wanted node = checkBlock cr blk header hb txs hs sg chainId wanted node"
    using assms(1) f e by (simp add: verifyBlock_def no_block_def split: if_splits)
  note c = assms [unfolded v checkBlock_def Let_def]
  show ?thesis unfolding verified_block_def
    using c f(1,2) e by - (rule exI [of _ header], rule exI [of _ txs], rule exI [of _ sg], rule exI [of _ hb],
      auto simp: no_block_def critOk_check computeBlockHash_def those_eq split: if_splits)
qed

lemma fetchAndVerifyBlock_sound:
  "yields (fetchAndVerifyBlock cr net h node chainId) (\<lambda>f. \<forall>b. fb_ok f \<longrightarrow> fb_block f = Some b \<longrightarrow> verified_block cr chainId b)"
  unfolding fetchAndVerifyBlock_def Let_def
  by (intro yields_bnd_any yields_if yields_ret) (auto dest: verifyBlock_sound)

lemma fetchFirst_sound:
  "yields (fetchFirst cr net h chainId ns cs) (\<lambda>(fb, c). \<forall>f p. fb = Some (f, p) \<longrightarrow>
     p \<in> set ns \<and> (\<forall>b. fb_ok f \<longrightarrow> fb_block f = Some b \<longrightarrow> verified_block cr chainId b))"
proof (induction ns arbitrary: cs)
  case (Cons n ns)
  show ?case unfolding fetchFirst.simps Let_def
  proof (rule yields_bnd [OF fetchAndVerifyBlock_sound], rule yields_if)
    fix r assume "\<forall>b. fb_ok r \<longrightarrow> fb_block r = Some b \<longrightarrow> verified_block cr chainId b"
    then show "yields (ret (Some (r, n), cs @ fb_checks r)) (\<lambda>(fb, c). \<forall>f p. fb = Some (f, p) \<longrightarrow>
        p \<in> set (n # ns) \<and> (\<forall>b. fb_ok f \<longrightarrow> fb_block f = Some b \<longrightarrow> verified_block cr chainId b))"
      by (intro yields_ret) simp
  next
    fix r
    show "yields (fetchFirst cr net h chainId ns (cs @ fb_checks r)) (\<lambda>(fb, c). \<forall>f p. fb = Some (f, p) \<longrightarrow>
        p \<in> set (n # ns) \<and> (\<forall>b. fb_ok f \<longrightarrow> fb_block f = Some b \<longrightarrow> verified_block cr chainId b))"
      using Cons.IH [of "cs @ fb_checks r"] unfolding yields_def by fastforce
  qed
qed (simp add: yields_ret)

lemma lookupTx_sound: "yields (lookupTx net txHash ns) (\<lambda>hit. \<forall>h n rc. hit = Some (h, n, rc) \<longrightarrow> n \<in> set ns)"
proof (induction ns)
  case (Cons m ns)
  then have "yields (lookupTx net txHash ns) (\<lambda>hit. \<forall>h n rc. hit = Some (h, n, rc) \<longrightarrow> n \<in> set (m # ns))"
    unfolding yields_def by fastforce
  then show ?case unfolding lookupTx.simps
    by (intro yields_bnd_any) (auto intro!: yields_ret split: option.split)
qed (simp add: yields_ret)

text \<open>The nodes that agree are other nodes of the list, each once.\<close>

definition joined_by :: "jstr list \<Rightarrow> jstr \<Rightarrow> jstr list \<Rightarrow> jstr list \<times> bool \<times> FinalityCheck list \<Rightarrow> bool" where
  "joined_by ag primary ns a = (\<exists>xs. fst a = ag @ xs \<and> set xs \<subseteq> set ns - {primary} \<and> distinct xs)"

lemma crossCheck_sound:
  "distinct ns \<Longrightarrow> yields (crossCheck cr net primary b ns (ag, cf, cs)) (joined_by ag primary ns)"
proof (induction ns arbitrary: ag cf cs)
  case (Cons n ns)
  have IH: "yields (crossCheck cr net primary b ns (ag1, cf1, cs1)) (joined_by ag1 primary ns)" for ag1 cf1 cs1
    using Cons.prems by (intro Cons.IH) simp
  have skip: "yields (crossCheck cr net primary b ns (ag, cf1, cs1)) (joined_by ag primary (n # ns))" for cf1 cs1
    by (rule yields_mono [OF IH]) (auto simp: joined_by_def)
  have add: "yields (crossCheck cr net primary b ns (ag @ [n], cf1, cs1)) (joined_by ag primary (n # ns))" if "n \<noteq> primary" for cf1 cs1
    by (rule yields_mono [OF IH]) (use Cons.prems that in \<open>auto simp: joined_by_def\<close>)
  show ?case unfolding crossCheck.simps Let_def
    by (rule yields_if, rule skip, rule yields_bnd_any) (auto intro!: skip add split: option.split)
qed (simp add: yields_ret joined_by_def)

text \<open>What a result \<open>finalized\<close> stands for, with the pinned validator set \<open>V\<close>.\<close>

definition finalized_backed :: "crypto \<Rightarrow> VerifyTxFinalizedOptions \<Rightarrow> TrustedValidatorSet \<Rightarrow> VerifyTxFinalizedResult \<Rightarrow> bool" where
  "finalized_backed cr opts V r = (\<exists>b i cert S pf.
     verified_block cr (vo_chainId opts) b \<and> vr_blockHash r = Some (vb_blockHash b) \<and> vr_height r = Some (vb_height b) \<and>
     vr_txIndex r = Some i \<and> i < length (vb_txHashes b) \<and> vb_txHashes b ! i = lower_units (vo_txHash opts) \<and>
     toStakeSet (validators V) (vs_height V) = Some S \<and>
     certifies cr S cert \<lparr>ctx_chainId = vo_chainId opts, ctx_height = vb_height b, ctx_blockHash = vb_blockHash b, ctx_validatorSet = V\<rparr> \<and>
     vr_proof r = Some pf \<and> distinct (fp_nodesAgreeing pf) \<and> set (fp_nodesAgreeing pf) \<subseteq> set (map apiBase (vo_nodes opts)) \<and>
     2 * length (fp_nodesAgreeing pf) > length (unique (map apiBase (vo_nodes opts))))"

lemma confirmDepth_result:
  "yields (confirmDepth net opts L pf cs) (\<lambda>r. vr_blockHash r = Some (vb_blockHash (lo_block L)) \<and>
     vr_height r = Some (vb_height (lo_block L)) \<and> vr_txIndex r = Some (lo_txIndex L) \<and> vr_proof r = Some pf)"
  unfolding confirmDepth_def Let_def
  by (intro yields_if yields_bnd_any yields_ret) (simp_all add: with_proof_def result_of_def)

definition agrees :: "Located \<Rightarrow> VerifyTxFinalizedResult \<Rightarrow> bool" where
  "agrees L r = (vr_status r = Finalized \<longrightarrow> vr_blockHash r = Some (vb_blockHash (lo_block L)) \<and>
     vr_height r = Some (vb_height (lo_block L)) \<and> vr_txIndex r = Some (lo_txIndex L) \<and>
     (\<exists>pf. vr_proof r = Some pf \<and> distinct (fp_nodesAgreeing pf) \<and> set (fp_nodesAgreeing pf) \<subseteq> set (lo_nodes L) \<and>
       2 * length (fp_nodesAgreeing pf) > length (lo_nodes L)))"

lemma not_finalized_agrees: "s \<noteq> Finalized \<Longrightarrow> yields (ret (with_proof opts L s pf cs)) (agrees L)"
  by (rule yields_ret) (simp add: agrees_def with_proof_def result_of_def)

lemma crossCheckAndConfirm_sound:
  assumes "distinct (lo_nodes L)" "lo_primary L \<in> set (lo_nodes L)"
  shows "yields (crossCheckAndConfirm cr net opts L src vc cs) (agrees L)"
  unfolding crossCheckAndConfirm_def
proof (rule yields_bnd [OF crossCheck_sound [OF assms(1)]])
  fix a assume "joined_by [lo_primary L] (lo_primary L) (lo_nodes L) a"
  then obtain xs cf cs' where a: "a = (lo_primary L # xs, cf, cs')" and xs: "set xs \<subseteq> set (lo_nodes L) - {lo_primary L}" "distinct xs"
    by (cases a) (auto simp: joined_by_def)
  let ?pf = "proofOf opts L (Some src) vc (lo_primary L # xs)"
  have fin: "agrees L r" if "length (lo_nodes L) div 2 \<le> length xs" "vr_blockHash r = Some (vb_blockHash (lo_block L)) \<and>
      vr_height r = Some (vb_height (lo_block L)) \<and> vr_txIndex r = Some (lo_txIndex L) \<and> vr_proof r = Some ?pf" for r
    using that xs assms(2) by (auto simp: agrees_def proofOf_def Let_def)
  have "yields (confirmDepth net opts L ?pf cs1) (agrees L)" if "length (lo_nodes L) div 2 \<le> length xs" for cs1
    by (rule yields_mono [OF confirmDepth_result]) (rule fin [OF that])
  then show "yields (case a of (agreeing, conflict, cs) \<Rightarrow>
       let pf = proofOf opts L (Some src) vc agreeing; majority = length (lo_nodes L) div 2 + 1;
           cs' = check ''nodes.majority'' (length agreeing \<ge> majority) True None cs
       in if conflict then ret (with_proof opts L Invalid pf cs)
          else if \<not> length agreeing \<ge> majority then ret (with_proof opts L IncludedNotFinalized pf cs')
          else confirmDepth net opts L pf cs') (agrees L)"
    unfolding a Let_def prod.case by (intro yields_if not_finalized_agrees) simp_all
qed

definition backed_ok :: "crypto \<Rightarrow> VerifyTxFinalizedOptions \<Rightarrow> TrustedValidatorSet \<Rightarrow> VerifyTxFinalizedResult \<Rightarrow> bool" where
  "backed_ok cr opts V r = (vr_status r = Finalized \<longrightarrow> finalized_backed cr opts V r)"

lemma backed_other: "s \<noteq> Finalized \<Longrightarrow> yields (ret (result_of opts s h bh i pf oc cs)) (backed_ok cr opts V)"
  by (rule yields_ret) (simp add: backed_ok_def result_of_def)

lemma backed_other_proof: "s \<noteq> Finalized \<Longrightarrow> yields (ret (with_proof opts L s pf cs)) (backed_ok cr opts V)"
  unfolding with_proof_def by (rule backed_other)

lemma indexOf_nth: "indexOf xs x = Some i \<Longrightarrow> i < length xs \<and> xs ! i = x"
  by (induction xs arbitrary: i) (auto split: if_splits)

lemma unique_props: "distinct (unique xs)" "set (unique xs) = set xs"
  by (simp_all add: unique_def)

lemma crossCheckAndConfirm_backed:
  assumes "lo_nodes L = unique (map apiBase (vo_nodes opts))" "lo_primary L \<in> set (lo_nodes L)"
    and "verified_block cr (vo_chainId opts) (lo_block L)"
    and "indexOf (vb_txHashes (lo_block L)) (lower_units (vo_txHash opts)) = Some (lo_txIndex L)"
    and ctx: "ctx = \<lparr>ctx_chainId = vo_chainId opts, ctx_height = vb_height (lo_block L), ctx_blockHash = vb_blockHash (lo_block L), ctx_validatorSet = V\<rparr>"
    and cv: "verifyFinalityCertificate cr cert ctx = Some cv" "cv_ok cv"
  shows "yields (crossCheckAndConfirm cr net opts L src vc cs) (backed_ok cr opts V)"
proof -
  obtain S where S: "toStakeSet (validators V) (vs_height V) = Some S"
    using cv(1) ctx by (auto simp: verifyFinalityCertificate_def split: option.splits)
  then have c: "certifies cr S cert ctx" using accepts_iff [of ctx S cr cert] cv ctx by simp
  have "backed_ok cr opts V r" if a: "agrees L r" for r
    using a S c indexOf_nth [OF assms(4)] assms(1,3) unique_props(2) [of "map apiBase (vo_nodes opts)"]
    unfolding backed_ok_def finalized_backed_def agrees_def ctx by fastforce
  moreover have "distinct (lo_nodes L)" by (simp add: assms(1) unique_props)
  ultimately show ?thesis using crossCheckAndConfirm_sound [OF _ assms(2)] by (blast intro: yields_mono)
qed

lemma certifyLocated_backed:
  assumes V: "vo_trustedValidatorSet opts = Some V" and L: "lo_nodes L = unique (map apiBase (vo_nodes opts))" "lo_primary L \<in> set (lo_nodes L)"
    "verified_block cr (vo_chainId opts) (lo_block L)"
    "indexOf (vb_txHashes (lo_block L)) (lower_units (vo_txHash opts)) = Some (lo_txIndex L)"
  shows "yields (certifyLocated cr net opts L cs) (backed_ok cr opts V)"
  unfolding certifyLocated_def validatorSetFor_def V option.case bnd_ret prod.case Let_def
  by (intro yields_bnd_any)
    (auto intro!: backed_other_proof crossCheckAndConfirm_backed [OF L refl] yields_throw split: option.split)

lemma locateTx_backed:
  assumes "vo_trustedValidatorSet opts = Some V" "hintNode \<in> set (unique (map apiBase (vo_nodes opts)))"
  shows "yields (locateTx cr net opts (lower_units (vo_txHash opts)) (unique (map apiBase (vo_nodes opts))) hint hintNode oc cs) (backed_ok cr opts V)"
  unfolding locateTx_def Let_def
  by (rule yields_bnd [OF fetchFirst_sound])
    (use assms in \<open>auto intro!: backed_other certifyLocated_backed split: option.split bool.split\<close>)

section \<open>An honest node\<close>

definition serves :: "'w FetchLike \<Rightarrow> jstr \<Rightarrow> LosslessJson \<Rightarrow> bool" where
  "serves net url body = (\<forall>w. \<exists>w'. getJson net url w = (Inr (Some body), w'))"

lemma bnd_Inr: "m w = (Inr a, w') \<Longrightarrow> bnd m f w = f a w'"
  by (simp add: bnd_def)

lemma apiBase_idem: "apiBase (apiBase n) = apiBase n"
proof -
  have "length (apiBase n) \<ge> 4 \<and> drop (length (apiBase n) - 4) (apiBase n) = js ''/api''"
    by (simp add: apiBase_def Let_def js_def)
  then have e: "apiBase n = take (length (apiBase n) - 4) (apiBase n) @ js ''/api''" by (metis append_take_drop_id)
  have "rev (dropWhile (\<lambda>c. c = 47) (rev (apiBase n))) = apiBase n"
    by (subst (1 2) e) (simp add: js_def)
  then show ?thesis
    using \<open>length (apiBase n) \<ge> 4 \<and> _\<close> unfolding apiBase_def [of "apiBase n"] by (simp only: Let_def if_True simp_thms)
qed

lemma f64_less_irrefl: "\<not> f64_less x x"
  by (cases x) simp_all

lemma honest_lookup:
  assumes "serves net (base @ js ''/tx/'' @ txh) B1" "field_of (Some B1) ''success'' = Some (JBool True)" "raw_of (field_of (Some B1) ''blockHeight'') = Some x"
  shows "\<exists>rc w'. lookupTx net txh [base] w = (Inr (Some (Number_raw x, base, rc)), w')"
proof -
  obtain w' where g: "getJson net (base @ js ''/tx/'' @ txh) w = (Inr (Some B1), w')" using assms(1) unfolding serves_def by blast
  show ?thesis using assms(2,3) by (simp add: ret_def bnd_Inr [of "getJson net (base @ js ''/tx/'' @ txh)", OF g])
qed

lemma honest_block:
  assumes "serves net (apiBase n @ js ''/blocks?from_height='' @ String_f64 h @ js ''&limit=2'') B2"
    "list_at (Some B2) ''blocks'' = Some [blk]" "truthy blk"
    "br_ok (verifyBlock cr blk chainId (Some h) (Some (apiBase n)))"
    "br_block (verifyBlock cr blk chainId (Some h) (Some (apiBase n))) = Some b"
  shows "\<exists>f cs' w'. fetchFirst cr net h chainId [apiBase n] cs w = (Inr (Some (f, apiBase n), cs'), w') \<and>
    fb_ok f \<and> fb_block f = Some b \<and> fb_next f = None"
proof -
  obtain w' where g: "getJson net (apiBase n @ js ''/blocks?from_height='' @ String_f64 h @ js ''&limit=2'') w = (Inr (Some B2), w')"
    using assms(1) unfolding serves_def by blast
  show ?thesis
    unfolding fetchFirst.simps fetchAndVerifyBlock_def apiBase_idem Let_def bnd_assoc bnd_Inr [of "getJson net (apiBase n @ js ''/blocks?from_height='' @ String_f64 h @ js ''&limit=2'')", OF g]
    using assms(2-5) by (simp add: nextBlock_def check_def ret_def)
qed

lemma honest_cert:
  assumes "serves net (base @ js ''/finality/'' @ String_f64 h) B3"
    "field_of (Some B3) ''success'' = Some (JBool True)" "field_of (Some B3) ''proof'' = Some cert" "isObj (Some cert)"
  shows "\<exists>w'. findCert net h None (base # ns) w = (Inr (Some (cert, FinalityEndpoint)), w')"
proof -
  obtain w' where g: "getJson net (base @ js ''/finality/'' @ String_f64 h) w = (Inr (Some B3), w')" using assms(1) unfolding serves_def by blast
  show ?thesis using assms(2-4) by (simp add: findCert_def ret_def bnd_Inr [of "getJson net (base @ js ''/finality/'' @ String_f64 h)", OF g])
qed

lemma honest_confirm:
  assumes "lo_nodes L = [lo_primary L]" "vo_minConfirmations opts = None"
  shows "\<exists>r. crossCheckAndConfirm cr net opts L src vc cs w = (Inr r, w) \<and> vr_status r = Finalized \<and>
    vr_blockHash r = Some (vb_blockHash (lo_block L)) \<and> vr_txIndex r = Some (lo_txIndex L)"
  by (simp add: crossCheckAndConfirm_def confirmDepth_def assms f64_less_irrefl Let_def with_proof_def result_of_def ret_def)

lemma honest_certify:
  assumes "lo_nodes L = [lo_primary L]" "lo_next L = None" "vo_minConfirmations opts = None" "vo_trustedValidatorSet opts = Some V"
    and "serves net (lo_primary L @ js ''/finality/'' @ String_f64 (vb_height (lo_block L))) B3"
      "field_of (Some B3) ''success'' = Some (JBool True)" "field_of (Some B3) ''proof'' = Some cert" "isObj (Some cert)"
    and cv: "verifyFinalityCertificate cr cert \<lparr>ctx_chainId = vo_chainId opts, ctx_height = vb_height (lo_block L),
        ctx_blockHash = vb_blockHash (lo_block L), ctx_validatorSet = V\<rparr> = Some cv" "cv_ok cv"
  shows "\<exists>r w'. certifyLocated cr net opts L cs w = (Inr r, w') \<and> vr_status r = Finalized \<and>
    vr_blockHash r = Some (vb_blockHash (lo_block L)) \<and> vr_txIndex r = Some (lo_txIndex L)"
proof -
  obtain w1 where c: "findCert net (vb_height (lo_block L)) None (lo_primary L # filter (\<lambda>n. n \<noteq> lo_primary L) (lo_nodes L)) w =
      (Inr (Some (cert, FinalityEndpoint)), w1)"
    using honest_cert [OF assms(5-8)] by blast
  show ?thesis
    unfolding certifyLocated_def validatorSetFor_def assms(2,4) option.case bnd_ret prod.case Let_def
      bnd_Inr [of "findCert net (vb_height (lo_block L)) None (lo_primary L # filter (\<lambda>n. n \<noteq> lo_primary L) (lo_nodes L))", OF c] cv(1)
    using honest_confirm [OF assms(1,3), of cr net] cv(2) by simp blast
qed

lemma honest_run:
  assumes n: "vo_nodes opts = [n]" and V: "vo_trustedValidatorSet opts = Some V" and m: "vo_minConfirmations opts = None"
    and inp: "hash_text (lower_units (vo_txHash opts))" "vo_chainId opts \<noteq> []"
    and tx: "serves net (apiBase n @ js ''/tx/'' @ lower_units (vo_txHash opts)) B1"
      "field_of (Some B1) ''success'' = Some (JBool True)" "raw_of (field_of (Some B1) ''blockHeight'') = Some x"
    and blk: "serves net (apiBase n @ js ''/blocks?from_height='' @ String_f64 (Number_raw x) @ js ''&limit=2'') B2"
      "list_at (Some B2) ''blocks'' = Some [blk]" "truthy blk"
    and vb: "br_ok (verifyBlock cr blk (vo_chainId opts) (Some (Number_raw x)) (Some (apiBase n)))"
      "br_block (verifyBlock cr blk (vo_chainId opts) (Some (Number_raw x)) (Some (apiBase n))) = Some b"
      "indexOf (vb_txHashes b) (lower_units (vo_txHash opts)) = Some i"
    and fin: "serves net (apiBase n @ js ''/finality/'' @ String_f64 (vb_height b)) B3"
      "field_of (Some B3) ''success'' = Some (JBool True)" "field_of (Some B3) ''proof'' = Some cert" "isObj (Some cert)"
    and cv: "verifyFinalityCertificate cr cert \<lparr>ctx_chainId = vo_chainId opts, ctx_height = vb_height b, ctx_blockHash = vb_blockHash b, ctx_validatorSet = V\<rparr> = Some cv" "cv_ok cv"
  shows "\<exists>r w'. verifyTxFinalized cr net opts w = (Inr r, w') \<and> vr_status r = Finalized \<and> vr_blockHash r = Some (vb_blockHash b) \<and> vr_txIndex r = Some i"
proof -
  have nodes: "unique (map apiBase (vo_nodes opts)) = [apiBase n]" by (simp add: n unique_def)
  obtain rc w1 where l: "lookupTx net (lower_units (vo_txHash opts)) [apiBase n] w = (Inr (Some (Number_raw x, apiBase n, rc)), w1)"
    using honest_lookup [OF tx] by blast
  obtain f cs' w2 where f: "fetchFirst cr net (Number_raw x) (vo_chainId opts) [apiBase n]
      (check ''tx.lookup'' True True (Some (apiBase n)) (check ''input'' True True None [])) w1 = (Inr (Some (f, apiBase n), cs'), w2)"
      and fb: "fb_ok f" "fb_block f = Some b" "fb_next f = None"
    using honest_block [OF blk vb(1,2)] by blast
  have "\<exists>r w'. certifyLocated cr net opts \<lparr>lo_nodes = [apiBase n], lo_outcome = field_of rc ''status'', lo_block = b, lo_next = None,
      lo_txIndex = i, lo_primary = apiBase n\<rparr> (check ''tx.in_block'' True True (Some (apiBase n)) cs') w2 = (Inr r, w') \<and>
      vr_status r = Finalized \<and> vr_blockHash r = Some (vb_blockHash b) \<and> vr_txIndex r = Some i"
    using honest_certify [OF _ _ m V, of "\<lparr>lo_nodes = [apiBase n], lo_outcome = field_of rc ''status'', lo_block = b, lo_next = None,
      lo_txIndex = i, lo_primary = apiBase n\<rparr>"] fin cv by simp
  then have "\<exists>r w'. locateTx cr net opts (lower_units (vo_txHash opts)) [apiBase n] (Number_raw x) (apiBase n) (field_of rc ''status'')
      (check ''tx.lookup'' True True (Some (apiBase n)) (check ''input'' True True None [])) w1 = (Inr r, w') \<and>
      vr_status r = Finalized \<and> vr_blockHash r = Some (vb_blockHash b) \<and> vr_txIndex r = Some i"
    by (simp add: locateTx_def bnd_Inr [of "fetchFirst cr net (Number_raw x) (vo_chainId opts) [apiBase n]
      (check ''tx.lookup'' True True (Some (apiBase n)) (check ''input'' True True None []))", OF f] fb vb(3) Let_def del: fetchFirst.simps)
  then show ?thesis
    unfolding verifyTxFinalized_def Let_def nodes using inp by (simp add: bnd_Inr [of "lookupTx net (lower_units (vo_txHash opts)) [apiBase n]", OF l] del: lookupTx.simps)
qed

section \<open>A sample node\<close>

definition net_of :: "(jstr \<times> LosslessJson) list \<Rightarrow> unit FetchLike" where
  "net_of tbl url w = (case map_of tbl url of
      None \<Rightarrow> (Inl ''network error'', w)
    | Some body \<Rightarrow> (Inr \<lparr>res_ok = True, res_status = 200, res_text = (\<lambda>w. (Inr (stringifyLossless body), w))\<rparr>, w))"

lemma net_of_serves:
  assumes "map_of tbl url = Some body" "json_ok body" "jdepth body \<le> 256"
  shows "serves (net_of tbl) url body"
proof -
  have "parseJsonLossless (stringifyLossless body) = Inr body"
    using layout_parse_eq [OF stringify_lays_out [OF assms(2)] assms(3), of "[]" "[]"] by simp
  then show ?thesis using assms(1) by (simp add: serves_def getJson_def net_of_def io_defs)
qed

definition sample_txh :: jstr where
  "sample_txh = the (computeSingleTxHash toy_crypto (JObject sample_fields))"

definition sample_head :: LosslessJson where
  "sample_head = JObject [(js ''version'', JsonNumber (js ''1'')), (js ''chain_id'', JString (js ''main'')),
     (js ''height'', JsonNumber (js ''0'')), (js ''time'', JsonNumber (js ''9'')), (js ''prev_hash'', JString (js ''aa'')),
     (js ''tx_hash'', JString sample_txh), (js ''proposer_pub_key'', JString (replicate 3904 48))]"

definition sample_bh :: jstr where
  "sample_bh = the (computeBlockHash toy_crypto sample_head (replicate 6618 48))"

definition sample_block :: LosslessJson where
  "sample_block = JObject [(js ''header'', sample_head), (js ''txs'', JArray [JObject sample_fields]),
     (js ''proposer_sig'', JString (replicate 6618 48)), (js ''hash'', JString sample_bh)]"

definition sample_opts :: VerifyTxFinalizedOptions where
  "sample_opts = \<lparr>vo_txHash = sample_txh, vo_nodes = [js ''n''], vo_chainId = js ''main'', vo_trustedValidatorSet = Some sample_set, vo_minConfirmations = None\<rparr>"

definition sample_net :: "unit FetchLike" where
  "sample_net = net_of [(js ''n/api/tx/'' @ sample_txh, JObject [(js ''success'', JBool True), (js ''blockHeight'', JsonNumber (js ''0''))]),
     (js ''n/api/blocks?from_height=0&limit=2'', JObject [(js ''blocks'', JArray [sample_block])]),
     (js ''n/api/finality/0'', JObject [(js ''success'', JBool True), (js ''proof'', sample_cert sample_bh)])]"

lemma lower_hex_digit: "d < 16 \<Longrightarrow> lower_hex (hex_digit d)"
  by (auto simp: lower_hex_def hex_digit_def)

lemma toy_hash: "hash_text (toHex (sha256 toy_crypto x))"
proof -
  have "n mod 256 div 16 < 16" for n :: nat using div_less_iff_less_mult [of 16 "n mod 256" 16] by simp
  then show ?thesis unfolding toHex_def toy_crypto_def hash_text_def
    by (simp add: length_concat sum_list_replicate list_all_iff lower_hex_digit)
qed

lemma sample_tx_hashed: "computeSingleTxHash toy_crypto (JObject sample_fields) = Some sample_txh"
  "computeTxListHash toy_crypto [JObject sample_fields] = Some sample_txh" "hash_text sample_txh"
  using sample_tx_encodes toy_hash by (auto simp: sample_txh_def computeSingleTxHash_def computeTxListHash_def)

lemma sample_head_encodes: "\<exists>t. encodeHeaderV1 sample_head = Some t"
  by (auto simp: encodeHeaderV1_def shape_ok_def present_def own_def sample_head_def js_inject labelled_def encUint_def encStr_def record_text_def sample_digits js_def)

lemma sample_block_hashed: "computeBlockHash toy_crypto sample_head (replicate 6618 48) = Some sample_bh" "hash_text sample_bh"
  using sample_head_encodes toy_hash by (auto simp: sample_bh_def computeBlockHash_def)

lemma sample_zero: "Number_raw (js ''0'') = F64Fin False 0 (- 1074)"
  by code_simp

lemma lower_hex_lower: "hash_text x \<Longrightarrow> lower_units x = x"
  unfolding hash_text_def lower_units_def lower_hex_def list_all_iff by (auto intro!: map_idI)

lemma sample_verifies:
  defines "b \<equiv> \<lparr>vb_height = F64Fin False 0 (- 1074), vb_blockHash = sample_bh, vb_chainId = js ''main'',
    vb_proposer = replicate 3904 48, vb_txHashes = [sample_txh], vb_raw = sample_block\<rparr>"
  shows "br_ok (verifyBlock toy_crypto sample_block (js ''main'') (Some (Number_raw (js ''0''))) nd)"
    and "br_block (verifyBlock toy_crypto sample_block (js ''main'') (Some (Number_raw (js ''0''))) nd) = Some b"
proof -
  obtain t where t: "encodeHeaderV1 sample_head = Some t" using sample_head_encodes by blast
  have bh: "toHex (sha256 toy_crypto (utf8 t @ utf8 (replicate 6618 48))) = sample_bh"
    using sample_block_hashed(1) by (simp add: computeBlockHash_def t)
  have f: "field_of (Some sample_block) ''header'' = Some sample_head" "list_at (Some sample_block) ''txs'' = Some [JObject sample_fields]"
    "field_of (Some sample_block) ''proposer_sig'' = Some (JString (replicate 6618 48))" "field_of (Some sample_block) ''hash'' = Some (JString sample_bh)"
    by (simp_all add: sample_block_def own_simps list_at_def)
  have h: "field_of (Some sample_head) ''height'' = Some (JsonNumber (js ''0''))" "field_of (Some sample_head) ''chain_id'' = Some (JString (js ''main''))"
    "field_of (Some sample_head) ''tx_hash'' = Some (JString sample_txh)" "field_of (Some sample_head) ''proposer_pub_key'' = Some (JString (replicate 3904 48))"
    by (simp_all add: sample_head_def own_simps)
  have "verifyBlock toy_crypto sample_block (js ''main'') (Some (Number_raw (js ''0''))) nd =
      checkBlock toy_crypto sample_block sample_head t [JObject sample_fields] [sample_txh] (replicate 6618 48) (js ''main'') (Some (Number_raw (js ''0''))) nd"
    by (simp add: verifyBlock_def f t sample_tx_hashed str_of_def) (simp add: sample_head_def)
  then show "br_ok (verifyBlock toy_crypto sample_block (js ''main'') (Some (Number_raw (js ''0''))) nd)"
    and "br_block (verifyBlock toy_crypto sample_block (js ''main'') (Some (Number_raw (js ''0''))) nd) = Some b"
    by (simp_all add: checkBlock_def Let_def f h str_of_def raw_of_def text_of_def sample_zero sample_tx_hashed bh critOk_check critOk_Nil sample_signature b_def)
qed

lemma units_js: "units (js s)"
proof -
  have "of_char c < (65536 :: nat)" for c
    using mod_less_divisor [of 256 "of_char c :: nat"] unfolding of_char_mod_256 by linarith
  then show ?thesis by (simp add: units_def js_def list_all_iff)
qed

lemma key_js: "\<not> is_dig (of_char c) \<Longrightarrow> \<not> array_index (js (c # s))"
  by (auto simp: array_index_def js_def is_dig_def)

lemma sample_numbers: "num_token (js ''0'')" "num_token (js ''1'')" "num_token (js ''7'')" "num_token (js ''9'')"
  by (simp_all add: js_def num_token_def num_match_def num_int_def num_frac_def num_exp_def is_dig_def)

lemma units_hash: "hash_text x \<Longrightarrow> units x"
  by (auto simp: hash_text_def lower_hex_def units_def list_all_iff)

lemma units_zeros: "units (replicate n 48)"
  by (simp add: units_def list_all_iff)

lemmas sample_json = units_js key_js sample_numbers units_zeros units_hash [OF sample_tx_hashed(3)] units_hash [OF sample_block_hashed(2)]

lemma sample_json_ok: "json_ok sample_block" "jdepth sample_block \<le> 4" "json_ok (sample_cert sample_bh)" "jdepth (sample_cert sample_bh) \<le> 4"
  by (simp_all add: sample_block_def sample_head_def sample_fields_def sample_cert_def sample_vote_def js_inject sample_json is_dig_def)

lemma sample_served:
  "serves sample_net (js ''n/api/tx/'' @ sample_txh) (JObject [(js ''success'', JBool True), (js ''blockHeight'', JsonNumber (js ''0''))])"
  "serves sample_net (js ''n/api/blocks?from_height=0&limit=2'') (JObject [(js ''blocks'', JArray [sample_block])])"
  "serves sample_net (js ''n/api/finality/0'') (JObject [(js ''success'', JBool True), (js ''proof'', sample_cert sample_bh)])"
proof -
  have first: "js ''n/api/blocks?from_height=0&limit=2'' \<noteq> js ''n/api/tx/'' @ x" "js ''n/api/finality/0'' \<noteq> js ''n/api/tx/'' @ x" for x
    by (simp_all add: js_def)
  show "serves sample_net (js ''n/api/tx/'' @ sample_txh) (JObject [(js ''success'', JBool True), (js ''blockHeight'', JsonNumber (js ''0''))])"
    unfolding sample_net_def by (rule net_of_serves) (simp_all add: js_inject sample_json is_dig_def)
  show "serves sample_net (js ''n/api/blocks?from_height=0&limit=2'') (JObject [(js ''blocks'', JArray [sample_block])])"
    unfolding sample_net_def by (rule net_of_serves) (use sample_json_ok in \<open>simp_all add: js_inject sample_json is_dig_def first\<close>)
  show "serves sample_net (js ''n/api/finality/0'') (JObject [(js ''success'', JBool True), (js ''proof'', sample_cert sample_bh)])"
    unfolding sample_net_def by (rule net_of_serves) (use sample_json_ok in \<open>simp_all add: js_inject sample_json is_dig_def first\<close>)
qed

lemma sample_accepted: "\<exists>cv. verifyFinalityCertificate toy_crypto (sample_cert sample_bh) (sample_ctx sample_bh) = Some cv \<and> cv_ok cv"
  using accepts_iff [of "sample_ctx sample_bh"] sample_certifies [OF sample_block_hashed(2)] sample_stakes
  by (auto simp: verifyFinalityCertificate_def sample_ctx_def)

lemma sample_urls: "apiBase (js ''n'') = js ''n/api''" "js ''n/api'' @ js ''/tx/'' @ x = js ''n/api/tx/'' @ x"
    "js ''n/api'' @ js ''/blocks?from_height='' @ js ''0'' @ js ''&limit=2'' = js ''n/api/blocks?from_height=0&limit=2''"
    "js ''n/api'' @ js ''/finality/'' @ js ''0'' = js ''n/api/finality/0''" "js ''main'' \<noteq> []"
  by (simp_all add: js_def apiBase_def Let_def)

lemma sample_objects: "truthy sample_block" "isObj (Some (sample_cert x))"
  by (simp_all add: sample_block_def sample_cert_def)

definition sample_vb :: VerifiedBlock where
  "sample_vb = \<lparr>vb_height = F64Fin False 0 (- 1074), vb_blockHash = sample_bh, vb_chainId = js ''main'',
    vb_proposer = replicate 3904 48, vb_txHashes = [sample_txh], vb_raw = sample_block\<rparr>"

lemmas sample_facts = sample_served sample_verifies [folded sample_vb_def] sample_tx_hashed(3) sample_objects

lemmas sample_eval = sample_opts_def sample_urls lower_hex_lower sample_zero sample_ctx_def own_simps raw_of_def list_at_def

lemma sample_vb_simps: "vb_height sample_vb = F64Fin False 0 (- 1074)" "vb_blockHash sample_vb = sample_bh" "indexOf (vb_txHashes sample_vb) sample_txh = Some 0"
  by (simp_all add: sample_vb_def)

lemma sample_run:
  "\<exists>r. verifyTxFinalized toy_crypto sample_net sample_opts () = (Inr r, ()) \<and> vr_status r = Finalized"
proof -
  obtain cv where cv: "verifyFinalityCertificate toy_crypto (sample_cert sample_bh) (sample_ctx sample_bh) = Some cv" "cv_ok cv"
    using sample_accepted by blast
  show ?thesis using honest_run [of sample_opts "js ''n''" sample_set sample_net "JObject [(js ''success'', JBool True), (js ''blockHeight'', JsonNumber (js ''0''))]"
        "js ''0''" "JObject [(js ''blocks'', JArray [sample_block])]" sample_block toy_crypto sample_vb 0
        "JObject [(js ''success'', JBool True), (js ''proof'', sample_cert sample_bh)]" "sample_cert sample_bh" cv "()"]
      sample_facts cv by (simp add: sample_eval sample_vb_simps) blast
qed

section \<open>Properties\<close>





end
