(* ===== verification/Btc_Plan.thy ===== *)
theory Btc_Plan
  imports F64 "HOL-Library.Multiset"
begin

text \<open>
  Planning a Bitcoin payout (\<open>scripts/btc-relayer-core.ts\<close>): transaction sizes, fees, input selection
  and the recognition of an existing payout. Amounts in satoshis are bigints; numbers that come
  from a JSON response are binary64. The theorems are about the money: a plan spends custody
  coins that exist, its inputs equal payment, change and fee, and the fee policy holds.
\<close>

section \<open>Sizes and fees\<close>

definition DEFAULT_MAX_NETWORK_FEE_SATS :: int where "DEFAULT_MAX_NETWORK_FEE_SATS = 10000"
definition P2WPKH_SCRIPT_LEN :: nat where "P2WPKH_SCRIPT_LEN = 22"

definition varIntLen :: "nat \<Rightarrow> nat" where
  "varIntLen n = (if n < 253 then 1 else if n \<le> 65535 then 3 else if n \<le> 4294967295 then 5 else 9)"

text \<open>Lengths are integers far below \<open>2\<^sup>53\<close>, so the code's number arithmetic is exact on them. \<^const>\<open>None\<close>
  is the error for no input.\<close>

definition p2wpkhVsize :: "nat \<Rightarrow> nat list \<Rightarrow> nat option" where
  "p2wpkhVsize nInputs outputScriptLens =
     (if nInputs < 1 then None
      else let outBytes = foldl (\<lambda>a l. a + 8 + varIntLen l + l) 0 outputScriptLens;
               base = 4 + 4 + varIntLen nInputs + varIntLen (length outputScriptLens) + 41 * nInputs + outBytes;
               witness = 2 + 108 * nInputs
           in Some ((base * 4 + witness + 3) div 4))"

definition feeForVsize :: "nat \<Rightarrow> f64 \<Rightarrow> int option" where
  "feeForVsize vsize feeRate =
     (if \<not> f64_less (f64_of_int 0) feeRate \<or> feeRate = F64Inf False then None
      else BigInt_f64 (Math_ceil (f64_div (Math_round (f64_mul (f64_mul (f64_of_int (int vsize)) feeRate) (f64_of_int 1000000000)))
        (f64_of_int 1000000000))))"

section \<open>The plan\<close>

record PlanUtxo =
  pu_txid :: string
  pu_vout :: nat
  pu_value :: f64

datatype PayoutPlan =
    PlanOk (plan_inputs: "PlanUtxo list") (plan_pay: int) (plan_change: int) (plan_fee: int) (plan_vsize: nat)
  | PlanFeeTooHigh int int
  | PlanBelowMinimum int int
  | PlanInsufficient int int

record PlanParams =
  pp_utxos :: "PlanUtxo list"
  pp_sats :: int
  pp_feeRate :: f64
  pp_destScriptLen :: nat
  pp_maxFee :: int
  pp_dust :: int

text \<open>\<open>[...utxos].sort((a, b) => b.value - a.value)\<close>: stable, larger values first.\<close>

fun insert_by_value :: "PlanUtxo \<Rightarrow> PlanUtxo list \<Rightarrow> PlanUtxo list" where
  "insert_by_value u [] = [u]"
| "insert_by_value u (v # vs) = (if f64_less (pu_value u) (pu_value v) then v # insert_by_value u vs else u # v # vs)"

definition sort_by_value :: "PlanUtxo list \<Rightarrow> PlanUtxo list" where
  "sort_by_value us = foldr insert_by_value us []"

text \<open>The selection loop. \<^const>\<open>None\<close>: a value that is no integer, on which \<open>BigInt\<close> throws.\<close>

fun selectInputs :: "int \<Rightarrow> int \<Rightarrow> PlanUtxo list \<Rightarrow> PlanUtxo list \<Rightarrow> int \<Rightarrow> (PlanUtxo list \<times> int) option" where
  "selectInputs sats dust [] selected inSats = Some (selected, inSats)"
| "selectInputs sats dust (u # us) selected inSats = (case BigInt_f64 (pu_value u) of
      None \<Rightarrow> None
    | Some x \<Rightarrow> let s = selected @ [u]; n = inSats + x in
        if n = sats \<or> n > sats + dust then Some (s, n) else selectInputs sats dust us s n)"

definition planPayout :: "PlanParams \<Rightarrow> PayoutPlan option" where
  "planPayout p = (case selectInputs (pp_sats p) (pp_dust p) (sort_by_value (pp_utxos p)) [] 0 of
      None \<Rightarrow> None
    | Some (selected, inSats) \<Rightarrow>
        if inSats < pp_sats p then Some (PlanInsufficient inSats (pp_sats p))
        else let rest = inSats - pp_sats p;
                 extra = (rest > 0 \<and> rest \<le> pp_dust p);
                 change = (if extra then 0 else rest);
                 extraToDest = (if extra then rest else 0);
                 outs = (if change > 0 then [pp_destScriptLen p, P2WPKH_SCRIPT_LEN] else [pp_destScriptLen p])
             in (case p2wpkhVsize (length selected) outs of
                   None \<Rightarrow> None
                 | Some vsize \<Rightarrow> (case feeForVsize vsize (pp_feeRate p) of
                     None \<Rightarrow> None
                   | Some fee \<Rightarrow>
                       if fee > pp_maxFee p then Some (PlanFeeTooHigh fee (pp_maxFee p))
                       else let pay = pp_sats p + extraToDest - fee in
                         if pay \<le> pp_dust p then Some (PlanBelowMinimum fee pay)
                         else Some (PlanOk selected pay change fee vsize))))"

section \<open>Recognising a payout\<close>

record EsploraVin =
  ev_prevout_address :: "string option"
  ev_prevout_value :: "f64 option"

record EsploraVout =
  eo_address :: "string option"
  eo_value :: f64

record EsploraTxLike =
  et_txid :: string
  et_fee :: "f64 option"
  et_vin :: "EsploraVin list"
  et_vout :: "EsploraVout list"

fun sum_values :: "f64 list \<Rightarrow> int option" where
  "sum_values [] = Some 0"
| "sum_values (x # vs) = (case (BigInt_f64 x, sum_values vs) of (Some a, Some b) \<Rightarrow> Some (a + b) | _ \<Rightarrow> None)"

text \<open>The outer \<^const>\<open>None\<close> is an escaping \<open>BigInt\<close> error; the inner one is the result \<open>null\<close>.\<close>

fun sum_prevouts :: "EsploraVin list \<Rightarrow> int \<Rightarrow> int option option" where
  "sum_prevouts [] t = Some (Some t)"
| "sum_prevouts (v # vs) t = (case ev_prevout_value v of
      None \<Rightarrow> Some None
    | Some x \<Rightarrow> (case BigInt_f64 x of None \<Rightarrow> None | Some i \<Rightarrow> sum_prevouts vs (t + i)))"

definition esploraTxFee :: "EsploraTxLike \<Rightarrow> int option option" where
  "esploraTxFee tx =
     (if et_vin tx = [] then Some None
      else (case sum_prevouts (et_vin tx) 0 of
          None \<Rightarrow> None
        | Some None \<Rightarrow> Some None
        | Some (Some tin) \<Rightarrow> (case sum_values (map eo_value (et_vout tx)) of
              None \<Rightarrow> None
            | Some tout \<Rightarrow>
                if tin < tout then Some None
                else (case et_fee tx of
                    None \<Rightarrow> Some (Some (tin - tout))
                  | Some f \<Rightarrow> (case BigInt_f64 f of None \<Rightarrow> None
                      | Some i \<Rightarrow> Some (if i \<noteq> tin - tout then None else Some (tin - tout)))))))"

definition payoutSettles :: "EsploraTxLike \<Rightarrow> string \<Rightarrow> string \<Rightarrow> int \<Rightarrow> int \<Rightarrow> bool option" where
  "payoutSettles tx custody dest sats maxFee =
     (if \<not> list_ex (\<lambda>v. ev_prevout_address v = Some custody) (et_vin tx) then Some False
      else (case sum_values (map eo_value (filter (\<lambda>v. eo_address v = Some dest) (et_vout tx))) of
          None \<Rightarrow> None
        | Some paid \<Rightarrow>
            if paid \<le> 0 then Some False
            else if paid \<ge> sats then Some True
            else (case esploraTxFee tx of
                None \<Rightarrow> None
              | Some None \<Rightarrow> Some False
              | Some (Some fee) \<Rightarrow> Some (if fee > maxFee then False else paid + fee \<ge> sats))))"

section \<open>Selection\<close>

lemma mset_insert_by_value: "mset (insert_by_value u us) = add_mset u (mset us)"
  by (induction u us rule: insert_by_value.induct) auto

lemma mset_sort_by_value: "mset (sort_by_value us) = mset us"
  by (induction us) (simp_all add: sort_by_value_def mset_insert_by_value)

text \<open>The values of a list of coins.\<close>

definition coins :: "PlanUtxo list \<Rightarrow> int list \<Rightarrow> bool" where
  "coins us vals = (map (\<lambda>u. BigInt_f64 (pu_value u)) us = map Some vals)"

lemma coins_snoc: "coins us vals \<Longrightarrow> BigInt_f64 (pu_value u) = Some x \<Longrightarrow> coins (us @ [u]) (vals @ [x])"
  by (simp add: coins_def)

lemma selectInputs_coins:
  "selectInputs sats dust us sel n = Some (sel', n') \<Longrightarrow> coins sel vals \<Longrightarrow> sum_list vals = n \<Longrightarrow>
   (\<exists>vals'. coins sel' vals' \<and> sum_list vals' = n') \<and> mset sel' \<subseteq># mset sel + mset us"
proof (induction us arbitrary: sel n vals)
  case (Cons u us)
  then obtain x where x: "BigInt_f64 (pu_value u) = Some x" by (auto split: option.splits)
  have c: "coins (sel @ [u]) (vals @ [x])" "sum_list (vals @ [x]) = n + x" using Cons.prems(2,3) x coins_snoc by auto
  show ?case
  proof (cases "n + x = sats \<or> n + x > sats + dust")
    case True
    then have "sel' = sel @ [u]" "n' = n + x" using Cons.prems(1) x by (auto simp: Let_def)
    then show ?thesis using c by auto
  next
    case False
    then have "selectInputs sats dust us (sel @ [u]) (n + x) = Some (sel', n')" using Cons.prems(1) x by (simp add: Let_def)
    from Cons.IH [OF this c] show ?thesis by simp
  qed
qed auto

lemma planPayout_cases:
  assumes "planPayout p = Some (PlanOk ins pay change fee vsize)"
  obtains inSats where "selectInputs (pp_sats p) (pp_dust p) (sort_by_value (pp_utxos p)) [] 0 = Some (ins, inSats)"
    and "inSats \<ge> pp_sats p" and "inSats = pay + change + fee" and "fee \<le> pp_maxFee p" and "pay > pp_dust p"
    and "change = 0 \<and> inSats \<le> pp_sats p + pp_dust p \<or> change = 0 \<and> inSats = pp_sats p \<or> change > pp_dust p \<and> change = inSats - pp_sats p"
    and "feeForVsize vsize (pp_feeRate p) = Some fee"
    and "p2wpkhVsize (length ins) (if change > 0 then [pp_destScriptLen p, P2WPKH_SCRIPT_LEN] else [pp_destScriptLen p]) = Some vsize"
  using assms unfolding planPayout_def Let_def
  by (auto split: option.splits prod.splits if_splits)

text \<open>For an integral rate the floating-point computation is exact.\<close>

lemma feeForVsize_integral:
  assumes "r > 0" "v > 0" "v * r * 1000000000 < 2 ^ 53"
  shows "feeForVsize v (f64_of_int (int r)) = Some (int (v * r))"
proof -
  have "v * r \<le> v * r * 1000000000" by simp
  then have small: "v * r < 2 ^ 53" "(1000000000::nat) < 2 ^ 53" using assms(3) by (blast intro: le_less_trans, simp)
  have "r \<le> v * r" "v \<le> v * r" using assms(1,2) by simp_all
  then have b: "r < 2 ^ 53" "v < 2 ^ 53" using small(1) by linarith+
  note ints = f64_is_int [OF b(1)] f64_is_int [OF b(2)] f64_is_int [OF small(2)]
  have "f64_less (f64_of_int 0) (f64_of_int (int r))"
    using f64_is_less [OF f64_is_int [of 0] ints(1)] assms(1) by simp
  moreover have "f64_of_int (int r) \<noteq> F64Inf False" using ints(1) by (auto simp: f64_is_def)
  moreover have "f64_is (f64_mul (f64_mul (f64_of_int (int v)) (f64_of_int (int r))) (f64_of_int (int 1000000000))) (v * r * 1000000000)"
    by (intro f64_is_mul ints small(1) assms(3))
  then have "f64_is (Math_ceil (f64_div (Math_round (f64_mul (f64_mul (f64_of_int (int v)) (f64_of_int (int r))) (f64_of_int (int 1000000000))))
      (f64_of_int (int 1000000000)))) (v * r)"
    by (intro f64_is_ceil f64_is_div [where b = 1000000000] f64_is_round ints small(1) assms(3)) simp_all
  ultimately show ?thesis using BigInt_f64_is by (simp add: feeForVsize_def)
qed

lemma p2wpkhVsize_pos: "p2wpkhVsize n outs = Some v \<Longrightarrow> v > 0"
  by (auto simp: p2wpkhVsize_def Let_def split: if_splits)

section \<open>Properties\<close>

text \<open>A payout plan accounts for every satoshi: its inputs are coins of the wallet, each used once, with integral
  values whose sum is payment plus change plus fee; the fee is within the cap, payment and any
  change are above dust, and what leaves custody (inputs minus change) is the amount owed, or, when
  no change output is made, at most the dust limit more, all of it for the destination. The size is
  that of the planned shape, and for a whole rate the fee is exactly size times rate, without
  rounding noise, while the product stays below nine million satoshis.\<close>

theorem plan_accounts_for_every_sat:
  assumes "planPayout p = Some (PlanOk ins pay change fee vsize)"
  shows "\<exists>vals. coins ins vals \<and> sum_list vals = pay + change + fee \<and> mset ins \<subseteq># mset (pp_utxos p) \<and>
    fee \<le> pp_maxFee p \<and> pay > pp_dust p \<and> (change = 0 \<or> change > pp_dust p) \<and>
    pp_sats p \<le> pay + fee \<and> (pay + fee = pp_sats p \<or> change = 0 \<and> pay + fee \<le> pp_sats p + pp_dust p) \<and>
    p2wpkhVsize (length ins) (if change > 0 then [pp_destScriptLen p, P2WPKH_SCRIPT_LEN] else [pp_destScriptLen p]) = Some vsize \<and>
    (\<forall>r. pp_feeRate p = f64_of_int (int r) \<and> r > 0 \<and> vsize * r \<le> 9000000 \<longrightarrow> fee = int (vsize * r))"
proof -
  obtain inSats where i: "selectInputs (pp_sats p) (pp_dust p) (sort_by_value (pp_utxos p)) [] 0 = Some (ins, inSats)"
      "inSats \<ge> pp_sats p" "inSats = pay + change + fee" "fee \<le> pp_maxFee p" "pay > pp_dust p"
      "change = 0 \<and> inSats \<le> pp_sats p + pp_dust p \<or> change = 0 \<and> inSats = pp_sats p \<or> change > pp_dust p \<and> change = inSats - pp_sats p"
      "feeForVsize vsize (pp_feeRate p) = Some fee"
      "p2wpkhVsize (length ins) (if change > 0 then [pp_destScriptLen p, P2WPKH_SCRIPT_LEN] else [pp_destScriptLen p]) = Some vsize"
    using planPayout_cases [OF assms] .
  have fee: "fee = int (vsize * r)" if r: "pp_feeRate p = f64_of_int (int r)" "r > 0" "vsize * r \<le> 9000000" for r
  proof -
    have "vsize * r * 1000000000 \<le> 9000000 * 1000000000" using r(3) by (rule mult_le_mono1)
    also have "\<dots> < 2 ^ 53" by simp
    finally have "vsize * r * 1000000000 < 2 ^ 53" .
    from feeForVsize_integral [OF r(2) p2wpkhVsize_pos [OF i(8)] this] show ?thesis using i(7) r(1) by simp
  qed
  have "coins [] []" "sum_list [] = (0::int)" by (simp_all add: coins_def)
  from selectInputs_coins [OF i(1) this] obtain vals where "coins ins vals" "sum_list vals = inSats" "mset ins \<subseteq># mset (pp_utxos p)"
    by (auto simp: mset_sort_by_value)
  then show ?thesis using i fee by (intro exI [of _ vals]) auto
qed

definition sample_params :: PlanParams where
  "sample_params = \<lparr>pp_utxos = [\<lparr>pu_txid = ''aa'', pu_vout = 0, pu_value = f64_of_int 30000\<rparr>, \<lparr>pu_txid = ''bb'', pu_vout = 1, pu_value = f64_of_int 70000\<rparr>],
     pp_sats = 50000, pp_feeRate = f64_of_int 2, pp_destScriptLen = 22, pp_maxFee = 10000, pp_dust = 546\<rparr>"

lemma sample_plan: "planPayout sample_params = Some (PlanOk [\<lparr>pu_txid = ''bb'', pu_vout = 1, pu_value = f64_of_int 70000\<rparr>] 49718 20000 282 141)"
proof -
  have less: "f64_less (f64_of_int 30000) (f64_of_int 70000)"
    using f64_is_less [OF f64_is_int f64_is_int, of 30000 70000] by simp
  have big: "BigInt_f64 (f64_of_int 70000) = Some 70000" using BigInt_of_nat [of 70000] by simp
  have size: "p2wpkhVsize (length [x]) [22, P2WPKH_SCRIPT_LEN] = Some 141" for x :: PlanUtxo
    by (simp add: p2wpkhVsize_def varIntLen_def P2WPKH_SCRIPT_LEN_def Let_def)
  have fee: "feeForVsize 141 (f64_of_int 2) = Some 282" using feeForVsize_integral [of 2 141] by simp
  show ?thesis unfolding planPayout_def sample_params_def
    by (simp only: PlanParams.simps) (simp add: sort_by_value_def less big Let_def size [simplified] fee)
qed

theorem plan_accounts_for_every_sat_witness:
  "\<exists>vals. coins [\<lparr>pu_txid = ''bb'', pu_vout = 1, pu_value = f64_of_int 70000\<rparr>] vals \<and> sum_list vals = 49718 + 20000 + 282"
  using plan_accounts_for_every_sat [OF sample_plan] by blast

end
