(* ===== verification/Btc_Payout.thy ===== *)
theory Btc_Payout
  imports Btc_Plan Effects
begin

text \<open>
  The payout decision for one pending qBTC withdrawal (\<open>scripts/btc-relayer-core.ts\<close>):
  \<open>processBtcWithdrawal\<close>, \<open>settleBroadcast\<close> and \<open>classifyBroadcastResponse\<close>. The dependencies (Esplora,
  the daemon, the state file) are effects on an arbitrary world and every call of one is recorded;
  a broadcast is recorded with the withdrawal it is for. The state object is part of the run's
  state: an entry the code mutates in place is written back to the map. Log lines are left out.

  The main theorem is the rule the module is built on: for one withdrawal, a transaction different
  from the last one broadcast is sent only directly after the network cleanly rejected that one.
\<close>

section \<open>State\<close>

record BuiltPayout =
  bp_txid :: string
  bp_rawHex :: string
  bp_inputs :: "string list"
  bp_pay :: "string option"
  bp_fee :: "string option"

text \<open>Why an entry needs review: one constructor per message of the code, and the texts found in a state
  file.\<close>

datatype ReviewReason =
    DaemonRecordChanged string string string string
  | LegacyMidBroadcast
  | BelowMinimumAfterFee string int int int
  | TxidMismatch string string
  | InputsSpent string string
  | StoredReason string

text \<open>Absent optional fields: the empty string for \<open>btcTxid\<close>, \<^const>\<open>None\<close> for \<open>planned\<close> and \<open>needsReview\<close>,
  \<^const>\<open>False\<close> for \<open>broadcasting\<close>.\<close>

record BtcStateEntry =
  en_dest :: string
  en_sats :: string
  en_attempts :: nat
  en_btcTxid :: string
  en_planned :: "BuiltPayout option"
  en_needsReview :: "ReviewReason option"
  en_broadcasting :: bool

type_synonym BtcState = "(string, BtcStateEntry) jsmap"

record PendingBtcWithdrawal =
  pw_txId :: string
  pw_evmAddress :: string
  pw_amountUnits :: f64

datatype BroadcastResult = Accepted string | Rejected string bool | UnknownOutcome string

datatype BuildResult = Built BuiltPayout | BuildFeeTooHigh int int | BuildBelowMinimum int int

record 'w BtcPayoutDeps =
  bd_live :: bool
  bd_minConfirmations :: f64
  bd_maxSats :: int
  bd_maxRetries :: f64
  bd_dust :: int
  bd_healthOk :: "('w, bool) eff"
  bd_isValidDest :: "string \<Rightarrow> bool"
  bd_confirmations :: "string \<Rightarrow> ('w, f64 option) eff"
  bd_txKnown :: "string \<Rightarrow> ('w, bool option) eff"
  bd_findExistingPayout :: "string \<Rightarrow> int \<Rightarrow> string list \<Rightarrow> ('w, string option) eff"
  bd_build :: "string \<Rightarrow> int \<Rightarrow> string list \<Rightarrow> ('w, BuildResult) eff"
  bd_broadcast :: "string \<Rightarrow> string \<Rightarrow> ('w, BroadcastResult) eff"
  bd_fulfill :: "string \<Rightarrow> string \<Rightarrow> ('w, bool) eff"
  bd_save :: "BtcState \<Rightarrow> ('w, unit) eff"

datatype BtcOutcome =
    OSkippedInvalid | OSkippedCap | ONeedsReview | OReadFailed | OAwaitingConfirmations | OFulfilled | OFulfillRefused
  | OAdopted | OHealthBlocked | OGaveUp | OWouldPay | OBuildFailed | OBroadcast | OBroadcastUnknown | OBroadcastRejected
  | OFeeTooHigh | OBelowMinimumAfterFee

datatype btc_event =
    BvHealth "exn + bool"
  | BvConfirmations string "exn + f64 option"
  | BvKnown string "exn + bool option"
  | BvFind string int "exn + string option"
  | BvBuild string int "string list" "exn + BuildResult"
  | BvBroadcast string string string "exn + BroadcastResult"
  | BvFulfill string string "exn + bool"
  | BvSave BtcState "exn + unit"

record 'w btc_run = "('w, btc_event) io_state" +
  btc_entries :: BtcState

text \<open>\<open>Object.values\<close> and sets: only membership matters to the callers.\<close>

definition knownPayoutTxids :: "BtcState \<Rightarrow> string list" where
  "knownPayoutTxids state = concat (map (\<lambda>e.
     (if en_btcTxid e \<noteq> '''' then [en_btcTxid e] else []) @ (case en_planned e of None \<Rightarrow> [] | Some p \<Rightarrow> [bp_txid p])) (map_values state))"

definition reservedInputs :: "BtcState \<Rightarrow> string \<Rightarrow> string list" where
  "reservedInputs state exceptTxId = concat (map (\<lambda>(i, e).
     if i = exceptTxId then [] else (case en_planned e of None \<Rightarrow> [] | Some p \<Rightarrow> bp_inputs p)) state)"

section \<open>The answer to a broadcast\<close>

text \<open>A case-insensitive search for one of several texts.\<close>

fun contains_lower :: "string \<Rightarrow> string \<Rightarrow> bool" where
  "contains_lower [] needle = (needle = [])"
| "contains_lower (c # cs) needle = (take (length needle) (c # cs) = needle \<or> contains_lower cs needle)"

definition mentions :: "string list \<Rightarrow> string \<Rightarrow> bool" where
  "mentions needles text = list_ex (contains_lower (toLowerCase text)) needles"

definition already_texts :: "string list" where
  "already_texts = [''already in mempool'', ''already in-mempool'', ''already-in mempool'', ''already-in-mempool'',
     ''already known'', ''already-known'', ''already have'', ''already-have'', ''txn-already-in-mempool'', ''txn-already-known'',
     ''transaction already in block chain'']"

definition spent_texts :: "string list" where
  "spent_texts = [''missingorspent'', ''missing-inputs'', ''missing inputs'', ''txn-mempool-conflict'', ''conflict'', ''bad-txns-inputs'']"

definition txid_text :: "string \<Rightarrow> bool" where
  "txid_text s = (length s = 64 \<and> list_all (\<lambda>c. c \<in> set ''0123456789abcdef'') (toLowerCase s))"

definition classifyBroadcastResponse :: "int option \<Rightarrow> string \<Rightarrow> string \<Rightarrow> BroadcastResult" where
  "classifyBroadcastResponse status body expectedTxid =
     (let text = js_trim body in
      case status of
        None \<Rightarrow> UnknownOutcome (str_or text ''no response'')
      | Some st \<Rightarrow>
          if 200 \<le> st \<and> st < 300 then
            (if txid_text text then Accepted (toLowerCase text)
             else UnknownOutcome (''unexpected success body: '' @ take 120 text))
          else if mentions already_texts text then Accepted expectedTxid
          else if 400 \<le> st \<and> st < 500 then
            Rejected (str_or (take 200 text) (''HTTP '' @ dec_int st)) (mentions spent_texts text)
          else UnknownOutcome (''HTTP '' @ dec_int st @ '': '' @ take 120 text))"

section \<open>processBtcWithdrawal\<close>

definition btc_save :: "'w BtcPayoutDeps \<Rightarrow> ('w btc_run, unit) io" where
  "btc_save d = bnd (gets btc_entries) (\<lambda>st. call (BvSave st) (bd_save d st))"

definition setEntry :: "string \<Rightarrow> BtcStateEntry \<Rightarrow> ('w btc_run, unit) io" where
  "setEntry i e = modify (\<lambda>s. s\<lparr>btc_entries := map_set i e (btc_entries s)\<rparr>)"

text \<open>The state map is updated, saved, and the call returns.\<close>

definition storeAnd :: "'w BtcPayoutDeps \<Rightarrow> string \<Rightarrow> BtcStateEntry \<Rightarrow> BtcOutcome \<Rightarrow> ('w btc_run, BtcOutcome) io" where
  "storeAnd d i e res = bnd (setEntry i e) (\<lambda>_. bnd (btc_save d) (\<lambda>_. ret res))"

definition settleBroadcast :: "'w BtcPayoutDeps \<Rightarrow> string \<Rightarrow> BtcStateEntry \<Rightarrow> BuiltPayout \<Rightarrow> BroadcastResult \<Rightarrow> ('w btc_run, BtcOutcome) io" where
  "settleBroadcast d i entry planned res = (case res of
      Accepted t \<Rightarrow>
        if t \<noteq> bp_txid planned then storeAnd d i (entry\<lparr>en_needsReview := Some (TxidMismatch t (bp_txid planned))\<rparr>) ONeedsReview
        else storeAnd d i (entry\<lparr>en_btcTxid := bp_txid planned, en_planned := None\<rparr>) OBroadcast
    | UnknownOutcome reason \<Rightarrow> bnd (btc_save d) (\<lambda>_. ret OBroadcastUnknown)
    | Rejected reason inputsSpent \<Rightarrow>
        if inputsSpent then storeAnd d i (entry\<lparr>en_needsReview := Some (InputsSpent reason (en_dest entry))\<rparr>) ONeedsReview
        else storeAnd d i (entry\<lparr>en_planned := None\<rparr>) OBroadcastRejected)"

definition sendPlanned :: "'w BtcPayoutDeps \<Rightarrow> string \<Rightarrow> BtcStateEntry \<Rightarrow> BuiltPayout \<Rightarrow> ('w btc_run, BtcOutcome) io" where
  "sendPlanned d i entry p =
     bnd (call (BvBroadcast i (bp_rawHex p) (bp_txid p)) (bd_broadcast d (bp_rawHex p) (bp_txid p))) (settleBroadcast d i entry p)"

text \<open>1. A payout the network has.\<close>

definition awaitDepth :: "'w BtcPayoutDeps \<Rightarrow> string \<Rightarrow> string \<Rightarrow> ('w btc_run, BtcOutcome) io" where
  "awaitDepth d i t = bnd (call (BvConfirmations t) (bd_confirmations d t)) (\<lambda>confs. case confs of
      None \<Rightarrow> ret OReadFailed
    | Some c \<Rightarrow>
        if f64_less c (bd_minConfirmations d) then ret OAwaitingConfirmations
        else bnd (call (BvFulfill i t) (bd_fulfill d i t)) (\<lambda>ok. ret (if ok then OFulfilled else OFulfillRefused)))"

text \<open>2. A signed payout whose broadcast is not settled.\<close>

definition resendPlanned :: "'w BtcPayoutDeps \<Rightarrow> string \<Rightarrow> BtcStateEntry \<Rightarrow> BuiltPayout \<Rightarrow> ('w btc_run, BtcOutcome) io" where
  "resendPlanned d i entry p = bnd (call (BvKnown (bp_txid p)) (bd_txKnown d (bp_txid p))) (\<lambda>known. case known of
      None \<Rightarrow> ret OReadFailed
    | Some True \<Rightarrow> storeAnd d i (entry\<lparr>en_btcTxid := bp_txid p, en_planned := None\<rparr>) OBroadcast
    | Some False \<Rightarrow> if \<not> bd_live d then ret OWouldPay else sendPlanned d i entry p)"

definition findPayout :: "'w BtcPayoutDeps \<Rightarrow> string \<Rightarrow> int \<Rightarrow> (exn + string option \<Rightarrow> ('w btc_run, BtcOutcome) io) \<Rightarrow> ('w btc_run, BtcOutcome) io" where
  "findPayout d dest sats k = bnd (gets btc_entries) (\<lambda>st.
     attempt (call (BvFind dest sats) (bd_findExistingPayout d dest sats (knownPayoutTxids st))) k)"

definition found_txid :: "string option \<Rightarrow> string" where
  "found_txid x = (case x of None \<Rightarrow> '''' | Some t \<Rightarrow> t)"

text \<open>3. The crash marker of the old relayer.\<close>

definition legacyInFlight :: "'w BtcPayoutDeps \<Rightarrow> string \<Rightarrow> BtcStateEntry \<Rightarrow> string \<Rightarrow> int \<Rightarrow> ('w btc_run, BtcOutcome) io" where
  "legacyInFlight d i entry dest sats = findPayout d dest sats (\<lambda>r. case r of
      Inl e \<Rightarrow> ret OReadFailed
    | Inr x \<Rightarrow>
        if found_txid x \<noteq> '''' then storeAnd d i (entry\<lparr>en_btcTxid := found_txid x, en_broadcasting := False\<rparr>) OAdopted
        else storeAnd d i (entry\<lparr>en_needsReview := Some LegacyMidBroadcast\<rparr>) ONeedsReview)"

text \<open>4. A new payout: what was built is saved, then sent.\<close>

definition sendBuilt :: "'w BtcPayoutDeps \<Rightarrow> string \<Rightarrow> BtcStateEntry \<Rightarrow> BuiltPayout \<Rightarrow> ('w btc_run, BtcOutcome) io" where
  "sendBuilt d i entry p =
     (let e = entry\<lparr>en_planned := Some p, en_attempts := en_attempts entry + 1\<rparr> in
      bnd (setEntry i e) (\<lambda>_. bnd (btc_save d) (\<lambda>_. sendPlanned d i e p)))"

definition useBuild :: "'w BtcPayoutDeps \<Rightarrow> string \<Rightarrow> BtcStateEntry \<Rightarrow> int \<Rightarrow> BuildResult \<Rightarrow> ('w btc_run, BtcOutcome) io" where
  "useBuild d i entry sats res = (case res of
      BuildFeeTooHigh fee maxFee \<Rightarrow> ret OFeeTooHigh
    | BuildBelowMinimum fee pay \<Rightarrow>
        if bd_live d then storeAnd d i (entry\<lparr>en_needsReview := Some (BelowMinimumAfterFee (dec_int sats) fee pay (bd_dust d))\<rparr>) OBelowMinimumAfterFee
        else ret OBelowMinimumAfterFee
    | Built p \<Rightarrow> if \<not> bd_live d then ret OWouldPay else sendBuilt d i entry p)"

definition newPayout :: "'w BtcPayoutDeps \<Rightarrow> string \<Rightarrow> BtcStateEntry \<Rightarrow> string \<Rightarrow> int \<Rightarrow> ('w btc_run, BtcOutcome) io" where
  "newPayout d i entry dest sats =
     bnd (call BvHealth (bd_healthOk d)) (\<lambda>healthy.
     if \<not> healthy then ret OHealthBlocked
     else findPayout d dest sats (\<lambda>r. case r of
         Inl e \<Rightarrow> ret OReadFailed
       | Inr x \<Rightarrow>
           if found_txid x \<noteq> '''' then storeAnd d i (entry\<lparr>en_btcTxid := found_txid x\<rparr>) OAdopted
           else if f64_le (bd_maxRetries d) (f64_of_int (int (en_attempts entry))) then ret OGaveUp
           else bnd (gets btc_entries) (\<lambda>st. attempt (call (BvBuild dest sats (reservedInputs st i)) (bd_build d dest sats (reservedInputs st i))) (\<lambda>b. case b of
               Inl e \<Rightarrow> ret OBuildFailed
             | Inr res \<Rightarrow> useBuild d i entry sats res))))"

definition dispatchEntry :: "'w BtcPayoutDeps \<Rightarrow> string \<Rightarrow> BtcStateEntry \<Rightarrow> string \<Rightarrow> int \<Rightarrow> ('w btc_run, BtcOutcome) io" where
  "dispatchEntry d i entry dest sats =
     (if en_needsReview entry \<noteq> None then ret ONeedsReview
      else if en_btcTxid entry \<noteq> '''' then awaitDepth d i (en_btcTxid entry)
      else (case en_planned entry of
          Some p \<Rightarrow> resendPlanned d i entry p
        | None \<Rightarrow> if en_broadcasting entry then legacyInFlight d i entry dest sats else newPayout d i entry dest sats))"

definition fresh_entry :: "string \<Rightarrow> int \<Rightarrow> BtcStateEntry" where
  "fresh_entry dest sats = \<lparr>en_dest = dest, en_sats = dec_int sats, en_attempts = 0, en_btcTxid = '''', en_planned = None,
     en_needsReview = None, en_broadcasting = False\<rparr>"

definition processBtcWithdrawal :: "'w BtcPayoutDeps \<Rightarrow> PendingBtcWithdrawal \<Rightarrow> ('w btc_run, BtcOutcome) io" where
  "processBtcWithdrawal d w =
     (let dest = js_trim (pw_evmAddress w); i = pw_txId w in
      case BigInt_f64 (pw_amountUnits w) of
        None \<Rightarrow> ret OSkippedInvalid
      | Some sats \<Rightarrow>
          if sats \<le> bd_dust d then ret OSkippedInvalid
          else if \<not> bd_isValidDest d dest then ret OSkippedInvalid
          else if bd_maxSats d > 0 \<and> sats > bd_maxSats d then ret OSkippedCap
          else bnd (gets (\<lambda>s. map_get (btc_entries s) i)) (\<lambda>existing. case existing of
              None \<Rightarrow> dispatchEntry d i (fresh_entry dest sats) dest sats
            | Some e \<Rightarrow>
                if en_dest e \<noteq> dest \<or> en_sats e \<noteq> dec_int sats
                then (let e' = e\<lparr>en_needsReview := Some (DaemonRecordChanged (en_sats e) (en_dest e) (dec_int sats) dest)\<rparr> in
                  bnd (setEntry i e') (\<lambda>_. bnd (btc_save d) (\<lambda>_. dispatchEntry d i e' dest sats)))
                else dispatchEntry d i e dest sats))"

section \<open>Runs with restarts\<close>

text \<open>What the state file holds: the last snapshot that was saved successfully, or the initial contents.\<close>

fun on_disk :: "BtcState \<Rightarrow> btc_event list \<Rightarrow> BtcState" where
  "on_disk st0 [] = st0"
| "on_disk st0 (BvSave st (Inr u) # tr) = st"
| "on_disk st0 (_ # tr) = on_disk st0 tr"

datatype btc_step = Handle PendingBtcWithdrawal | Restart

definition btc_do :: "'w BtcPayoutDeps \<Rightarrow> BtcState \<Rightarrow> btc_step \<Rightarrow> 'w btc_run \<Rightarrow> 'w btc_run" where
  "btc_do d st0 step s = (case step of
      Handle w \<Rightarrow> exec (processBtcWithdrawal d w) s
    | Restart \<Rightarrow> s\<lparr>btc_entries := on_disk st0 (trace s)\<rparr>)"

text \<open>The last broadcast for a withdrawal, and a rejection that shows the network never had the
  transaction.\<close>

fun last_bcast :: "string \<Rightarrow> btc_event list \<Rightarrow> (string \<times> (exn + BroadcastResult)) option" where
  "last_bcast i [] = None"
| "last_bcast i (BvBroadcast j rawHex t r # tr) = (if i = j then Some (rawHex, r) else last_bcast i tr)"
| "last_bcast i (_ # tr) = last_bcast i tr"

definition clean_rejection :: "exn + BroadcastResult \<Rightarrow> bool" where
  "clean_rejection r = (\<exists>reason. r = Inr (Rejected reason False))"

fun btc_event_ok :: "'w BtcPayoutDeps \<Rightarrow> btc_event \<Rightarrow> btc_event list \<Rightarrow> bool" where
  "btc_event_ok d (BvBroadcast i rawHex t r) tr =
     (bd_live d \<and> (\<forall>rawHex' r'. last_bcast i tr = Some (rawHex', r') \<longrightarrow> rawHex = rawHex' \<or> clean_rejection r'))"
| "btc_event_ok d (BvFulfill i t r) tr = (\<exists>c tr'. tr = BvConfirmations t (Inr (Some c)) # tr' \<and> \<not> f64_less c (bd_minConfirmations d))"
| "btc_event_ok d _ tr = True"

fun btc_trace_ok :: "'w BtcPayoutDeps \<Rightarrow> btc_event list \<Rightarrow> bool" where
  "btc_trace_ok d [] = True"
| "btc_trace_ok d (ev # tr) = (btc_event_ok d ev tr \<and> btc_trace_ok d tr)"

section \<open>The invariant\<close>

definition held :: "BtcStateEntry \<Rightarrow> string \<Rightarrow> bool" where
  "held e rawHex = (en_needsReview e \<noteq> None \<or> en_btcTxid e \<noteq> '''' \<or> (\<exists>p. en_planned e = Some p \<and> bp_rawHex p = rawHex))"

definition named :: "BtcStateEntry \<Rightarrow> bool" where
  "named e = (\<forall>p. en_planned e = Some p \<longrightarrow> bp_txid p \<noteq> '''')"

definition unsettled :: "string \<Rightarrow> btc_event list \<Rightarrow> string \<Rightarrow> bool" where
  "unsettled i tr rawHex = (\<exists>r. last_bcast i tr = Some (rawHex, r) \<and> \<not> clean_rejection r)"

text \<open>\<open>rel\<close>: the state file can always be written.\<close>

definition btc_inv :: "bool \<Rightarrow> BtcState \<Rightarrow> 'w BtcPayoutDeps \<Rightarrow> 'w btc_run \<Rightarrow> bool" where
  "btc_inv rel st0 d s =
     (btc_trace_ok d (trace s) \<and> (\<forall>i e. map_get (btc_entries s) i = Some e \<longrightarrow> named e) \<and>
      (\<forall>i rawHex. unsettled i (trace s) rawHex \<longrightarrow> (\<exists>e. map_get (btc_entries s) i = Some e \<and> held e rawHex)) \<and>
      (rel \<longrightarrow> on_disk st0 (trace s) = btc_entries s))"

text \<open>The assertion between the calls of one handler run: the invariant, and the entry at hand.\<close>

definition at_entry :: "bool \<Rightarrow> BtcState \<Rightarrow> 'w BtcPayoutDeps \<Rightarrow> string \<Rightarrow> BtcStateEntry option \<Rightarrow> 'w btc_run \<Rightarrow> bool" where
  "at_entry rel st0 d i eo s = (btc_inv rel st0 d s \<and> map_get (btc_entries s) i = eo)"

definition entry_ok :: "string \<Rightarrow> BtcStateEntry \<Rightarrow> btc_event list \<Rightarrow> bool" where
  "entry_ok i e tr = (named e \<and> (\<forall>rawHex. unsettled i tr rawHex \<longrightarrow> held e rawHex))"

fun neutral :: "btc_event \<Rightarrow> bool" where
  "neutral (BvBroadcast i rawHex t r) = False"
| "neutral (BvFulfill i t r) = False"
| "neutral (BvSave st r) = False"
| "neutral _ = True"

lemma neutral_step:
  assumes "neutral ev"
  shows "last_bcast i (ev # tr) = last_bcast i tr" "on_disk st0 (ev # tr) = on_disk st0 tr" "btc_event_ok d ev tr"
  using assms by (cases ev; simp)+

lemma save_step: "last_bcast i (BvSave st r # tr) = last_bcast i tr" "btc_event_ok d (BvSave st r) tr"
    "on_disk st0 (BvSave st (Inl e) # tr) = on_disk st0 tr"
  by simp_all

lemma btc_inv_neutral: "neutral ev \<Longrightarrow> btc_inv rel st0 d s \<Longrightarrow> btc_inv rel st0 d (s\<lparr>world := w, trace := ev # trace s\<rparr>)"
  by (simp add: btc_inv_def unsettled_def neutral_step)

lemma read_keeps: "(\<And>r. neutral (mk r)) \<Longrightarrow> triple (at_entry rel st0 d i eo) (call mk f) (\<lambda>_. at_entry rel st0 d i eo) (\<lambda>_. btc_inv rel st0 d)"
  by (rule triple_call) (auto simp: at_entry_def intro: btc_inv_neutral)

definition reliable :: "bool \<Rightarrow> 'w BtcPayoutDeps \<Rightarrow> bool" where
  "reliable rel d = (rel \<longrightarrow> (\<forall>st w. \<exists>w'. bd_save d st w = (Inr (), w')))"

text \<open>Between a change of the map and its saving.\<close>

definition dirty :: "BtcState \<Rightarrow> 'w BtcPayoutDeps \<Rightarrow> string \<Rightarrow> BtcStateEntry \<Rightarrow> 'w btc_run \<Rightarrow> bool" where
  "dirty st0 d i e s = (btc_inv False st0 d s \<and> map_get (btc_entries s) i = Some e)"

lemma setEntry_dirty:
  "triple (\<lambda>s. btc_inv rel st0 d s \<and> entry_ok i e (trace s)) (setEntry i e) (\<lambda>_. dirty st0 d i e) E"
  unfolding setEntry_def
  by (rule triple_modify) (auto simp: btc_inv_def dirty_def entry_ok_def map_get_set)

lemma save_clean:
  assumes "reliable rel d"
  shows "triple (dirty st0 d i e) (btc_save d) (\<lambda>_. at_entry rel st0 d i (Some e)) (\<lambda>_. btc_inv rel st0 d)"
proof (rule tripleI)
  fix s r s'
  assume s: "dirty st0 d i e s" and run: "btc_save d s = (r, s')"
  obtain r1 w where w: "bd_save d (btc_entries s) (world s) = (r1, w)" by fastforce
  then have eq: "r = r1" "s' = s\<lparr>world := w, trace := BvSave (btc_entries s) r1 # trace s\<rparr>"
    using run by (auto simp: btc_save_def bnd_def gets_def call_def)
  have "rel \<Longrightarrow> \<exists>u. r1 = Inr u" using assms w by (auto simp: reliable_def) (metis prod.inject)
  then show "case r of Inl e \<Rightarrow> btc_inv rel st0 d s' | Inr a \<Rightarrow> at_entry rel st0 d i (Some e) s'"
    using s unfolding eq by (cases r1) (auto simp: dirty_def at_entry_def btc_inv_def unsettled_def)
qed

lemma storeAnd_keeps:
  assumes "reliable rel d"
  shows "triple (\<lambda>s. btc_inv rel st0 d s \<and> entry_ok i e (trace s)) (storeAnd d i e res) (\<lambda>_. btc_inv rel st0 d) (\<lambda>_. btc_inv rel st0 d)"
  unfolding storeAnd_def
  by (rule triple_bnd [OF setEntry_dirty], rule triple_bnd [OF save_clean [OF assms]], rule triple_ret) (simp add: at_entry_def)

lemma save_keeps:
  assumes "reliable rel d"
  shows "triple (at_entry rel st0 d i eo) (btc_save d) (\<lambda>_. at_entry rel st0 d i eo) (\<lambda>_. btc_inv rel st0 d)"
  unfolding btc_save_def
  by (rule triple_bnd [OF triple_gets [of _ "\<lambda>st s. at_entry rel st0 d i eo s \<and> st = btc_entries s"]], simp)
    (rule triple_call, auto simp: at_entry_def btc_inv_def unsettled_def)

text \<open>After a broadcast its result is on top of the trace.\<close>

definition sent :: "bool \<Rightarrow> BtcState \<Rightarrow> 'w BtcPayoutDeps \<Rightarrow> string \<Rightarrow> BtcStateEntry \<Rightarrow> BuiltPayout \<Rightarrow> exn + BroadcastResult \<Rightarrow> 'w btc_run \<Rightarrow> bool" where
  "sent rel st0 d i e p r s = (at_entry rel st0 d i (Some e) s \<and> en_planned e = Some p \<and> last_bcast i (trace s) = Some (bp_rawHex p, r))"

lemma sent_named: "sent rel st0 d i e p r s \<Longrightarrow> bp_txid p \<noteq> ''''"
  by (auto simp: sent_def at_entry_def btc_inv_def named_def)

lemma sent_entry_ok:
  assumes "sent rel st0 d i e p r s"
  shows "entry_ok i (e\<lparr>en_needsReview := Some x\<rparr>) (trace s)" "entry_ok i (e\<lparr>en_btcTxid := bp_txid p, en_planned := None\<rparr>) (trace s)"
    "clean_rejection r \<Longrightarrow> entry_ok i (e\<lparr>en_planned := None\<rparr>) (trace s)"
  using assms sent_named [OF assms]
  by (auto simp: entry_ok_def held_def named_def sent_def at_entry_def btc_inv_def unsettled_def)

lemma settleBroadcast_keeps:
  assumes "reliable rel d"
  shows "triple (sent rel st0 d i e p (Inr res)) (settleBroadcast d i e p res) (\<lambda>_. btc_inv rel st0 d) (\<lambda>_. btc_inv rel st0 d)"
proof -
  have store: "triple (sent rel st0 d i e p r) (storeAnd d i e' out) (\<lambda>_. btc_inv rel st0 d) (\<lambda>_. btc_inv rel st0 d)"
    if "\<And>s. sent rel st0 d i e p r s \<Longrightarrow> entry_ok i e' (trace s)" for r e' out
    using that by (intro triple_pre [OF storeAnd_keeps [OF assms]]) (auto simp: sent_def at_entry_def)
  have keep: "triple (sent rel st0 d i e p r) (bnd (btc_save d) (\<lambda>_. ret out)) (\<lambda>_. btc_inv rel st0 d) (\<lambda>_. btc_inv rel st0 d)" for r out
    by (rule triple_bnd [OF triple_pre [OF save_keeps [OF assms, of st0 i "Some e"]]], simp add: sent_def, rule triple_ret, simp add: at_entry_def)
  show ?thesis
    by (cases res) (auto simp: settleBroadcast_def clean_rejection_def intro!: store keep sent_entry_ok)
qed

lemma btc_inv_broadcast:
  assumes "at_entry rel st0 d i (Some e) s" "en_planned e = Some p" "bd_live d"
    and "\<And>rawHex. unsettled i (trace s) rawHex \<Longrightarrow> rawHex = bp_rawHex p"
  shows "sent rel st0 d i e p r (s\<lparr>world := w, trace := BvBroadcast i (bp_rawHex p) t r # trace s\<rparr>)"
proof -
  have "btc_event_ok d (BvBroadcast i (bp_rawHex p) t r) (trace s)"
    using assms(3,4) by (auto simp: unsettled_def)
  then show ?thesis using assms(1,2)
    by (auto simp: sent_def at_entry_def btc_inv_def unsettled_def held_def)
qed

lemma sendPlanned_keeps:
  assumes "reliable rel d" "en_planned e = Some p" "bd_live d"
  shows "triple (\<lambda>s. at_entry rel st0 d i (Some e) s \<and> (\<forall>rawHex. unsettled i (trace s) rawHex \<longrightarrow> rawHex = bp_rawHex p))
    (sendPlanned d i e p) (\<lambda>_. btc_inv rel st0 d) (\<lambda>_. btc_inv rel st0 d)"
  unfolding sendPlanned_def
proof (rule triple_bnd [OF triple_call settleBroadcast_keeps [OF assms(1)]])
  fix s w a
  assume "at_entry rel st0 d i (Some e) s \<and> (\<forall>rawHex. unsettled i (trace s) rawHex \<longrightarrow> rawHex = bp_rawHex p)"
  then show "sent rel st0 d i e p (Inr a) (s\<lparr>world := w, trace := BvBroadcast i (bp_rawHex p) (bp_txid p) (Inr a) # trace s\<rparr>)"
    using assms(2,3) by (intro btc_inv_broadcast) auto
next
  fix s w x
  assume "at_entry rel st0 d i (Some e) s \<and> (\<forall>rawHex. unsettled i (trace s) rawHex \<longrightarrow> rawHex = bp_rawHex p)"
  then have "sent rel st0 d i e p (Inl x) (s\<lparr>world := w, trace := BvBroadcast i (bp_rawHex p) (bp_txid p) (Inl x) # trace s\<rparr>)"
    using assms(2,3) by (intro btc_inv_broadcast) auto
  then show "btc_inv rel st0 d (s\<lparr>world := w, trace := BvBroadcast i (bp_rawHex p) (bp_txid p) (Inl x) # trace s\<rparr>)"
    by (simp add: sent_def at_entry_def)
qed

text \<open>An entry that is not under review and has no transaction: what is unsettled is its plan.\<close>

definition open_entry :: "BtcStateEntry \<Rightarrow> bool" where
  "open_entry e = (en_needsReview e = None \<and> en_btcTxid e = '''')"

lemma unsettled_open:
  "at_entry rel st0 d i (Some e) s \<Longrightarrow> open_entry e \<Longrightarrow> unsettled i (trace s) rawHex \<Longrightarrow> \<exists>p. en_planned e = Some p \<and> bp_rawHex p = rawHex"
  unfolding at_entry_def btc_inv_def open_entry_def held_def by (metis option.inject)

lemma unsettled_none: "at_entry rel st0 d i None s \<Longrightarrow> \<not> unsettled i (trace s) rawHex"
  unfolding at_entry_def btc_inv_def by (metis option.distinct(1))

lemma awaitDepth_keeps: "triple (btc_inv rel st0 d) (awaitDepth d i t) (\<lambda>_. btc_inv rel st0 d) (\<lambda>_. btc_inv rel st0 d)"
  unfolding awaitDepth_def
proof (rule triple_bnd [where R = "\<lambda>c s. btc_inv rel st0 d s \<and> (\<exists>tr. trace s = BvConfirmations t (Inr c) # tr)"])
  show "triple (btc_inv rel st0 d) (call (BvConfirmations t) (bd_confirmations d t))
      (\<lambda>c s. btc_inv rel st0 d s \<and> (\<exists>tr. trace s = BvConfirmations t (Inr c) # tr)) (\<lambda>_. btc_inv rel st0 d)"
    by (rule triple_call) (auto intro: btc_inv_neutral)
  show "triple (\<lambda>s. btc_inv rel st0 d s \<and> (\<exists>tr. trace s = BvConfirmations t (Inr c) # tr))
      (case c of None \<Rightarrow> ret OReadFailed
       | Some c \<Rightarrow> if f64_less c (bd_minConfirmations d) then ret OAwaitingConfirmations
          else bnd (call (BvFulfill i t) (bd_fulfill d i t)) (\<lambda>ok. ret (if ok then OFulfilled else OFulfillRefused)))
      (\<lambda>_. btc_inv rel st0 d) (\<lambda>_. btc_inv rel st0 d)" for c
    by (cases c) (auto intro!: triple_ret triple_if triple_bnd [where R = "\<lambda>_. btc_inv rel st0 d"] triple_call
      simp: btc_inv_def unsettled_def)
qed

lemma resendPlanned_keeps:
  assumes "reliable rel d" "en_planned e = Some p" "open_entry e"
  shows "triple (at_entry rel st0 d i (Some e)) (resendPlanned d i e p) (\<lambda>_. btc_inv rel st0 d) (\<lambda>_. btc_inv rel st0 d)"
proof -
  have known: "entry_ok i (e\<lparr>en_btcTxid := bp_txid p, en_planned := None\<rparr>) (trace s)" if "at_entry rel st0 d i (Some e) s" for s
    using that assms(2) by (auto simp: entry_ok_def held_def named_def at_entry_def btc_inv_def)
  have send: "triple (at_entry rel st0 d i (Some e)) (sendPlanned d i e p) (\<lambda>_. btc_inv rel st0 d) (\<lambda>_. btc_inv rel st0 d)" if "bd_live d"
    by (rule triple_pre [OF sendPlanned_keeps [OF assms(1,2) that]]) (use unsettled_open assms(2,3) in fastforce)
  have store: "triple (at_entry rel st0 d i (Some e)) (storeAnd d i (e\<lparr>en_btcTxid := bp_txid p, en_planned := None\<rparr>) out)
      (\<lambda>_. btc_inv rel st0 d) (\<lambda>_. btc_inv rel st0 d)" for out
    by (rule triple_pre [OF storeAnd_keeps [OF assms(1)]]) (use known in \<open>auto simp: at_entry_def\<close>)
  show ?thesis unfolding resendPlanned_def
    by (rule triple_bnd [OF read_keeps]) (auto intro!: triple_ret send store simp: at_entry_def split: option.split bool.split)
qed

lemma at_entry_inv: "at_entry rel st0 d i eo s \<Longrightarrow> btc_inv rel st0 d s"
  by (simp add: at_entry_def)

text \<open>An entry with nothing in flight: none yet, or one that is open and has no plan.\<close>

definition idle_entry :: "BtcStateEntry option \<Rightarrow> BtcStateEntry \<Rightarrow> bool" where
  "idle_entry eo e = (open_entry e \<and> en_planned e = None \<and> (eo = None \<or> eo = Some e))"

lemma idle_unsettled: "idle_entry eo e \<Longrightarrow> at_entry rel st0 d i eo s \<Longrightarrow> \<not> unsettled i (trace s) rawHex"
  unfolding idle_entry_def using unsettled_open unsettled_none by fastforce

lemma idle_entry_ok: "idle_entry eo e \<Longrightarrow> at_entry rel st0 d i eo s \<Longrightarrow> named e' \<Longrightarrow> entry_ok i e' (trace s)"
  using idle_unsettled unfolding entry_ok_def by blast

lemma idle_store:
  assumes "reliable rel d" "idle_entry eo e" "named e'"
  shows "triple (at_entry rel st0 d i eo) (storeAnd d i e' out) (\<lambda>_. btc_inv rel st0 d) (\<lambda>_. btc_inv rel st0 d)"
  by (rule triple_pre [OF storeAnd_keeps [OF assms(1)]]) (rule conjI, erule at_entry_inv, erule idle_entry_ok [OF assms(2) _ assms(3)])

lemma triple_bnd_gets: "(\<And>x. triple P (f x) Q E) \<Longrightarrow> triple P (bnd (gets g) f) Q E"
  by (rule triple_bnd [where R = "\<lambda>_. P"]) (auto intro: triple_gets)

lemma findPayout_keeps:
  assumes "\<And>r. triple (at_entry rel st0 d i eo) (k r) (\<lambda>_. btc_inv rel st0 d) (\<lambda>_. btc_inv rel st0 d)"
  shows "triple (at_entry rel st0 d i eo) (findPayout d dest sats k) (\<lambda>_. btc_inv rel st0 d) (\<lambda>_. btc_inv rel st0 d)"
  unfolding findPayout_def
proof (rule triple_bnd_gets)
  fix st
  show "triple (at_entry rel st0 d i eo) (attempt (call (BvFind dest sats) (bd_findExistingPayout d dest sats (knownPayoutTxids st))) k)
      (\<lambda>_. btc_inv rel st0 d) (\<lambda>_. btc_inv rel st0 d)"
    by (rule triple_attempt [where R = "\<lambda>_. at_entry rel st0 d i eo", OF triple_call assms])
      (auto simp: at_entry_def intro: btc_inv_neutral)
qed

lemma legacyInFlight_keeps:
  assumes "reliable rel d" "idle_entry eo e"
  shows "triple (at_entry rel st0 d i eo) (legacyInFlight d i e dest sats) (\<lambda>_. btc_inv rel st0 d) (\<lambda>_. btc_inv rel st0 d)"
  unfolding legacyInFlight_def
proof (rule findPayout_keeps)
  have "named (e\<lparr>en_btcTxid := t, en_broadcasting := False\<rparr>)" "named (e\<lparr>en_needsReview := x\<rparr>)" for t x
    using assms(2) by (simp_all add: idle_entry_def named_def)
  note store = idle_store [OF assms this(1)] idle_store [OF assms this(2)]
  fix r
  show "triple (at_entry rel st0 d i eo) (case r of Inl e \<Rightarrow> ret OReadFailed
      | Inr x \<Rightarrow> if found_txid x \<noteq> '''' then storeAnd d i (e\<lparr>en_btcTxid := found_txid x, en_broadcasting := False\<rparr>) OAdopted
        else storeAnd d i (e\<lparr>en_needsReview := Some LegacyMidBroadcast\<rparr>) ONeedsReview) (\<lambda>_. btc_inv rel st0 d) (\<lambda>_. btc_inv rel st0 d)"
    by (cases r) (auto intro!: triple_ret store simp: at_entry_def)
qed

definition builds_named :: "'w BtcPayoutDeps \<Rightarrow> bool" where
  "builds_named d = (\<forall>dest sats ex w p w'. bd_build d dest sats ex w = (Inr (Built p), w') \<longrightarrow> bp_txid p \<noteq> '''')"

lemma builds_namedD: "builds_named d \<Longrightarrow> bd_build d dest sats ex w = (Inr (Built p), w') \<Longrightarrow> bp_txid p \<noteq> ''''"
  unfolding builds_named_def by blast

lemma sendBuilt_keeps:
  assumes "reliable rel d" "idle_entry eo e" "bp_txid p \<noteq> ''''" "bd_live d"
  shows "triple (at_entry rel st0 d i eo) (sendBuilt d i e p) (\<lambda>_. btc_inv rel st0 d) (\<lambda>_. btc_inv rel st0 d)"
proof -
  let ?e = "e\<lparr>en_planned := Some p, en_attempts := en_attempts e + 1\<rparr>"
  have op: "open_entry ?e" "named ?e" using assms(2,3) by (simp_all add: idle_entry_def open_entry_def named_def)
  have "triple (at_entry rel st0 d i eo) (setEntry i ?e) (\<lambda>_. dirty st0 d i ?e) (\<lambda>_. btc_inv rel st0 d)"
    by (rule triple_pre [OF setEntry_dirty]) (rule conjI, erule at_entry_inv, erule idle_entry_ok [OF assms(2) _ op(2)])
  moreover have "triple (at_entry rel st0 d i (Some ?e)) (sendPlanned d i ?e p) (\<lambda>_. btc_inv rel st0 d) (\<lambda>_. btc_inv rel st0 d)"
    by (rule triple_pre [OF sendPlanned_keeps [OF assms(1) _ assms(4)]]) (use unsettled_open [OF _ op(1)] in fastforce)+
  ultimately show ?thesis unfolding sendBuilt_def Let_def
    by (intro triple_bnd [OF _ triple_bnd [OF save_clean [OF assms(1)]]])
qed

lemma newPayout_keeps:
  assumes "reliable rel d" "builds_named d" "idle_entry eo e"
  shows "triple (at_entry rel st0 d i eo) (newPayout d i e dest sats) (\<lambda>_. btc_inv rel st0 d) (\<lambda>_. btc_inv rel st0 d)"
proof -
  have "named (e\<lparr>en_btcTxid := t\<rparr>)" "named (e\<lparr>en_needsReview := x\<rparr>)" for t x
    using assms(3) by (simp_all add: idle_entry_def named_def)
  note store = idle_store [OF assms(1,3) this(1)] idle_store [OF assms(1,3) this(2)]
  have use: "triple (at_entry rel st0 d i eo) (useBuild d i e sats res) (\<lambda>_. btc_inv rel st0 d) (\<lambda>_. btc_inv rel st0 d)"
    if "\<And>p. res = Built p \<Longrightarrow> bp_txid p \<noteq> ''''" for res
    using that by (cases res) (auto simp: useBuild_def at_entry_def intro!: triple_ret store sendBuilt_keeps [OF assms(1,3)])
  have build: "triple (at_entry rel st0 d i eo) (attempt (call (BvBuild dest sats ex) (bd_build d dest sats ex)) (\<lambda>b. case b of
      Inl e \<Rightarrow> ret OBuildFailed | Inr res \<Rightarrow> useBuild d i e sats res)) (\<lambda>_. btc_inv rel st0 d) (\<lambda>_. btc_inv rel st0 d)" for ex
  proof (rule triple_attempt [where R = "\<lambda>b s. at_entry rel st0 d i eo s \<and> (\<forall>p. b = Inr (Built p) \<longrightarrow> bp_txid p \<noteq> '''')"])
    show "triple (at_entry rel st0 d i eo) (call (BvBuild dest sats ex) (bd_build d dest sats ex))
        (\<lambda>a s. at_entry rel st0 d i eo s \<and> (\<forall>p. Inr a = Inr (Built p) \<longrightarrow> bp_txid p \<noteq> ''''))
        (\<lambda>e s. at_entry rel st0 d i eo s \<and> (\<forall>p. Inl e = Inr (Built p) \<longrightarrow> bp_txid p \<noteq> ''''))"
      using assms(2) by (auto simp: triple_def call_def at_entry_def dest: builds_namedD intro: btc_inv_neutral split: prod.splits sum.splits)
    fix b
    show "triple (\<lambda>s. at_entry rel st0 d i eo s \<and> (\<forall>p. b = Inr (Built p) \<longrightarrow> bp_txid p \<noteq> ''''))
        (case b of Inl e \<Rightarrow> ret OBuildFailed | Inr res \<Rightarrow> useBuild d i e sats res) (\<lambda>_. btc_inv rel st0 d) (\<lambda>_. btc_inv rel st0 d)"
    proof (cases "\<forall>p. b = Inr (Built p) \<longrightarrow> bp_txid p \<noteq> ''''")
      case True
      then show ?thesis by (cases b) (auto intro!: triple_ret triple_pre [OF use] simp: at_entry_def)
    next
      case False
      then show ?thesis by (auto simp: triple_def)
    qed
  qed
  show ?thesis unfolding newPayout_def
    by (rule triple_bnd [OF read_keeps], simp, rule triple_if, rule triple_ret, simp add: at_entry_def, rule findPayout_keeps)
      (auto intro!: triple_ret store build triple_bnd_gets simp: at_entry_def split: sum.split)
qed

lemma dispatchEntry_keeps:
  assumes "reliable rel d" "builds_named d" "eo = None \<and> e = fresh_entry dest' sats' \<or> eo = Some e"
  shows "triple (at_entry rel st0 d i eo) (dispatchEntry d i e dest sats) (\<lambda>_. btc_inv rel st0 d) (\<lambda>_. btc_inv rel st0 d)"
proof -
  have op: "open_entry e" if "en_needsReview e = None" "en_btcTxid e = ''''" using that by (simp add: open_entry_def)
  have idle: "idle_entry eo e" if "open_entry e" "en_planned e = None"
    using that assms(3) by (auto simp: idle_entry_def)
  have planned: "eo = Some e" if "en_planned e = Some p" for p using that assms(3) by (auto simp: fresh_entry_def)
  have inv: "at_entry rel st0 d i eo s \<Longrightarrow> btc_inv rel st0 d s" for s by (simp add: at_entry_def)
  have await: "triple (at_entry rel st0 d i eo) (awaitDepth d i t) (\<lambda>_. btc_inv rel st0 d) (\<lambda>_. btc_inv rel st0 d)" for t
    by (rule triple_pre [OF awaitDepth_keeps]) (rule inv)
  have review: "triple (at_entry rel st0 d i eo) (ret ONeedsReview) (\<lambda>_. btc_inv rel st0 d) (\<lambda>_. btc_inv rel st0 d)"
    by (rule triple_ret) (rule inv)
  show ?thesis
  proof (cases "open_entry e")
    case True
    then show ?thesis
      using idle [OF True] planned resendPlanned_keeps [OF assms(1)] legacyInFlight_keeps [OF assms(1)] newPayout_keeps [OF assms(1,2)]
      by (cases "en_planned e") (simp_all add: dispatchEntry_def open_entry_def)
  next
    case False
    then show ?thesis using await review by (auto simp: dispatchEntry_def open_entry_def)
  qed
qed

lemma processBtcWithdrawal_keeps:
  assumes "reliable rel d" "builds_named d"
  shows "keeps (btc_inv rel st0 d) (processBtcWithdrawal d w)"
proof -
  have changed: "triple (at_entry rel st0 d i (Some e)) (bnd (setEntry i (e\<lparr>en_needsReview := Some x\<rparr>)) (\<lambda>_. bnd (btc_save d)
      (\<lambda>_. dispatchEntry d i (e\<lparr>en_needsReview := Some x\<rparr>) dest sats))) (\<lambda>_. btc_inv rel st0 d) (\<lambda>_. btc_inv rel st0 d)" for i e x dest sats
  proof -
    have "entry_ok i (e\<lparr>en_needsReview := Some x\<rparr>) (trace s)" if "at_entry rel st0 d i (Some e) s" for s
      using that by (auto simp: entry_ok_def held_def named_def at_entry_def btc_inv_def)
    then have "triple (at_entry rel st0 d i (Some e)) (setEntry i (e\<lparr>en_needsReview := Some x\<rparr>)) (\<lambda>_. dirty st0 d i (e\<lparr>en_needsReview := Some x\<rparr>)) (\<lambda>_. btc_inv rel st0 d)"
      by (intro triple_pre [OF setEntry_dirty]) (auto simp: at_entry_def)
    then show ?thesis
      by (intro triple_bnd [OF _ triple_bnd [OF save_clean [OF assms(1)] dispatchEntry_keeps [OF assms]]]) auto
  qed
  have entry: "triple (btc_inv rel st0 d) (bnd (gets (\<lambda>s. map_get (btc_entries s) i)) k) (\<lambda>_. btc_inv rel st0 d) (\<lambda>_. btc_inv rel st0 d)"
    if "\<And>eo. triple (at_entry rel st0 d i eo) (k eo) (\<lambda>_. btc_inv rel st0 d) (\<lambda>_. btc_inv rel st0 d)" for i k
    by (rule triple_bnd [where R = "at_entry rel st0 d i", OF triple_gets that]) (simp add: at_entry_def)
  show ?thesis unfolding processBtcWithdrawal_def Let_def
    by (auto intro!: triple_ret entry changed dispatchEntry_keeps [OF assms] split: option.split)
qed

lemma restart_keeps: "btc_inv True st0 d s \<Longrightarrow> btc_inv True st0 d (s\<lparr>btc_entries := on_disk st0 (trace s)\<rparr>)"
  by (simp add: btc_inv_def)

text \<open>A restart reads the state file: only where it is always written does it restore the map.\<close>

definition step_ok :: "bool \<Rightarrow> 'w BtcPayoutDeps \<Rightarrow> btc_step \<Rightarrow> bool" where
  "step_ok rel d step = (reliable rel d \<and> builds_named d \<and> (rel \<or> step \<noteq> Restart))"

interpretation btc: invariant_machine "btc_do d st0" "step_ok rel d" "btc_inv rel st0 d" for rel st0 d
proof
  fix s step
  assume inv: "btc_inv rel st0 d s" and ok: "step_ok rel d step"
  show "btc_inv rel st0 d (btc_do d st0 step s)"
  proof (cases step)
    case (Handle w)
    have "reliable rel d" "builds_named d" using ok by (simp_all add: step_ok_def)
    then show ?thesis
      using keeps_exec [OF processBtcWithdrawal_keeps inv] Handle by (simp add: btc_do_def)
  next
    case Restart
    then have "rel" using ok by (simp add: step_ok_def)
    then show ?thesis using restart_keeps inv Restart by (simp add: btc_do_def)
  qed
qed

definition start :: "BtcState \<Rightarrow> 'w \<Rightarrow> 'w btc_run" where
  "start st0 w = \<lparr>world = w, trace = [], btc_entries = st0\<rparr>"

definition entries_named :: "BtcState \<Rightarrow> bool" where
  "entries_named st = (\<forall>i e. map_get st i = Some e \<longrightarrow> named e)"

lemma start_inv: "entries_named st0 \<Longrightarrow> btc_inv rel st0 d (start st0 w)"
  by (simp add: btc_inv_def start_def entries_named_def unsettled_def)

lemma btc_runs:
  assumes "reliable rel d" "builds_named d" "entries_named st0" "rel \<or> Restart \<notin> set steps"
  shows "btc_inv rel st0 d (fold (btc_do d st0) steps (start st0 w))"
proof (rule btc.run_inv)
  show "list_all (step_ok rel d) steps" using assms(1,2,4) by (auto simp: step_ok_def list_all_iff)
  show "btc_inv rel st0 d (start st0 w)" by (rule start_inv [OF assms(3)])
qed

section \<open>A sample run\<close>

text \<open>Dependencies over a counter of broadcasts: nothing is known to the network, the transaction built is
  \<open>aa\<close>, and no broadcast gets an answer. \<open>writable\<close> says whether the state file can be written.\<close>

definition sample_payout :: BuiltPayout where
  "sample_payout = \<lparr>bp_txid = ''aa'', bp_rawHex = ''01'', bp_inputs = [''bb:0''], bp_pay = None, bp_fee = None\<rparr>"

definition sample_btc :: "bool \<Rightarrow> nat BtcPayoutDeps" where
  "sample_btc writable = \<lparr>bd_live = True, bd_minConfirmations = f64_of_int 6, bd_maxSats = 0, bd_maxRetries = f64_of_int 5, bd_dust = 546,
     bd_healthOk = (\<lambda>w. (Inr True, w)), bd_isValidDest = (\<lambda>_. True), bd_confirmations = (\<lambda>_ w. (Inr (Some (f64_of_int 7)), w)),
     bd_txKnown = (\<lambda>_ w. (Inr (Some False), w)), bd_findExistingPayout = (\<lambda>_ _ _ w. (Inr None, w)),
     bd_build = (\<lambda>_ _ _ w. (Inr (Built sample_payout), w)), bd_broadcast = (\<lambda>_ _ w. (Inr (UnknownOutcome ''timeout''), w + 1)),
     bd_fulfill = (\<lambda>_ _ w. (Inr True, w)), bd_save = (\<lambda>_ w. (if writable then Inr () else Inl ''ENOSPC'', w))\<rparr>"

definition sample_withdrawal :: PendingBtcWithdrawal where
  "sample_withdrawal = \<lparr>pw_txId = ''w1'', pw_evmAddress = ''bc1q'', pw_amountUnits = f64_of_int 5000\<rparr>"

definition sample_planned :: BtcStateEntry where
  "sample_planned = \<lparr>en_dest = ''bc1q'', en_sats = dec_int 5000, en_attempts = 1, en_btcTxid = '''', en_planned = Some sample_payout,
     en_needsReview = None, en_broadcasting = False\<rparr>"

lemma sample_reliable: "reliable w (sample_btc w)"
  by (simp add: reliable_def sample_btc_def)

lemma sample_builds_named: "builds_named (sample_btc w)"
  by (simp add: builds_named_def sample_btc_def sample_payout_def)

lemmas btc_run_defs = processBtcWithdrawal_def dispatchEntry_def newPayout_def findPayout_def useBuild_def sendBuilt_def sendPlanned_def
  settleBroadcast_def resendPlanned_def awaitDepth_def btc_save_def setEntry_def storeAnd_def Let_def
  bnd_def gets_def call_def modify_def ret_def attempt_def exec_def

lemma sample_sats: "BigInt_f64 (f64_of_int 5000) = Some 5000"
  using BigInt_of_nat [of 5000] by simp

lemma sample_retries: "\<not> f64_le (f64_of_int 5) (f64_of_int 0)"
  using f64_is_le [OF f64_is_int f64_is_int, of 5 0] by simp

lemma sample_dest: "js_trim ''bc1q'' = ''bc1q''"
  by code_simp

lemmas sample_run = btc_run_defs sample_btc_def sample_withdrawal_def start_def fresh_entry_def sample_sats sample_retries sample_dest
  knownPayoutTxids_def reservedInputs_def found_txid_def map_values_def map_get_def

text \<open>With a state file that cannot be written, the first cycle fails at its save and the second one broadcasts
  what was never saved.\<close>

lemma sample_first:
  "processBtcWithdrawal (sample_btc w) sample_withdrawal (start [] n) =
     (if w then (Inr OBroadcastUnknown, \<lparr>world = n + 1, trace = [BvSave [(''w1'', sample_planned)] (Inr ()),
          BvBroadcast ''w1'' ''01'' ''aa'' (Inr (UnknownOutcome ''timeout'')), BvSave [(''w1'', sample_planned)] (Inr ()),
          BvBuild ''bc1q'' 5000 [] (Inr (Built sample_payout)), BvFind ''bc1q'' 5000 (Inr None), BvHealth (Inr True)],
        btc_entries = [(''w1'', sample_planned)]\<rparr>)
      else (Inl ''ENOSPC'', \<lparr>world = n, trace = [BvSave [(''w1'', sample_planned)] (Inl ''ENOSPC''),
          BvBuild ''bc1q'' 5000 [] (Inr (Built sample_payout)), BvFind ''bc1q'' 5000 (Inr None), BvHealth (Inr True)],
        btc_entries = [(''w1'', sample_planned)]\<rparr>))"
  by (simp add: sample_run sample_planned_def) (simp add: sample_payout_def)

lemma sample_again:
  "exec (processBtcWithdrawal (sample_btc w) sample_withdrawal) \<lparr>world = n, trace = tr, btc_entries = [(''w1'', sample_planned)]\<rparr> =
     \<lparr>world = n + 1, trace = BvSave [(''w1'', sample_planned)] (if w then Inr () else Inl ''ENOSPC'') #
        BvBroadcast ''w1'' ''01'' ''aa'' (Inr (UnknownOutcome ''timeout'')) # BvKnown ''aa'' (Inr (Some False)) # tr,
       btc_entries = [(''w1'', sample_planned)]\<rparr>"
  by (simp add: sample_run sample_planned_def) (simp add: sample_payout_def)

section \<open>The rule against double payment\<close>

lemma btc_trace_ok_at: "btc_trace_ok d (later @ e # earlier) \<Longrightarrow> btc_event_ok d e earlier"
  by (induction later) simp_all

lemma btc_run_event_ok:
  assumes "builds_named d" "entries_named st0" "reliable (Restart \<in> set steps) d"
    and "trace (fold (btc_do d st0) steps (start st0 w)) = later @ e # earlier"
  shows "btc_event_ok d e earlier"
proof -
  have "btc_inv (Restart \<in> set steps) st0 d (fold (btc_do d st0) steps (start st0 w))"
    using assms(1-3) by (intro btc_runs) auto
  then have "btc_trace_ok d (later @ e # earlier)" using assms(4) by (simp add: btc_inv_def)
  then show ?thesis by (rule btc_trace_ok_at)
qed

text \<open>C21: No double payment in Bitcoin. Take any sequence of withdrawal cycles and process restarts; a restart
  reads back the last state that was saved, and where there is one the state file can always be written.
  Whenever a payout is broadcast for a withdrawal, payouts are live, and if something was broadcast for this
  withdrawal before, then either these are the same bytes or the answer to the last broadcast was a rejection
  that is not about spent inputs. \<open>builds_named\<close> and \<open>entries_named\<close> say that a signed transaction has a
  transaction id.\<close>

theorem btc_no_double_payment:
  assumes "builds_named d" "entries_named st0" "reliable (Restart \<in> set steps) d"
    and "trace (fold (btc_do d st0) steps (start st0 w)) = later @ BvBroadcast i rawHex txid r # earlier"
  shows "bd_live d \<and> (\<forall>rawHex' r'. last_bcast i earlier = Some (rawHex', r') \<longrightarrow> rawHex = rawHex' \<or> clean_rejection r')"
  using btc_run_event_ok [OF assms] by simp

definition sample_steps :: "btc_step list" where
  "sample_steps = [Handle sample_withdrawal, Restart, Handle sample_withdrawal]"

lemma sample_trace: "trace (fold (btc_do (sample_btc True) []) sample_steps (start [] 0)) =
    [BvSave [(''w1'', sample_planned)] (Inr ())] @ BvBroadcast ''w1'' ''01'' ''aa'' (Inr (UnknownOutcome ''timeout'')) #
    [BvKnown ''aa'' (Inr (Some False)), BvSave [(''w1'', sample_planned)] (Inr ()),
     BvBroadcast ''w1'' ''01'' ''aa'' (Inr (UnknownOutcome ''timeout'')), BvSave [(''w1'', sample_planned)] (Inr ()),
     BvBuild ''bc1q'' 5000 [] (Inr (Built sample_payout)), BvFind ''bc1q'' 5000 (Inr None), BvHealth (Inr True)]"
  by (simp add: sample_steps_def btc_do_def exec_def sample_first sample_again [unfolded exec_def])

lemma sample_entries_named: "entries_named []"
  by (simp add: entries_named_def map_get_def)

theorem btc_no_double_payment_witness:
  "bd_live (sample_btc True) \<and> last_bcast ''w1'' [BvKnown ''aa'' (Inr (Some False)), BvSave [(''w1'', sample_planned)] (Inr ()),
     BvBroadcast ''w1'' ''01'' ''aa'' (Inr (UnknownOutcome ''timeout'')), BvSave [(''w1'', sample_planned)] (Inr ()),
     BvBuild ''bc1q'' 5000 [] (Inr (Built sample_payout)), BvFind ''bc1q'' 5000 (Inr None), BvHealth (Inr True)] =
       Some (''01'', Inr (UnknownOutcome ''timeout''))"
proof -
  have "reliable (Restart \<in> set sample_steps) (sample_btc True)"
    by (simp add: reliable_def sample_btc_def)
  from btc_no_double_payment [OF sample_builds_named sample_entries_named this sample_trace] show ?thesis by simp
qed

text \<open>C24: Over the same runs, the daemon is told that a withdrawal was paid by a transaction only directly
  after the depth of that very transaction was read and was not below the required number of
  confirmations.\<close>

theorem btc_fulfil_needs_depth:
  assumes "builds_named d" "entries_named st0" "reliable (Restart \<in> set steps) d"
    and "trace (fold (btc_do d st0) steps (start st0 w)) = later @ BvFulfill i txid r # earlier"
  shows "\<exists>c tr. earlier = BvConfirmations txid (Inr (Some c)) # tr \<and> \<not> f64_less c (bd_minConfirmations d)"
  using btc_run_event_ok [OF assms] by simp

definition sample_paid :: BtcState where
  "sample_paid = [(''w1'', sample_planned\<lparr>en_btcTxid := ''aa'', en_planned := None\<rparr>)]"

lemma sample_depth: "\<not> f64_less (f64_of_int 7) (f64_of_int 6)"
  using f64_is_less [OF f64_is_int f64_is_int, of 7 6] by simp

lemma sample_fulfil: "trace (fold (btc_do (sample_btc True) sample_paid) [Handle sample_withdrawal] (start sample_paid 0)) =
    [] @ BvFulfill ''w1'' ''aa'' (Inr True) # [BvConfirmations ''aa'' (Inr (Some (f64_of_int 7)))]"
  by (simp add: btc_do_def sample_paid_def sample_run sample_planned_def sample_depth)

theorem btc_fulfil_needs_depth_witness:
  "\<not> f64_less (f64_of_int 7) (bd_minConfirmations (sample_btc True))"
proof -
  have "entries_named sample_paid" by (simp add: entries_named_def sample_paid_def map_get_def named_def)
  from btc_fulfil_needs_depth [OF sample_builds_named this _ sample_fulfil] show ?thesis by (simp add: reliable_def)
qed


end
