(* ===== verification/Btc_Relayer.thy ===== *)
theory Btc_Relayer
  imports Btc_Payout Daemon_Api
begin

text \<open>
  The Bitcoin relayer process (\<open>scripts/btc-bridge-relayer.ts\<close>) around the payout decision of \<open>Btc_Payout\<close>: its
  settings, its state file, the Esplora and daemon calls, the building of a payout, the address pool, the sweeps and
  one cycle of the loop. \<open>fetch\<close> is an arbitrary effect; the signing library is a parameter: a function from keys,
  coins and outputs to a signed transaction. Answers are read at their declared types, and an answer of another shape
  counts as a type error. Log lines are left out.
\<close>

section \<open>Settings\<close>

definition strip_slash :: "string \<Rightarrow> string" where
  "strip_slash s = (if s \<noteq> '''' \<and> List.last s = CHR ''/'' then butlast s else s)"

fun count_words :: "bool \<Rightarrow> string \<Rightarrow> nat" where
  "count_words inside [] = 0"
| "count_words inside (c # cs) = (if js_space c then count_words False cs else (if inside then 0 else 1) + count_words True cs)"

definition num_f64 :: "jsnum \<Rightarrow> f64" where
  "num_f64 n = (case n of JInt i \<Rightarrow> f64_of_int i | _ \<Rightarrow> F64NaN)"

definition parseInt_f64 :: "string \<Rightarrow> f64" where
  "parseInt_f64 s = num_f64 (parseInt10 s)"

definition DUST :: int where "DUST = 546"

record BtcConfig =
  bc_CORE_API_URL :: string
  bc_RELAYER_SECRET :: string
  bc_IS_TESTNET :: bool
  bc_ESPLORA :: string
  bc_MIN_CONFIRMATIONS :: f64
  bc_MAX_SATS :: int
  bc_FEE_TARGET_BLOCKS :: string
  bc_MAX_NETWORK_FEE_SATS :: int
  bc_LIVE :: bool
  bc_MAX_RETRIES :: f64
  bc_STATE_FILE :: string
  bc_HD_ENABLED :: bool
  bc_POOL_TARGET :: f64
  bc_SWEEP_MIN_SATS :: int

text \<open>\<^const>\<open>None\<close>: the process ends, because a secret is missing or \<open>BigInt\<close> cannot read a number.\<close>

definition btcConfig :: "env \<Rightarrow> string \<Rightarrow> BtcConfig option" where
  "btcConfig e stateFile = (let testnet = toLowerCase (env_or e ''QV_BRIDGE_BTC_NETWORK'' ''mainnet'') = ''testnet'' in
     case (BigInt_str (env_or e ''BTC_MAX_WITHDRAW_SATS'' ''0''),
           BigInt_str (env_or e ''BTC_MAX_NETWORK_FEE_SATS'' (dec_int DEFAULT_MAX_NETWORK_FEE_SATS)), BigInt_str (env_or e ''SWEEP_MIN_SATS'' ''2000'')) of
       (Some maxSats, Some maxFee, Some sweepMin) \<Rightarrow>
         if env_or_empty e ''BRIDGE_BTC_CUSTODY_WIF'' = '''' \<or> env_or_empty e ''BRIDGE_RELAYER_SECRET'' = '''' then None
         else Some \<lparr>bc_CORE_API_URL = strip_slash (env_or e ''CORE_API_URL'' ''http://localhost:5101''),
           bc_RELAYER_SECRET = env_or_empty e ''BRIDGE_RELAYER_SECRET'', bc_IS_TESTNET = testnet,
           bc_ESPLORA = strip_slash (env_or e ''QV_BTC_ESPLORA_PRIMARY'' (if testnet then ''https://mempool.space/testnet/api'' else ''https://mempool.space/api'')),
           bc_MIN_CONFIRMATIONS = parseInt_f64 (env_or e ''QV_BRIDGE_BTC_MIN_CONFIRMATIONS'' ''2''), bc_MAX_SATS = maxSats,
           bc_FEE_TARGET_BLOCKS = env_or e ''BTC_FEE_TARGET_BLOCKS'' ''3'', bc_MAX_NETWORK_FEE_SATS = maxFee,
           bc_LIVE = (toLowerCase (env_or e ''BTC_RELAYER_LIVE'' ''false'') = ''true''),
           bc_MAX_RETRIES = parseInt_f64 (env_or e ''MAX_RETRIES'' ''3''), bc_STATE_FILE = stateFile,
           bc_HD_ENABLED = (count_words False (js_trim (env_or_empty e ''BRIDGE_BTC_HD_MNEMONIC'')) \<ge> 12),
           bc_POOL_TARGET = parseInt_f64 (env_or e ''DEPOSIT_POOL_TARGET'' ''20''), bc_SWEEP_MIN_SATS = sweepMin\<rparr>
     | _ \<Rightarrow> None)"

text \<open>The signing library, with the custody key and the deposit seed it was given: the custody address, the length of an
  address's output script (\<^const>\<open>None\<close>: no address), the deposit address of an index, and signed transactions.\<close>

record SignedTx =
  st_id :: string
  st_hex :: string
  st_vsize :: nat

record BtcSigner =
  CUSTODY_ADDRESS :: string
  sg_scriptLen :: "string \<Rightarrow> nat option"
  sg_payout :: "PlanUtxo list \<Rightarrow> (string \<times> int) list \<Rightarrow> exn + SignedTx"
  hdAddress :: "int \<Rightarrow> string"
  sg_sweep :: "int \<Rightarrow> PlanUtxo list \<Rightarrow> (string \<times> int) list \<Rightarrow> exn + SignedTx"

section \<open>The state file\<close>

text \<open>A file is the state its text parses to, or \<^const>\<open>None\<close> when it is not JSON.\<close>

type_synonym btc_file = "BtcState option"
type_synonym 'x btc_world = "('x, btc_file) fs_state"

definition loadState :: "('x, btc_file) FsEnv \<Rightarrow> string \<Rightarrow> ('x btc_world, BtcState) eff" where
  "loadState d f = try_catch (bnd (existsSync f) (\<lambda>x. if x then bnd (readFileSync d f) (lift_opt ''SyntaxError'') else ret [])) (\<lambda>e. ret [])"

definition saveState :: "('x, btc_file) FsEnv \<Rightarrow> string \<Rightarrow> BtcState \<Rightarrow> ('x btc_world, unit) eff" where
  "saveState d f st = (let tmp = f @ ''.tmp'' in bnd (writeFileSync d tmp (Some st)) (\<lambda>_. renameSync d tmp f))"

section \<open>HTTP\<close>

datatype btc_body = NoBody | TextBody string | JsonBody "f64 JsonV"

record BtcRequest =
  bq_method :: string
  bq_url :: string
  bq_secret :: string
  bq_body :: btc_body

record BtcResponse =
  bs_status :: int
  bs_body :: "exn + string \<times> f64 JsonV option"

type_synonym 'o BtcFetch = "BtcRequest \<Rightarrow> ('o, BtcResponse) eff"

definition btc_get :: "string \<Rightarrow> string \<Rightarrow> BtcRequest" where
  "btc_get url secret = \<lparr>bq_method = ''GET'', bq_url = url, bq_secret = secret, bq_body = NoBody\<rparr>"

definition bs_ok :: "BtcResponse \<Rightarrow> bool" where
  "bs_ok r = (200 \<le> bs_status r \<and> bs_status r \<le> 299)"

definition bs_text :: "BtcResponse \<Rightarrow> ('w, string) eff" where
  "bs_text r = lift_sum (case bs_body r of Inl e \<Rightarrow> Inl e | Inr (t, v) \<Rightarrow> Inr t)"

definition bs_json :: "BtcResponse \<Rightarrow> ('w, f64 JsonV) eff" where
  "bs_json r = lift_sum (case bs_body r of Inl e \<Rightarrow> Inl e | Inr (t, None) \<Rightarrow> Inl ''SyntaxError'' | Inr (t, Some v) \<Rightarrow> Inr v)"

definition esploraGet :: "BtcConfig \<Rightarrow> 'o BtcFetch \<Rightarrow> string \<Rightarrow> ('o, BtcResponse) eff" where
  "esploraGet cfg fetch path = bnd (fetch (btc_get (bc_ESPLORA cfg @ path) '''')) (\<lambda>r.
     if \<not> bs_ok r then throw (''esplora '' @ path @ '' -> HTTP '' @ dec_int (bs_status r)) else ret r)"

definition esploraJson :: "BtcConfig \<Rightarrow> 'o BtcFetch \<Rightarrow> string \<Rightarrow> ('o, f64 JsonV) eff" where
  "esploraJson cfg fetch path = bnd (esploraGet cfg fetch path) bs_json"

definition esploraText :: "BtcConfig \<Rightarrow> 'o BtcFetch \<Rightarrow> string \<Rightarrow> ('o, string) eff" where
  "esploraText cfg fetch path = bnd (esploraGet cfg fetch path) (\<lambda>r. bnd (bs_text r) (\<lambda>t. ret (js_trim t)))"

section \<open>Esplora answers\<close>

fun f64_val :: "f64 JsonV option \<Rightarrow> f64 option" where
  "f64_val (Some (VNum x)) = Some x"
| "f64_val _ = None"

fun bool_val :: "f64 JsonV option \<Rightarrow> bool option" where
  "bool_val (Some (VBool b)) = Some b"
| "bool_val _ = None"

fun nat_val :: "f64 JsonV option \<Rightarrow> nat option" where
  "nat_val (Some (VNum x)) = (case BigInt_f64 x of Some i \<Rightarrow> if i \<ge> 0 then Some (nat i) else None | None \<Rightarrow> None)"
| "nat_val _ = None"

definition sub_value :: "f64 JsonV \<Rightarrow> string \<Rightarrow> f64 JsonV" where
  "sub_value v k = (case prop_of v k of None \<Rightarrow> VNull | Some x \<Rightarrow> x)"

record Utxo = PlanUtxo +
  ux_confirmed :: bool

definition utxo_of :: "f64 JsonV \<Rightarrow> Utxo option" where
  "utxo_of v = (case (str_val (prop_of v ''txid''), nat_val (prop_of v ''vout''), f64_val (prop_of v ''value''),
       bool_val (prop_of (sub_value v ''status'') ''confirmed'')) of
      (Some t, Some n, Some x, Some c) \<Rightarrow> Some \<lparr>pu_txid = t, pu_vout = n, pu_value = x, ux_confirmed = c\<rparr>
    | _ \<Rightarrow> None)"

definition plan_utxo :: "Utxo \<Rightarrow> PlanUtxo" where
  "plan_utxo u = PlanUtxo.truncate u"

definition outpoint :: "PlanUtxo \<Rightarrow> string" where
  "outpoint u = pu_txid u @ '':'' @ dec_nat (pu_vout u)"

definition items_as :: "(f64 JsonV \<Rightarrow> 'a option) \<Rightarrow> f64 JsonV \<Rightarrow> 'a list option" where
  "items_as f v = (case array_items (Some v) of None \<Rightarrow> None | Some xs \<Rightarrow> those (map f xs))"

definition vin_of :: "f64 JsonV \<Rightarrow> EsploraVin option" where
  "vin_of v = Some \<lparr>ev_prevout_address = str_val (prop_of (sub_value v ''prevout'') ''scriptpubkey_address''),
     ev_prevout_value = f64_val (prop_of (sub_value v ''prevout'') ''value'')\<rparr>"

definition vout_of :: "f64 JsonV \<Rightarrow> EsploraVout option" where
  "vout_of v = map_option (\<lambda>x. \<lparr>eo_address = str_val (prop_of v ''scriptpubkey_address''), eo_value = x\<rparr>) (f64_val (prop_of v ''value''))"

definition tx_of :: "f64 JsonV \<Rightarrow> EsploraTxLike option" where
  "tx_of v = (case (str_val (prop_of v ''txid''), if prop_of v ''vin'' = None then Some [] else items_as vin_of (sub_value v ''vin''), items_as vout_of (sub_value v ''vout'')) of
      (Some t, Some ins, Some outs) \<Rightarrow> Some \<lparr>et_txid = t, et_fee = f64_val (prop_of v ''fee''), et_vin = ins, et_vout = outs\<rparr>
    | _ \<Rightarrow> None)"

section \<open>Esplora calls\<close>

definition tipHeight :: "BtcConfig \<Rightarrow> 'o BtcFetch \<Rightarrow> ('o, f64) eff" where
  "tipHeight cfg fetch = bnd (esploraText cfg fetch ''/blocks/tip/height'') (\<lambda>t. ret (parseInt_f64 t))"

definition getUtxos :: "BtcConfig \<Rightarrow> 'o BtcFetch \<Rightarrow> string \<Rightarrow> ('o, Utxo list) eff" where
  "getUtxos cfg fetch addr = bnd (esploraJson cfg fetch (''/address/'' @ addr @ ''/utxo'')) (\<lambda>v. lift_opt ''TypeError'' (items_as utxo_of v))"

text \<open>\<open>est[a] ?? est[b] ?? ... ?? 5\<close>.\<close>

fun estimate :: "f64 JsonV \<Rightarrow> string list \<Rightarrow> f64 option" where
  "estimate est [] = Some (f64_of_int 5)"
| "estimate est (k # ks) = (case prop_of est k of
      None \<Rightarrow> estimate est ks
    | Some VNull \<Rightarrow> estimate est ks
    | Some (VNum r) \<Rightarrow> Some r
    | Some _ \<Rightarrow> None)"

definition f64_max :: "f64 \<Rightarrow> f64 \<Rightarrow> f64" where
  "f64_max a b = (if a = F64NaN \<or> b = F64NaN then F64NaN else if f64_less a b then b else a)"

definition getFeeRate :: "BtcConfig \<Rightarrow> 'o BtcFetch \<Rightarrow> ('o, f64) eff" where
  "getFeeRate cfg fetch = try_catch
     (bnd (esploraJson cfg fetch ''/fee-estimates'') (\<lambda>est.
      bnd (lift_opt ''TypeError'' (estimate est [bc_FEE_TARGET_BLOCKS cfg, ''3'', ''6''])) (\<lambda>r.
      ret (f64_max (f64_of_int 1) (Math_ceil r)))))
     (\<lambda>e. ret (f64_of_int 5))"

definition txConfirmations :: "BtcConfig \<Rightarrow> 'o BtcFetch \<Rightarrow> string \<Rightarrow> ('o, f64 option) eff" where
  "txConfirmations cfg fetch txid = try_catch
     (bnd (esploraJson cfg fetch (''/tx/'' @ txid)) (\<lambda>tx.
      bnd (prop_or_throw tx ''status'') (\<lambda>status. let st = (case status of None \<Rightarrow> VNull | Some v \<Rightarrow> v) in
      if bool_val (prop_of st ''confirmed'') \<noteq> Some True then ret (Some (f64_of_int 0)) else
      case prop_of st ''block_height'' of
          None \<Rightarrow> ret (Some (f64_of_int 0))
        | Some VNull \<Rightarrow> ret (Some (f64_of_int 0))
        | Some (VNum h) \<Rightarrow> bnd (tipHeight cfg fetch) (\<lambda>tip. ret (Some (f64_add (f64_sub tip h) (f64_of_int 1))))
        | Some _ \<Rightarrow> throw ''TypeError'')))
     (\<lambda>e. ret None)"

definition txKnown :: "BtcConfig \<Rightarrow> 'o BtcFetch \<Rightarrow> string \<Rightarrow> ('o, bool option) eff" where
  "txKnown cfg fetch txid = try_catch
     (bnd (fetch (btc_get (bc_ESPLORA cfg @ ''/tx/'' @ txid @ ''/status'') '''')) (\<lambda>r.
      ret (if bs_status r = 404 then Some False else if \<not> bs_ok r then None else Some True)))
     (\<lambda>e. ret None)"

definition isValidDest :: "BtcSigner \<Rightarrow> string \<Rightarrow> bool" where
  "isValidDest sg addr = (sg_scriptLen sg addr \<noteq> None)"

definition daemonHealthOk :: "BtcConfig \<Rightarrow> 'o BtcFetch \<Rightarrow> ('o, bool) eff" where
  "daemonHealthOk cfg fetch = try_catch
     (bnd (fetch (btc_get (bc_CORE_API_URL cfg @ ''/api/bridge/health'') '''')) (\<lambda>r.
      if bs_status r \<noteq> 200 then ret False else
      bnd (bs_json r) (\<lambda>b. bnd (prop_or_throw b ''degraded'') (\<lambda>dg. ret (dg = Some (VBool False))))))
     (\<lambda>e. ret False)"

text \<open>The first transaction of the history that settles and is not known; \<^const>\<open>None\<close>: an amount \<open>BigInt\<close> cannot read.\<close>

fun scanHistory :: "string \<Rightarrow> string \<Rightarrow> int \<Rightarrow> int \<Rightarrow> string list \<Rightarrow> EsploraTxLike list \<Rightarrow> string option option" where
  "scanHistory custody dest sats maxFee known [] = Some None"
| "scanHistory custody dest sats maxFee known (tx # txs) =
     (if et_txid tx \<in> set known then scanHistory custody dest sats maxFee known txs
      else (case payoutSettles tx custody dest sats maxFee of
          None \<Rightarrow> None
        | Some settles \<Rightarrow> if settles then Some (Some (et_txid tx)) else scanHistory custody dest sats maxFee known txs))"

definition findExistingPayout :: "BtcConfig \<Rightarrow> BtcSigner \<Rightarrow> 'o BtcFetch \<Rightarrow> string \<Rightarrow> int \<Rightarrow> string list \<Rightarrow> ('o, string option) eff" where
  "findExistingPayout cfg sg fetch dest sats known = try_catch
     (bnd (esploraJson cfg fetch (''/address/'' @ CUSTODY_ADDRESS sg @ ''/txs'')) (\<lambda>v.
      bnd (lift_opt ''TypeError'' (items_as tx_of v)) (\<lambda>txs.
      lift_opt ''RangeError'' (scanHistory (CUSTODY_ADDRESS sg) dest sats (bc_MAX_NETWORK_FEE_SATS cfg) known txs))))
     (\<lambda>e. throw (''custody history scan failed: '' @ e))"

section \<open>Building and sending a payout\<close>

definition spendable :: "string list \<Rightarrow> Utxo list \<Rightarrow> PlanUtxo list" where
  "spendable exclude us = map plan_utxo (filter (\<lambda>u. ux_confirmed u \<and> outpoint (plan_utxo u) \<notin> set exclude) us)"

definition signPlan :: "BtcSigner \<Rightarrow> string \<Rightarrow> PlanUtxo list \<Rightarrow> int \<Rightarrow> int \<Rightarrow> int \<Rightarrow> nat \<Rightarrow> ('o, BuildResult) eff" where
  "signPlan sg dest ins pay change fee vsize =
     bnd (lift_sum (sg_payout sg ins ((dest, pay) # (if change > 0 then [(CUSTODY_ADDRESS sg, change)] else [])))) (\<lambda>tx.
     if st_vsize tx > vsize then throw (''signed vsize '' @ dec_nat (st_vsize tx) @ '' exceeds planned '' @ dec_nat vsize)
     else ret (Built \<lparr>bp_txid = st_id tx, bp_rawHex = st_hex tx, bp_inputs = map outpoint ins, bp_pay = Some (dec_int pay), bp_fee = Some (dec_int fee)\<rparr>))"

definition buildPayout :: "BtcConfig \<Rightarrow> BtcSigner \<Rightarrow> 'o BtcFetch \<Rightarrow> string \<Rightarrow> int \<Rightarrow> string list \<Rightarrow> ('o, BuildResult) eff" where
  "buildPayout cfg sg fetch dest sats exclude =
     bnd (getUtxos cfg fetch (CUSTODY_ADDRESS sg)) (\<lambda>us. let utxos = spendable exclude us in
     if utxos = [] then throw ''no confirmed custody UTXOs available'' else
     bnd (getFeeRate cfg fetch) (\<lambda>feeRate.
     bnd (lift_opt ''invalid address'' (sg_scriptLen sg dest)) (\<lambda>destScriptLen.
     bnd (lift_opt ''RangeError'' (planPayout \<lparr>pp_utxos = utxos, pp_sats = sats, pp_feeRate = feeRate, pp_destScriptLen = destScriptLen,
         pp_maxFee = bc_MAX_NETWORK_FEE_SATS cfg, pp_dust = DUST\<rparr>)) (\<lambda>plan. case plan of
         PlanInsufficient have need \<Rightarrow> throw (''insufficient custody balance: have '' @ dec_int have @ '' sats, need '' @ dec_int need)
       | PlanFeeTooHigh fee maxFee \<Rightarrow> ret (BuildFeeTooHigh fee maxFee)
       | PlanBelowMinimum fee pay \<Rightarrow> ret (BuildBelowMinimum fee pay)
       | PlanOk ins pay change fee vsize \<Rightarrow> signPlan sg dest ins pay change fee vsize))))"

definition broadcastRaw :: "BtcConfig \<Rightarrow> 'o BtcFetch \<Rightarrow> string \<Rightarrow> string \<Rightarrow> ('o, BroadcastResult) eff" where
  "broadcastRaw cfg fetch rawHex expectedTxid = try_catch
     (bnd (fetch \<lparr>bq_method = ''POST'', bq_url = bc_ESPLORA cfg @ ''/tx'', bq_secret = '''', bq_body = TextBody rawHex\<rparr>) (\<lambda>r.
      bnd (bs_text r) (\<lambda>t. ret (classifyBroadcastResponse (Some (bs_status r)) t expectedTxid))))
     (\<lambda>e. ret (classifyBroadcastResponse None e expectedTxid))"

section \<open>The daemon\<close>

fun value_truthy :: "f64 JsonV option \<Rightarrow> bool" where
  "value_truthy None = False"
| "value_truthy (Some VNull) = False"
| "value_truthy (Some (VBool b)) = b"
| "value_truthy (Some (VNum x)) = (x \<noteq> F64NaN \<and> \<not> f64_eq x (f64_of_int 0))"
| "value_truthy (Some (VStr s)) = (s \<noteq> '''')"
| "value_truthy (Some v) = True"

definition pending_of :: "f64 JsonV \<Rightarrow> PendingBtcWithdrawal" where
  "pending_of v = \<lparr>pw_txId = str_field v ''txId'', pw_evmAddress = str_field v ''evmAddress'',
     pw_amountUnits = (case f64_val (prop_of v ''amountUnits'') of None \<Rightarrow> F64NaN | Some x \<Rightarrow> x)\<rparr>"

definition fetchPending :: "BtcConfig \<Rightarrow> 'o BtcFetch \<Rightarrow> ('o, PendingBtcWithdrawal list) eff" where
  "fetchPending cfg fetch = try_catch
     (bnd (fetch (btc_get (bc_CORE_API_URL cfg @ ''/api/bridge/btc/withdrawals'') '''')) (\<lambda>r.
      bnd (bs_json r) (\<lambda>d. bnd (prop_or_throw d ''withdrawals'') (\<lambda>ws.
      ret (case array_items ws of None \<Rightarrow> [] | Some xs \<Rightarrow> map pending_of xs)))))
     (\<lambda>e. ret [])"

definition fulfill_request :: "BtcConfig \<Rightarrow> string \<Rightarrow> string \<Rightarrow> BtcRequest" where
  "fulfill_request cfg txId btcTxid = \<lparr>bq_method = ''DELETE'', bq_url = bc_CORE_API_URL cfg @ ''/api/bridge/btc/withdrawals/'' @ encodeURIComponent txId,
     bq_secret = bc_RELAYER_SECRET cfg, bq_body = JsonBody (VObj [(''btcTxid'', VStr btcTxid)])\<rparr>"

definition btcFulfill :: "BtcConfig \<Rightarrow> 'o BtcFetch \<Rightarrow> string \<Rightarrow> string \<Rightarrow> ('o, bool) eff" where
  "btcFulfill cfg fetch txId btcTxid = bnd (fetch (fulfill_request cfg txId btcTxid)) (\<lambda>r.
     bnd (try_catch (bs_json r) (\<lambda>e. ret (VObj [(''success'', VBool False)]))) (\<lambda>d.
     bnd (prop_or_throw d ''success'') (\<lambda>ok. ret (value_truthy ok))))"

definition DEPS :: "BtcConfig \<Rightarrow> BtcSigner \<Rightarrow> ('x, btc_file) FsEnv \<Rightarrow> 'x btc_world BtcFetch \<Rightarrow> 'x btc_world BtcPayoutDeps" where
  "DEPS cfg sg fs fetch = \<lparr>bd_live = bc_LIVE cfg, bd_minConfirmations = bc_MIN_CONFIRMATIONS cfg, bd_maxSats = bc_MAX_SATS cfg,
     bd_maxRetries = bc_MAX_RETRIES cfg, bd_dust = DUST, bd_healthOk = daemonHealthOk cfg fetch, bd_isValidDest = isValidDest sg,
     bd_confirmations = txConfirmations cfg fetch, bd_txKnown = txKnown cfg fetch, bd_findExistingPayout = findExistingPayout cfg sg fetch,
     bd_build = buildPayout cfg sg fetch, bd_broadcast = broadcastRaw cfg fetch, bd_fulfill = btcFulfill cfg fetch,
     bd_save = saveState fs (bc_STATE_FILE cfg)\<rparr>"

section \<open>Deposit addresses\<close>

record DepositAddr =
  da_address :: string
  da_index :: int

definition int_val :: "f64 JsonV option \<Rightarrow> int option" where
  "int_val v = Option.bind (f64_val v) BigInt_f64"

definition deposit_addr_of :: "f64 JsonV \<Rightarrow> DepositAddr option" where
  "deposit_addr_of v = (case (str_val (prop_of v ''address''), int_val (prop_of v ''index'')) of
      (Some a, Some i) \<Rightarrow> Some \<lparr>da_address = a, da_index = i\<rparr> | _ \<Rightarrow> None)"

text \<open>\<open>d.k ?? dflt\<close> on an integer.\<close>

fun int_or :: "f64 JsonV option \<Rightarrow> int \<Rightarrow> int option" where
  "int_or None i = Some i"
| "int_or (Some VNull) i = Some i"
| "int_or (Some v) i = int_val (Some v)"

definition fetchDepositAddresses :: "BtcConfig \<Rightarrow> 'o BtcFetch \<Rightarrow> ('o, DepositAddr list \<times> int \<times> int) eff" where
  "fetchDepositAddresses cfg fetch =
     bnd (fetch (btc_get (bc_CORE_API_URL cfg @ ''/api/bridge/btc/deposit-addresses'') (bc_RELAYER_SECRET cfg))) (\<lambda>r.
     bnd (bs_json r) (\<lambda>d. bnd (prop_or_throw d ''success'') (\<lambda>ok.
     if \<not> value_truthy ok then throw (str_or (str_field d ''error'') ''deposit-addresses fetch failed'') else
     bnd (lift_opt ''TypeError'' (if value_truthy (prop_of d ''addresses'') then items_as deposit_addr_of (sub_value d ''addresses'') else Some [])) (\<lambda>addrs.
     bnd (lift_opt ''TypeError'' (int_or (prop_of d ''poolRemaining'') 0)) (\<lambda>poolRemaining.
     bnd (lift_opt ''TypeError'' (int_or (prop_of d ''maxIndex'') (- 1))) (\<lambda>maxIndex.
     ret (addrs, poolRemaining, maxIndex)))))))"

text \<open>The addresses a pool of \<open>remaining\<close> lacks, starting after \<open>maxIndex\<close>. A target that is no number asks for none.\<close>

definition newAddresses :: "BtcSigner \<Rightarrow> f64 \<Rightarrow> int \<Rightarrow> int \<Rightarrow> (int \<times> string) list" where
  "newAddresses sg target remaining maxIndex = (case BigInt_f64 target of
      None \<Rightarrow> []
    | Some t \<Rightarrow> map (\<lambda>k. (maxIndex + 1 + int k, hdAddress sg (maxIndex + 1 + int k))) [0..<nat (t - remaining)])"

definition pool_request :: "BtcConfig \<Rightarrow> (int \<times> string) list \<Rightarrow> BtcRequest" where
  "pool_request cfg addrs = \<lparr>bq_method = ''POST'', bq_url = bc_CORE_API_URL cfg @ ''/api/bridge/btc/deposit-pool'', bq_secret = bc_RELAYER_SECRET cfg,
     bq_body = JsonBody (VObj [(''addresses'', VArr (map (\<lambda>(i, a). VObj [(''index'', VNum (f64_of_int i)), (''address'', VStr a)]) addrs))])\<rparr>"

definition topUpPool :: "BtcConfig \<Rightarrow> BtcSigner \<Rightarrow> 'o BtcFetch \<Rightarrow> ('o, unit) eff" where
  "topUpPool cfg sg fetch = (if \<not> bc_HD_ENABLED cfg then ret () else try_catch
     (bnd (fetchDepositAddresses cfg fetch) (\<lambda>(addrs, poolRemaining, maxIndex).
      if f64_le (f64_sub (bc_POOL_TARGET cfg) (f64_of_int poolRemaining)) (f64_of_int 0) then ret () else
      bnd (fetch (pool_request cfg (newAddresses sg (bc_POOL_TARGET cfg) poolRemaining maxIndex))) (\<lambda>res.
      bnd (bs_json res) (\<lambda>rd. bnd (prop_or_throw rd ''success'') (\<lambda>_. ret ())))))
     (\<lambda>e. ret ()))"

section \<open>Sweeps\<close>

definition sweepFee :: "nat \<Rightarrow> f64 \<Rightarrow> int option" where
  "sweepFee n feeRate = BigInt_f64 (Math_ceil (f64_mul (f64_of_int (int (n * 68 + 31 + 11))) feeRate))"

text \<open>What is broadcast for one address: nothing, or a transaction that moves all its confirmed coins to custody.\<close>

definition sweepTx :: "BtcConfig \<Rightarrow> BtcSigner \<Rightarrow> 'o BtcFetch \<Rightarrow> DepositAddr \<Rightarrow> ('o, SignedTx option) eff" where
  "sweepTx cfg sg fetch a = bnd (getUtxos cfg fetch (da_address a)) (\<lambda>us. let utxos = map plan_utxo (filter ux_confirmed us) in
     bnd (lift_opt ''RangeError'' (sum_values (map pu_value utxos))) (\<lambda>bal.
     if bal < bc_SWEEP_MIN_SATS cfg then ret None else
     bnd (getFeeRate cfg fetch) (\<lambda>feeRate.
     bnd (lift_opt ''RangeError'' (sweepFee (length utxos) feeRate)) (\<lambda>fee.
     if bal \<le> fee + DUST then ret None else
     bnd (lift_sum (sg_sweep sg (da_index a) utxos [(CUSTODY_ADDRESS sg, bal - fee)])) (\<lambda>tx. ret (Some tx))))))"

definition sweepOne :: "BtcConfig \<Rightarrow> BtcSigner \<Rightarrow> 'o BtcFetch \<Rightarrow> DepositAddr \<Rightarrow> ('o, unit) eff" where
  "sweepOne cfg sg fetch a = try_catch
     (bnd (sweepTx cfg sg fetch a) (\<lambda>txo. case txo of
         None \<Rightarrow> ret ()
       | Some tx \<Rightarrow> bnd (fetch \<lparr>bq_method = ''POST'', bq_url = bc_ESPLORA cfg @ ''/tx'', bq_secret = '''', bq_body = TextBody (st_hex tx)\<rparr>) (\<lambda>b.
           bnd (bs_text b) (\<lambda>_. ret ()))))
     (\<lambda>e. ret ())"

definition sweepDeposits :: "BtcConfig \<Rightarrow> BtcSigner \<Rightarrow> 'o BtcFetch \<Rightarrow> ('o, unit) eff" where
  "sweepDeposits cfg sg fetch = (if \<not> bc_HD_ENABLED cfg \<or> \<not> bc_LIVE cfg then ret () else
     attempt (fetchDepositAddresses cfg fetch) (\<lambda>r. case r of
         Inl e \<Rightarrow> ret ()
       | Inr (addrs, _, _) \<Rightarrow> for_each addrs (sweepOne cfg sg fetch)))"

section \<open>One cycle\<close>

text \<open>Given the time of the last deposit run, a cycle returns the new one.\<close>

definition btcLoop :: "BtcConfig \<Rightarrow> BtcSigner \<Rightarrow> ('x, btc_file) FsEnv \<Rightarrow> 'x btc_world BtcFetch \<Rightarrow> int \<Rightarrow> ('x btc_world btc_run, int) io" where
  "btcLoop cfg sg fs fetch lastHdRun =
     bnd (quiet (fetchPending cfg fetch)) (\<lambda>pending.
     bnd (for_each pending (\<lambda>w. try_catch (bnd (processBtcWithdrawal (DEPS cfg sg fs fetch) w) (\<lambda>_. ret ())) (\<lambda>e. ret ()))) (\<lambda>_.
     if \<not> bc_HD_ENABLED cfg then ret lastHdRun else
     bnd (quiet (dateNow fs)) (\<lambda>t. if t - lastHdRun \<le> 120000 then ret lastHdRun else
     bnd (quiet (dateNow fs)) (\<lambda>t'. bnd (quiet (topUpPool cfg sg fetch)) (\<lambda>_. bnd (quiet (sweepDeposits cfg sg fetch)) (\<lambda>_. ret t'))))))"

section \<open>The state file survives crashes\<close>

lemma load_state: "(\<forall>w. fst (fe_read d w) = None) \<Longrightarrow> files s f = Some (Some st) \<Longrightarrow> fst (loadState d f s) = Inr st"
  by (cases "fe_read d (fs_world s)")
    (auto simp: loadState_def existsSync_def readFileSync_def io_defs dest: spec [of _ "fs_world s"])

lemma other_file: "f \<noteq> f @ ''.tmp''"
  by simp

text \<open>Whatever fails and wherever the process dies, the file holds the old state or the new one; after a save that returned, the new one.\<close>

lemma saveState_atomic:
  assumes "saveState d f st s = (r, s')" "seen s = []"
  shows "\<forall>dk \<in> set (files s' # seen s'). dk f = files s f \<or> dk f = Some (Some st)" "r = Inr () \<Longrightarrow> files s' f = Some (Some st)"
  using assms unfolding saveState_def Let_def bnd_def writeFileSync_def renameSync_def to_disk_def
  by (auto simp: fs_result_def last_map split: prod.splits sum.splits option.splits if_splits)

lemma saveState_faultless:
  assumes "faultless d"
  shows "\<exists>w'. saveState d f st s = (Inr (), w')"
proof -
  obtain parts w1 where w: "fe_write d (f @ ''.tmp'') (Some st) (fs_world s) = ((parts, None), w1)"
    using assms unfolding faultless_def by (metis prod.collapse)
  obtain w2 where r: "fe_rename d w1 = (None, w2)" using assms unfolding faultless_def by (metis prod.collapse)
  have wr: "writeFileSync d (f @ ''.tmp'') (Some st) s =
      (Inr (), to_disk (map (\<lambda>g. (files s)(f @ ''.tmp'' \<mapsto> g)) (parts @ [Some st])) w1 s)"
    by (simp add: writeFileSync_def w fs_result_def)
  show ?thesis unfolding saveState_def Let_def bnd_def wr by (simp add: renameSync_def to_disk_def r fs_result_def)
qed

section \<open>What a built payout is\<close>

lemma lift_opt_Inr: "lift_opt e x s = (Inr a, s') \<Longrightarrow> x = Some a \<and> s' = s"
  by (auto simp: lift_opt_def ret_def throw_def split: option.splits)

lemma lift_sum_Inr: "lift_sum x s = (Inr a, s') \<Longrightarrow> x = Inr a \<and> s' = s"
  by (auto simp: lift_sum_def ret_def throw_def split: sum.splits)

lemma signPlan_Built:
  assumes "signPlan sg dest ins pay change fee vsize w = (Inr (Built p), w')"
  shows "\<exists>tx. sg_payout sg ins ((dest, pay) # (if change > 0 then [(CUSTODY_ADDRESS sg, change)] else [])) = Inr tx \<and> st_vsize tx \<le> vsize \<and>
    p = \<lparr>bp_txid = st_id tx, bp_rawHex = st_hex tx, bp_inputs = map outpoint ins, bp_pay = Some (dec_int pay), bp_fee = Some (dec_int fee)\<rparr>"
  using assms unfolding signPlan_def
  by (auto elim!: bnd_Inr_E dest!: lift_sum_Inr simp: ret_def throw_def split: if_splits)

lemma buildPayout_Built:
  assumes "buildPayout cfg sg fetch dest sats exclude w = (Inr (Built p), w')"
  obtains us w1 rate len ins pay change fee vsize w2 where "getUtxos cfg fetch (CUSTODY_ADDRESS sg) w = (Inr us, w1)"
    and "planPayout \<lparr>pp_utxos = spendable exclude us, pp_sats = sats, pp_feeRate = rate, pp_destScriptLen = len,
         pp_maxFee = bc_MAX_NETWORK_FEE_SATS cfg, pp_dust = DUST\<rparr> = Some (PlanOk ins pay change fee vsize)"
    and "signPlan sg dest ins pay change fee vsize w2 = (Inr (Built p), w')"
proof -
  let ?k = "\<lambda>plan. case plan of
         PlanInsufficient have need \<Rightarrow> throw (''insufficient custody balance: have '' @ dec_int have @ '' sats, need '' @ dec_int need)
       | PlanFeeTooHigh fee maxFee \<Rightarrow> ret (BuildFeeTooHigh fee maxFee)
       | PlanBelowMinimum fee pay \<Rightarrow> ret (BuildBelowMinimum fee pay)
       | PlanOk ins pay change fee vsize \<Rightarrow> signPlan sg dest ins pay change fee vsize"
  obtain us w1 where u: "getUtxos cfg fetch (CUSTODY_ADDRESS sg) w = (Inr us, w1)" and
    rest: "(if spendable exclude us = [] then throw ''no confirmed custody UTXOs available'' else
     bnd (getFeeRate cfg fetch) (\<lambda>feeRate.
     bnd (lift_opt ''invalid address'' (sg_scriptLen sg dest)) (\<lambda>destScriptLen.
     bnd (lift_opt ''RangeError'' (planPayout \<lparr>pp_utxos = spendable exclude us, pp_sats = sats, pp_feeRate = feeRate, pp_destScriptLen = destScriptLen,
         pp_maxFee = bc_MAX_NETWORK_FEE_SATS cfg, pp_dust = DUST\<rparr>)) ?k))) w1 = (Inr (Built p), w')"
    using assms unfolding buildPayout_def Let_def by (rule bnd_Inr_E)
  then have "bnd (getFeeRate cfg fetch) (\<lambda>feeRate.
     bnd (lift_opt ''invalid address'' (sg_scriptLen sg dest)) (\<lambda>destScriptLen.
     bnd (lift_opt ''RangeError'' (planPayout \<lparr>pp_utxos = spendable exclude us, pp_sats = sats, pp_feeRate = feeRate, pp_destScriptLen = destScriptLen,
         pp_maxFee = bc_MAX_NETWORK_FEE_SATS cfg, pp_dust = DUST\<rparr>)) ?k)) w1 = (Inr (Built p), w')"
    by (simp add: throw_def split: if_splits)
  then obtain rate len plan w2 where plan: "planPayout \<lparr>pp_utxos = spendable exclude us, pp_sats = sats, pp_feeRate = rate, pp_destScriptLen = len,
         pp_maxFee = bc_MAX_NETWORK_FEE_SATS cfg, pp_dust = DUST\<rparr> = Some plan" and k: "?k plan w2 = (Inr (Built p), w')"
    by (elim bnd_Inr_E) (drule lift_opt_Inr, drule lift_opt_Inr, blast)
  show thesis
  proof (cases plan)
    case (PlanOk ins pay change fee vsize)
    with plan k show ?thesis using that [OF u, of rate len ins pay change fee vsize w2] by simp
  qed (use k in \<open>simp_all add: ret_def throw_def\<close>)
qed

lemma spendable_set: "u \<in> set (spendable exclude us) \<Longrightarrow> outpoint u \<notin> set exclude \<and> (\<exists>x \<in> set us. ux_confirmed x \<and> plan_utxo x = u)"
  by (auto simp: spendable_def)

section \<open>What a scan and a sweep have seen\<close>

lemma scanHistory_None: "scanHistory custody dest sats maxFee known txs = Some None \<Longrightarrow>
    \<forall>tx \<in> set txs. et_txid tx \<in> set known \<or> payoutSettles tx custody dest sats maxFee = Some False"
  by (induction txs) (auto split: if_splits option.splits)

text \<open>``Nothing there'' is answered only after the history was read and every transaction in it was looked at.\<close>

lemma no_payout_found:
  assumes "findExistingPayout cfg sg fetch dest sats known w = (Inr None, w')"
  shows "\<exists>v txs. esploraJson cfg fetch (''/address/'' @ CUSTODY_ADDRESS sg @ ''/txs'') w = (Inr v, w') \<and> items_as tx_of v = Some txs \<and>
    (\<forall>tx \<in> set txs. et_txid tx \<in> set known \<or> payoutSettles tx (CUSTODY_ADDRESS sg) dest sats (bc_MAX_NETWORK_FEE_SATS cfg) = Some False)"
  using assms unfolding findExistingPayout_def
  by (elim try_catch_Inr_E) (auto simp: throw_def elim!: bnd_Inr_E dest!: lift_opt_Inr scanHistory_None)

text \<open>A sweep moves all confirmed coins of the address to custody, less the fee, and only when more than dust is left.\<close>

lemma sweep_moves_everything:
  assumes "sweepTx cfg sg fetch a w = (Inr (Some tx), w')"
  shows "\<exists>us w1 bal fee. getUtxos cfg fetch (da_address a) w = (Inr us, w1) \<and> sum_values (map pu_value (map plan_utxo (filter ux_confirmed us))) = Some bal \<and>
    sg_sweep sg (da_index a) (map plan_utxo (filter ux_confirmed us)) [(CUSTODY_ADDRESS sg, bal - fee)] = Inr tx \<and> \<not> bal \<le> fee + DUST \<and> \<not> bal < bc_SWEEP_MIN_SATS cfg"
  using assms unfolding sweepTx_def Let_def
  by (elim bnd_Inr_E) (fastforce simp: ret_def elim!: bnd_Inr_E dest!: lift_opt_Inr lift_sum_Inr split: if_splits)

section \<open>Cycles and restarts\<close>

text \<open>A transaction the signing library returns has an id.\<close>

definition signer_names :: "BtcSigner \<Rightarrow> bool" where
  "signer_names sg = (\<forall>ins outs tx. sg_payout sg ins outs = Inr tx \<longrightarrow> st_id tx \<noteq> '''')"

lemma DEPS_builds_named: "signer_names sg \<Longrightarrow> builds_named (DEPS cfg sg fs fetch)"
  unfolding builds_named_def signer_names_def DEPS_def
  by (auto elim!: buildPayout_Built dest!: signPlan_Built)

lemma DEPS_reliable: "faultless fs \<Longrightarrow> reliable True (DEPS cfg sg fs fetch)"
  using saveState_faultless by (auto simp: reliable_def DEPS_def)

text \<open>A cycle starts in any world; a reboot goes on with the state of the last save.\<close>

datatype 'x btc_life = Cycle "'x btc_world" int | Reboot

definition btc_live_step :: "BtcConfig \<Rightarrow> BtcSigner \<Rightarrow> ('x, btc_file) FsEnv \<Rightarrow> 'x btc_world BtcFetch \<Rightarrow> BtcState \<Rightarrow> 'x btc_life \<Rightarrow> 'x btc_world btc_run \<Rightarrow> 'x btc_world btc_run" where
  "btc_live_step cfg sg fs fetch st0 step s = (case step of
      Cycle w t \<Rightarrow> exec (btcLoop cfg sg fs fetch t) (s\<lparr>world := w\<rparr>)
    | Reboot \<Rightarrow> s\<lparr>btc_entries := on_disk st0 (trace s)\<rparr>)"

lemma btc_inv_world: "btc_inv rel st0 d s \<Longrightarrow> btc_inv rel st0 d (s\<lparr>world := w\<rparr>)"
  by (simp add: btc_inv_def)

lemma keeps_unseen: "(\<And>s w. I s \<Longrightarrow> I (s\<lparr>world := w\<rparr>)) \<Longrightarrow> keeps I (quiet f)"
  by (rule triple_quiet) simp_all

lemma btcLoop_keeps:
  assumes "signer_names sg" "faultless fs"
  shows "keeps (btc_inv True st0 (DEPS cfg sg fs fetch)) (btcLoop cfg sg fs fetch t)"
  unfolding btcLoop_def
  by (intro keeps_rules keeps_unseen btc_inv_world processBtcWithdrawal_keeps DEPS_builds_named DEPS_reliable assms)

interpretation btc_lives: invariant_machine "btc_live_step cfg sg fs fetch st0" "\<lambda>_. signer_names sg \<and> faultless fs" "btc_inv True st0 (DEPS cfg sg fs fetch)"
  for cfg sg and fs :: "('x, btc_file) FsEnv" and fetch st0
proof
  fix s step
  assume inv: "btc_inv True st0 (DEPS cfg sg fs fetch) s" and ok: "signer_names sg \<and> faultless fs"
  show "btc_inv True st0 (DEPS cfg sg fs fetch) (btc_live_step cfg sg fs fetch st0 step s)"
  proof (cases step)
    case (Cycle w t)
    then show ?thesis
      using keeps_exec [OF btcLoop_keeps [of sg fs st0 cfg fetch t] btc_inv_world [OF inv, of w]] ok by (simp add: btc_live_step_def)
  next
    case Reboot
    then show ?thesis using restart_keeps [of st0 "DEPS cfg sg fs fetch" s] inv by (simp add: btc_live_step_def)
  qed
qed

section \<open>Properties\<close>


text \<open>C23: A payout the relayer signs is exactly the planned one. Whatever Esplora answers, a payout that was built spends
  coins that Esplora listed as confirmed for the custody address and that no other payout reserves; the transaction signed
  for it pays the destination and returns the change to custody, nothing else; and inputs are payment plus change plus
  fee, with the fee within the configured limit, the payment above dust, and payment plus fee the amount owed, or at most
  the dust limit more where there is no change output.\<close>

theorem built_payout_is_exact:
  assumes "buildPayout cfg sg fetch dest sats exclude w = (Inr (Built p), w')"
  shows "\<exists>us w1 ins vals pay change fee tx. getUtxos cfg fetch (CUSTODY_ADDRESS sg) w = (Inr us, w1) \<and>
    sg_payout sg ins ((dest, pay) # (if change > 0 then [(CUSTODY_ADDRESS sg, change)] else [])) = Inr tx \<and>
    bp_txid p = st_id tx \<and> bp_rawHex p = st_hex tx \<and> bp_inputs p = map outpoint ins \<and>
    (\<forall>u \<in> set ins. outpoint u \<notin> set exclude \<and> (\<exists>x \<in> set us. ux_confirmed x \<and> plan_utxo x = u)) \<and>
    coins ins vals \<and> sum_list vals = pay + change + fee \<and> fee \<le> bc_MAX_NETWORK_FEE_SATS cfg \<and> pay > DUST \<and>
    (pay + fee = sats \<or> change = 0 \<and> sats \<le> pay + fee \<and> pay + fee \<le> sats + DUST)"
proof -
  obtain us w1 rate len ins pay change fee vsize w2 where u: "getUtxos cfg fetch (CUSTODY_ADDRESS sg) w = (Inr us, w1)"
    and plan: "planPayout \<lparr>pp_utxos = spendable exclude us, pp_sats = sats, pp_feeRate = rate, pp_destScriptLen = len,
         pp_maxFee = bc_MAX_NETWORK_FEE_SATS cfg, pp_dust = DUST\<rparr> = Some (PlanOk ins pay change fee vsize)"
    and sign: "signPlan sg dest ins pay change fee vsize w2 = (Inr (Built p), w')"
    using buildPayout_Built [OF assms] .
  obtain inSats where i: "selectInputs sats DUST (sort_by_value (spendable exclude us)) [] 0 = Some (ins, inSats)"
      "inSats \<ge> sats" "inSats = pay + change + fee" "fee \<le> bc_MAX_NETWORK_FEE_SATS cfg" "pay > DUST"
      "change = 0 \<and> inSats \<le> sats + DUST \<or> change = 0 \<and> inSats = sats \<or> change > DUST \<and> change = inSats - sats"
    using planPayout_cases [OF plan] by auto
  have "coins [] []" "sum_list [] = (0::int)" by (simp_all add: coins_def)
  from selectInputs_coins [OF i(1) this] obtain vals where vals: "coins ins vals" "sum_list vals = inSats"
      and sub: "mset ins \<subseteq># mset (spendable exclude us)"
    by (auto simp: mset_sort_by_value)
  have "set ins \<subseteq> set (spendable exclude us)" using set_mset_mono [OF sub] by simp
  then have spend: "\<forall>u \<in> set ins. outpoint u \<notin> set exclude \<and> (\<exists>x \<in> set us. ux_confirmed x \<and> plan_utxo x = u)"
    using spendable_set by blast
  obtain tx where tx: "sg_payout sg ins ((dest, pay) # (if change > 0 then [(CUSTODY_ADDRESS sg, change)] else [])) = Inr tx"
      and p: "p = \<lparr>bp_txid = st_id tx, bp_rawHex = st_hex tx, bp_inputs = map outpoint ins, bp_pay = Some (dec_int pay), bp_fee = Some (dec_int fee)\<rparr>"
    using signPlan_Built [OF sign] by blast
  have owed: "pay + fee = sats \<or> change = 0 \<and> sats \<le> pay + fee \<and> pay + fee \<le> sats + DUST" using i(2,3,6) by auto
  show ?thesis
    by (intro exI [of _ us] exI [of _ w1] exI [of _ ins] exI [of _ vals] exI [of _ pay] exI [of _ change] exI [of _ fee] exI [of _ tx] conjI)
      (rule u tx spend vals i(4,5) owed | simp only: p BuiltPayout.simps vals(2) i(3))+
qed
section \<open>Samples\<close>

definition sample_btc_config :: BtcConfig where
  "sample_btc_config = \<lparr>bc_CORE_API_URL = ''http://d'', bc_RELAYER_SECRET = ''s'', bc_IS_TESTNET = True, bc_ESPLORA = ''http://e'',
     bc_MIN_CONFIRMATIONS = f64_of_int 2, bc_MAX_SATS = 0, bc_FEE_TARGET_BLOCKS = ''3'', bc_MAX_NETWORK_FEE_SATS = 10000, bc_LIVE = True,
     bc_MAX_RETRIES = f64_of_int 3, bc_STATE_FILE = ''b.json'', bc_HD_ENABLED = False, bc_POOL_TARGET = f64_of_int 20, bc_SWEEP_MIN_SATS = 2000\<rparr>"

definition sample_signer :: BtcSigner where
  "sample_signer = \<lparr>CUSTODY_ADDRESS = ''bc1c'', sg_scriptLen = (\<lambda>_. Some 22), sg_payout = (\<lambda>_ _. Inr \<lparr>st_id = ''aa'', st_hex = ''01'', st_vsize = 141\<rparr>),
     hdAddress = (\<lambda>_. ''bc1d''), sg_sweep = (\<lambda>_ _ _. Inl ''no seed'')\<rparr>"

definition sample_btc_fs :: "(unit, btc_file) FsEnv" where
  "sample_btc_fs = \<lparr>fe_write = (\<lambda>f c w. (([], None), w)), fe_rename = Pair None, fe_unlink = Pair None, fe_read = Pair None,
     fe_now = Pair 1700000000000, fe_pid = 42\<rparr>"

text \<open>Every request is answered with ``not found'' and a body that lists one withdrawal.\<close>

definition not_found :: "unit btc_world BtcFetch" where
  "not_found rq = Pair (Inr \<lparr>bs_status = 404, bs_body = Inr (''gone'', Some (VObj [(''withdrawals'', VArr [VObj [(''txId'', VStr ''w1''),
     (''evmAddress'', VStr ''bc1q''), (''amountUnits'', VNum (f64_of_int 5000))]])]))\<rparr>)"

text \<open>Esplora that knows the coins of the custody address and nothing else.\<close>

definition coins_only :: "unit btc_world BtcFetch" where
  "coins_only rq = Pair (if bq_url rq = ''http://e/address/bc1c/utxo'' then Inr \<lparr>bs_status = 200, bs_body = Inr (''[]'', Some (VArr [VObj [(''txid'', VStr ''bb''),
     (''vout'', VNum (f64_of_int 2)), (''value'', VNum (f64_of_int 70000)), (''status'', VObj [(''confirmed'', VBool True)])]]))\<rparr>
     else Inl ''ECONNREFUSED'')"

lemma sample_cycle:
  "trace (btc_live_step sample_btc_config sample_signer sample_btc_fs not_found [(''w1'', sample_planned)] (Cycle (boot Map.empty ()) 0) (start [(''w1'', sample_planned)] (boot Map.empty ()))) =
     [BvSave [(''w1'', sample_planned\<lparr>en_planned := None\<rparr>)] (Inr ())] @ BvBroadcast ''w1'' ''01'' ''aa'' (Inr (Rejected ''gone'' False)) # [BvKnown ''aa'' (Inr (Some False))]"
proof -
  have c: "classifyBroadcastResponse (Some 404) ''gone'' ''aa'' = Rejected ''gone'' False" by code_simp
  have pend: "fetchPending sample_btc_config not_found w = (Inr [sample_withdrawal], w)" for w
    by (simp add: fetchPending_def not_found_def io_defs bs_json_def prop_or_throw_def pending_of_def str_field_def sample_withdrawal_def)
  have known: "txKnown sample_btc_config not_found t w = (Inr (Some False), w)" for t w
    by (simp add: txKnown_def not_found_def io_defs)
  have send: "broadcastRaw sample_btc_config not_found h ''aa'' w = (Inr (Rejected ''gone'' False), w)" for h w
    by (simp add: broadcastRaw_def not_found_def io_defs bs_text_def c)
  have cfg: "\<not> bc_HD_ENABLED sample_btc_config" "bc_LIVE sample_btc_config" "bc_MAX_SATS sample_btc_config = 0" by (simp_all add: sample_btc_config_def)
  obtain w' where save: "saveState sample_btc_fs f st w = (Inr (), w' f st w)" for f st w
    using saveState_faultless [of sample_btc_fs] by (auto simp: faultless_def sample_btc_fs_def) metis
  show ?thesis
    by (simp add: btc_live_step_def btcLoop_def exec_def quiet_def bnd_def pend try_catch_def cfg DEPS_def btc_run_defs sample_withdrawal_def
        start_def sample_sats sample_dest map_get_def DUST_def isValidDest_def sample_signer_def sample_planned_def sample_payout_def known send save)
qed

lemma sample_build: "\<exists>w. buildPayout sample_btc_config sample_signer coins_only ''bc1q'' 50000 [] (boot Map.empty ()) =
    (Inr (Built \<lparr>bp_txid = ''aa'', bp_rawHex = ''01'', bp_inputs = [''bb:2''], bp_pay = Some (dec_int 49295), bp_fee = Some (dec_int 705)\<rparr>), w)"
proof -
  let ?u = "\<lparr>pu_txid = ''bb'', pu_vout = 2, pu_value = f64_of_int 70000\<rparr>"
  have big: "BigInt_f64 (f64_of_int 70000) = Some 70000" "BigInt_f64 (f64_of_int 2) = Some 2" using BigInt_of_nat [of 70000] BigInt_of_nat [of 2] by simp_all
  have size: "p2wpkhVsize (length [x]) [22, P2WPKH_SCRIPT_LEN] = Some 141" for x :: PlanUtxo
    by (simp add: p2wpkhVsize_def varIntLen_def P2WPKH_SCRIPT_LEN_def Let_def)
  have fee: "feeForVsize 141 (f64_of_int 5) = Some 705" using feeForVsize_integral [of 5 141] by simp
  have plan: "planPayout \<lparr>pp_utxos = [?u], pp_sats = 50000, pp_feeRate = f64_of_int 5, pp_destScriptLen = 22, pp_maxFee = 10000, pp_dust = DUST\<rparr> =
      Some (PlanOk [?u] 49295 20000 705 141)"
    unfolding planPayout_def by (simp only: PlanParams.simps) (simp add: sort_by_value_def big Let_def size [simplified] fee DUST_def)
  have rate: "getFeeRate sample_btc_config coins_only w = (Inr (f64_of_int 5), w)" for w
    by (simp add: getFeeRate_def esploraJson_def esploraGet_def coins_only_def sample_btc_config_def btc_get_def io_defs)
  have us: "getUtxos sample_btc_config coins_only ''bc1c'' w = (Inr [\<lparr>pu_txid = ''bb'', pu_vout = 2, pu_value = f64_of_int 70000, ux_confirmed = True\<rparr>], w)" for w
    by (simp add: getUtxos_def esploraJson_def esploraGet_def coins_only_def sample_btc_config_def btc_get_def bs_ok_def bs_json_def io_defs items_as_def
        utxo_of_def big sub_value_def)
  have sp: "spendable [] [\<lparr>pu_txid = ''bb'', pu_vout = 2, pu_value = f64_of_int 70000, ux_confirmed = True\<rparr>] = [?u]"
    by (simp add: spendable_def plan_utxo_def PlanUtxo.defs)
  have ops: "outpoint ?u = ''bb:2''" unfolding outpoint_def by simp code_simp
  show ?thesis
    by (simp add: buildPayout_def bnd_def us sp rate plan lift_opt_def lift_sum_def ret_def sample_signer_def signPlan_def ops Let_def)
      (simp add: sample_btc_config_def plan ret_def bnd_def signPlan_def lift_sum_def ops)
qed

theorem built_payout_is_exact_witness:
  "\<exists>ins vals pay change fee. [''bb:2''] = map outpoint ins \<and> coins ins vals \<and> sum_list vals = pay + change + fee \<and> pay > DUST"
proof -
  obtain w where run: "buildPayout sample_btc_config sample_signer coins_only ''bc1q'' 50000 [] (boot Map.empty ()) =
    (Inr (Built \<lparr>bp_txid = ''aa'', bp_rawHex = ''01'', bp_inputs = [''bb:2''], bp_pay = Some (dec_int 49295), bp_fee = Some (dec_int 705)\<rparr>), w)"
    using sample_build by blast
  from built_payout_is_exact [OF run] show ?thesis by (elim exE conjE) (intro exI conjI, simp_all)
qed

end
