(* ===== verification/Rouge_Address.thy ===== *)
theory Rouge_Address
  imports Js_Prelude "HOL-Library.Word"
begin

text \<open>
  The Bech32m addresses of \<open>packages/core/src/address.ts\<close>. Numbers under the bit operators are 32-bit words with the
  signed right shift of the source; byte arrays are lists of 8-bit words. SHA-256 is a parameter.

  The theorems: encoding and decoding are inverse although the bit accumulator of the source overflows its 32 bits,
  the checksum of an encoded address verifies, and no single wrong character after the separator is accepted.
\<close>

unbundle bit_operations_syntax

section \<open>Checksum\<close>

definition CHARSET :: string where
  "CHARSET = ''qpzry9x8gf2tvdw0s3jn54khce6mua7l''"

definition BECH32M_CONST :: "32 word" where
  "BECH32M_CONST = 0x2bc830a3"

definition HRP :: string where
  "HRP = ''rouge''"

definition charCode :: "char \<Rightarrow> 32 word" where
  "charCode c = of_nat (of_char c)"

definition hrpExpand :: "string \<Rightarrow> 32 word list" where
  "hrpExpand hrp = map (\<lambda>c. signed_drop_bit 5 (charCode c)) hrp @ [0] @ map (\<lambda>c. charCode c AND 31) hrp"

definition GEN :: "32 word list" where
  "GEN = [0x3b6a57b2, 0x26508e6d, 0x1ea119fa, 0x3d4233dd, 0x2a1462b3]"

text \<open>The inner loop over the generator.\<close>

definition mixGen :: "32 word \<Rightarrow> 32 word \<Rightarrow> 32 word" where
  "mixGen b chk = foldl (\<lambda>c i. if signed_drop_bit i b AND 1 \<noteq> 0 then c XOR GEN ! i else c) chk [0, 1, 2, 3, 4]"

definition polymod_step :: "32 word \<Rightarrow> 32 word \<Rightarrow> 32 word" where
  "polymod_step chk v = (let b = signed_drop_bit 25 chk in mixGen b (push_bit 5 (chk AND 0x1ffffff) XOR v))"

definition polymod :: "32 word list \<Rightarrow> 32 word" where
  "polymod values = foldl polymod_step 1 values"

definition createChecksum :: "string \<Rightarrow> 32 word list \<Rightarrow> 32 word list" where
  "createChecksum hrp data = (let pm = polymod (hrpExpand hrp @ data @ [0, 0, 0, 0, 0, 0]) XOR BECH32M_CONST in
     map (\<lambda>i. signed_drop_bit (5 * (5 - i)) pm AND 31) [0, 1, 2, 3, 4, 5])"

definition verifyChecksum :: "string \<Rightarrow> 32 word list \<Rightarrow> bool" where
  "verifyChecksum hrp data = (polymod (hrpExpand hrp @ data) = BECH32M_CONST)"

section \<open>Regrouping bits\<close>

text \<open>The \<open>while\<close> loop: full groups are taken from the top of the accumulator. All calls have \<open>toBits\<close> 5 or 8; with 0 the source's
  loop would not end, and the model takes no group.\<close>

fun drain :: "nat \<Rightarrow> 32 word \<Rightarrow> nat \<Rightarrow> 32 word list \<times> nat" where
  "drain toBits acc bits = (if toBits = 0 \<or> bits < toBits then ([], bits)
     else (case drain toBits acc (bits - toBits) of (gs, rest) \<Rightarrow> ((signed_drop_bit (bits - toBits) acc AND (push_bit toBits 1 - 1)) # gs, rest)))"

declare drain.simps [simp del]

text \<open>The loop over the input, from an accumulator and the number of bits waiting in it.\<close>

fun regroup :: "nat \<Rightarrow> nat \<Rightarrow> 32 word \<Rightarrow> nat \<Rightarrow> 32 word list \<Rightarrow> 32 word list \<times> 32 word \<times> nat" where
  "regroup fromBits toBits acc bits [] = ([], acc, bits)"
| "regroup fromBits toBits acc bits (value # data) = (let acc' = push_bit fromBits acc OR value in
     case drain toBits acc' (bits + fromBits) of (gs, bits') \<Rightarrow>
     case regroup fromBits toBits acc' bits' data of (rest, acc'', bits'') \<Rightarrow> (gs @ rest, acc'', bits''))"

definition convertBits :: "32 word list \<Rightarrow> nat \<Rightarrow> nat \<Rightarrow> bool \<Rightarrow> exn + 32 word list" where
  "convertBits data fromBits toBits pad = (case regroup fromBits toBits 0 0 data of (ret, acc, bits) \<Rightarrow>
     let maxv = push_bit toBits 1 - 1; tail = push_bit (toBits - bits) acc AND maxv in
     if pad then Inr (ret @ (if bits > 0 then [tail] else []))
     else if bits \<ge> fromBits \<or> tail \<noteq> 0 then Inl ''Invalid bit conversion'' else Inr ret)"

definition convertBitsBack :: "32 word list \<Rightarrow> nat \<Rightarrow> nat \<Rightarrow> 8 word list" where
  "convertBitsBack data fromBits toBits = (case regroup fromBits toBits 0 0 data of (ret, acc, bits) \<Rightarrow> map ucast ret)"

section \<open>Encoding and decoding\<close>

definition bech32mEncode :: "string \<Rightarrow> 8 word list \<Rightarrow> exn + string" where
  "bech32mEncode hrp data = (case convertBits (map ucast data) 8 5 True of
      Inl e \<Rightarrow> Inl e
    | Inr data5bit \<Rightarrow> Inr (hrp @ ''1'' @ map (\<lambda>d. CHARSET ! unat d) (data5bit @ createChecksum hrp data5bit)))"

text \<open>\<open>lastIndexOf\<close> and \<open>indexOf\<close> of a character, with \<^const>\<open>None\<close> for -1.\<close>

fun indexOf_char :: "char \<Rightarrow> string \<Rightarrow> nat option" where
  "indexOf_char c [] = None"
| "indexOf_char c (x # xs) = (if x = c then Some 0 else map_option Suc (indexOf_char c xs))"

definition lastIndexOf_char :: "char \<Rightarrow> string \<Rightarrow> nat option" where
  "lastIndexOf_char c s = map_option (\<lambda>i. length s - 1 - i) (indexOf_char c (rev s))"

fun decodeChars :: "string \<Rightarrow> exn + 32 word list" where
  "decodeChars [] = Inr []"
| "decodeChars (c # cs) = (case indexOf_char c CHARSET of
      None \<Rightarrow> Inl (''Invalid character: '' @ [c])
    | Some d \<Rightarrow> (case decodeChars cs of Inl e \<Rightarrow> Inl e | Inr ds \<Rightarrow> Inr (of_nat d # ds)))"

definition bech32mDecode :: "string \<Rightarrow> exn + string \<times> 8 word list" where
  "bech32mDecode str = (let lower = toLowerCase str in
     case lastIndexOf_char (CHR ''1'') lower of
       None \<Rightarrow> Inl ''Invalid bech32m string''
     | Some pos \<Rightarrow> if pos < 1 \<or> pos + 7 > length lower then Inl ''Invalid bech32m string'' else
         (case decodeChars (drop (pos + 1) lower) of
            Inl e \<Rightarrow> Inl e
          | Inr data5bit \<Rightarrow> if \<not> verifyChecksum (take pos lower) data5bit then Inl ''Invalid bech32m checksum''
              else Inr (take pos lower, convertBitsBack (take (length data5bit - 6) data5bit) 5 8)))"

section \<open>Hex\<close>

definition hex_digit_value :: "char \<Rightarrow> nat option" where
  "hex_digit_value c = indexOf_char c ''0123456789abcdef''"

fun hex_prefix :: "nat \<Rightarrow> string \<Rightarrow> nat" where
  "hex_prefix n [] = n"
| "hex_prefix n (c # cs) = (case hex_digit_value c of None \<Rightarrow> n | Some d \<Rightarrow> hex_prefix (16 * n + d) cs)"

text \<open>\<open>parseInt(s, 16)\<close>: white space, a sign and \<open>0x\<close> are skipped, the digits up to the first other character count; \<^const>\<open>None\<close> is
  \<open>NaN\<close>.\<close>

definition parseInt16 :: "string \<Rightarrow> int option" where
  "parseInt16 s = (let t = toLowerCase (trimStart s); neg = (t \<noteq> [] \<and> hd t = CHR ''-'');
       u = (if t \<noteq> [] \<and> (hd t = CHR ''-'' \<or> hd t = CHR ''+'') then tl t else t);
       v = (if take 2 u = ''0x'' then drop 2 u else u) in
     if v = [] \<or> hex_digit_value (hd v) = None then None else Some (if neg then - int (hex_prefix 0 v) else int (hex_prefix 0 v)))"

text \<open>A byte array takes a number modulo 256 and \<open>NaN\<close> as 0; a write beyond its end is ignored.\<close>

definition hexByte :: "string \<Rightarrow> 8 word" where
  "hexByte s = (case parseInt16 s of None \<Rightarrow> 0 | Some i \<Rightarrow> of_int i)"

definition hexToBytes :: "string \<Rightarrow> 8 word list" where
  "hexToBytes hex = map (\<lambda>k. hexByte (take 2 (drop (2 * k) hex))) [0..<length hex div 2]"

definition bytesToHex :: "8 word list \<Rightarrow> string" where
  "bytesToHex bytes = concat (map (\<lambda>b. [''0123456789abcdef'' ! (unat b div 16), ''0123456789abcdef'' ! (unat b mod 16)]) bytes)"

section \<open>Addresses\<close>

definition pubkeyToAddress :: "(8 word list \<Rightarrow> 8 word list) \<Rightarrow> string \<Rightarrow> exn + string" where
  "pubkeyToAddress sha256 publicKeyHex = bech32mEncode HRP (sha256 (hexToBytes publicKeyHex))"

definition hashToAddress :: "string \<Rightarrow> exn + string" where
  "hashToAddress hashHex = bech32mEncode HRP (hexToBytes hashHex)"

definition addressToHash :: "string \<Rightarrow> exn + string" where
  "addressToHash address = (case bech32mDecode address of Inl e \<Rightarrow> Inl e | Inr (hrp, data) \<Rightarrow> Inr (bytesToHex data))"

definition isRougeAddress :: "string \<Rightarrow> bool" where
  "isRougeAddress input = (if take 6 (toLowerCase input) \<noteq> ''rouge1'' \<or> length input < 10 then False
     else (case bech32mDecode input of Inl e \<Rightarrow> False | Inr r \<Rightarrow> True))"

text \<open>\<open>s.slice(-n)\<close>.\<close>

definition slice_end :: "nat \<Rightarrow> string \<Rightarrow> string" where
  "slice_end n s = (if n = 0 then s else drop (length s - n) s)"

definition shorten :: "nat \<Rightarrow> nat \<Rightarrow> string \<Rightarrow> string" where
  "shorten prefixLen suffixLen s = (if length s \<le> prefixLen + suffixLen + 3 then s
     else take prefixLen s @ ''...'' @ slice_end suffixLen s)"

definition formatAddress :: "string \<Rightarrow> nat \<Rightarrow> nat \<Rightarrow> string" where
  "formatAddress address prefixLen suffixLen = shorten prefixLen suffixLen address"

definition formatPubkey :: "string \<Rightarrow> nat \<Rightarrow> nat \<Rightarrow> string" where
  "formatPubkey pubkey prefixLen suffixLen = shorten prefixLen suffixLen pubkey"

definition formatIdentity :: "string \<Rightarrow> string" where
  "formatIdentity input = (if isRougeAddress input then formatAddress input 12 4 else formatPubkey input 8 4)"

section \<open>Bits\<close>

text \<open>The low \<open>n\<close> bits of a word, highest first.\<close>

definition to_bits :: "nat \<Rightarrow> 'a::len word \<Rightarrow> bool list" where
  "to_bits n w = rev (map (bit w) [0..<n])"

lemma length_to_bits [simp]: "length (to_bits n w) = n"
  by (simp add: to_bits_def)

lemma nth_to_bits: "i < n \<Longrightarrow> to_bits n w ! i = bit w (n - 1 - i)"
  by (simp add: to_bits_def rev_nth)

lemma to_bits_bit: "to_bits n v = to_bits n w \<Longrightarrow> i < n \<Longrightarrow> bit v i = bit w i"
  by (simp add: to_bits_def)

lemma to_bits_inject: "to_bits LENGTH('a) v = to_bits LENGTH('a) w \<Longrightarrow> v = (w :: 'a::len word)"
  by (rule bit_word_eqI) (rule to_bits_bit)

lemma to_bits_append: "to_bits (m + n) w = to_bits m (drop_bit n w) @ to_bits n w"
proof -
  have "[0..<n + m] = [0..<n] @ map (\<lambda>i. i + n) [0..<m]"
    unfolding map_add_upt by (subst upt_add_eq_append) (simp_all add: add.commute)
  then show ?thesis by (simp add: to_bits_def o_def bit_drop_bit_eq add.commute)
qed

lemma to_bits_cong: "(\<And>i. i < n \<Longrightarrow> bit v i = bit w i) \<Longrightarrow> to_bits n v = to_bits n w"
  by (auto simp: to_bits_def)

text \<open>Values of \<open>n\<close> bits.\<close>

definition fits :: "nat \<Rightarrow> 'a::len word \<Rightarrow> bool" where
  "fits n w = (\<forall>i \<ge> n. \<not> bit w i)"

lemma to_bits_inject_fits: "fits n v \<Longrightarrow> fits n w \<Longrightarrow> to_bits n v = to_bits n w \<Longrightarrow> v = w"
  by (rule bit_word_eqI) (metis fits_def not_less to_bits_bit)

lemma bit_maxv: "bit (2 ^ n - 1 :: 32 word) i \<longleftrightarrow> i < n \<and> i < 32"
  using bit_mask_iff [of n i, where 'a = "32 word"] by (auto simp: mask_eq_exp_minus_1)

lemma bit_signed_drop:
  assumes "i + n < 32"
  shows "bit (signed_drop_bit n (w :: 32 word)) i = bit w (i + n)"
proof -
  have "\<not> (LENGTH(32) - n \<le> i \<and> i < LENGTH(32))" using assms by simp
  then show ?thesis unfolding bit_signed_drop_bit_iff by (simp only: if_False add.commute)
qed

lemma group_bits:
  assumes "n + k \<le> 32" "k < 32"
  shows "to_bits k (signed_drop_bit n acc AND (push_bit k 1 - 1)) = to_bits k (drop_bit n (acc :: 32 word))"
    "fits k (signed_drop_bit n acc AND (push_bit k 1 - 1) :: 32 word)"
  using assms by (auto intro!: to_bits_cong simp: bit_and_iff bit_maxv bit_signed_drop bit_drop_bit_eq add.commute fits_def)

lemma drain_bits:
  assumes "drain k acc bits = (gs, rest)" "0 < k" "k < 32" "bits \<le> 32"
  shows "to_bits bits acc = concat (map (to_bits k) gs) @ to_bits rest acc \<and> rest < k \<and> list_all (fits k) gs"
  using assms
proof (induction k acc bits arbitrary: gs rule: drain.induct)
  case (1 k acc bits)
  show ?case
  proof (cases "bits < k")
    case True
    then show ?thesis using 1(2) by (simp add: drain.simps)
  next
    case False
    then obtain gs' where d: "drain k acc (bits - k) = (gs', rest)" and gs: "gs = (signed_drop_bit (bits - k) acc AND (push_bit k 1 - 1)) # gs'"
      using 1(2,3) by (auto simp: drain.simps [of k acc bits] split: prod.splits)
    have "to_bits bits acc = to_bits k (drop_bit (bits - k) acc) @ to_bits (bits - k) acc"
      using to_bits_append [of k "bits - k" acc] False by simp
    then show ?thesis using 1(1) [OF _ d] False 1(3-5) group_bits [of "bits - k" k acc] gs by auto
  qed
qed

lemma regroup_bits:
  assumes "regroup m k acc bits data = (gs, acc', bits')" "bits < k" "0 < k" "k \<le> 8" "m \<le> 8" "list_all (fits m) data"
  shows "to_bits bits acc @ concat (map (to_bits m) data) = concat (map (to_bits k) gs) @ to_bits bits' acc' \<and> bits' < k \<and> list_all (fits k) gs"
  using assms
proof (induction data arbitrary: acc bits gs)
  case (Cons v data)
  let ?acc = "push_bit m acc OR v"
  obtain gs1 b1 where d: "drain k ?acc (bits + m) = (gs1, b1)" by fastforce
  obtain gs2 where r: "regroup m k ?acc b1 data = (gs2, acc', bits')" and gs: "gs = gs1 @ gs2"
    using Cons.prems(1) d by (auto simp: Let_def split: prod.splits)
  have dr: "to_bits (bits + m) ?acc = concat (map (to_bits k) gs1) @ to_bits b1 ?acc" "b1 < k" "list_all (fits k) gs1"
    using drain_bits [OF d] Cons.prems(2-5) by auto
  have "to_bits bits (drop_bit m ?acc) = to_bits bits acc" "to_bits m ?acc = to_bits m v"
    using Cons.prems(2,4,5,6) by (auto intro!: to_bits_cong simp: bit_drop_bit_eq bit_or_iff bit_push_bit_iff fits_def)
  then have "to_bits (bits + m) ?acc = to_bits bits acc @ to_bits m v" by (simp add: to_bits_append)
  then have eq: "to_bits bits acc @ to_bits m v = concat (map (to_bits k) gs1) @ to_bits b1 ?acc" using dr(1) by simp
  have IH: "to_bits b1 ?acc @ concat (map (to_bits m) data) = concat (map (to_bits k) gs2) @ to_bits bits' acc'" "bits' < k" "list_all (fits k) gs2"
    using Cons.IH [OF r dr(2)] Cons.prems(3-6) by auto
  have "to_bits bits acc @ concat (map (to_bits m) (v # data)) = (to_bits bits acc @ to_bits m v) @ concat (map (to_bits m) data)" by simp
  then show ?case unfolding eq using IH dr(3) gs by simp
qed simp
lemma length_concat_bits [simp]: "length (concat (map (to_bits n) xs)) = n * length xs"
  by (induction xs) simp_all

lemma bytes_from_bits:
  assumes "concat (map (to_bits 8) xs) @ rest = concat (map (to_bits 8) ys) @ zeros" "length rest < 8" "length zeros < 8"
  shows "xs = (ys :: 8 word list)"
proof -
  have "8 * length xs + length rest = 8 * length ys + length zeros" using arg_cong [OF assms(1), of length] by simp
  then have len: "length xs = length ys" using assms(2,3) by linarith
  then have "concat (map (to_bits 8) xs) = concat (map (to_bits 8) ys)" using assms(1) by (simp add: append_eq_append_conv)
  with len show ?thesis
  proof (induction xs ys rule: list_induct2)
    case (Cons x xs y ys)
    then have "to_bits 8 x = to_bits 8 y" "concat (map (to_bits 8) xs) = concat (map (to_bits 8) ys)" by simp_all
    then show ?case using Cons.IH to_bits_inject [of x y] by simp
  qed simp
qed

lemma to_bits_ucast: "n \<le> 8 \<Longrightarrow> to_bits n (ucast (d :: 8 word) :: 32 word) = to_bits n d" "n \<le> 8 \<Longrightarrow> to_bits n (ucast (w :: 32 word) :: 8 word) = to_bits n w"
  by (auto intro!: to_bits_cong simp: bit_ucast_iff)

lemma fits_ucast: "fits 8 (ucast (d :: 8 word) :: 32 word)"
  by (auto simp: fits_def bit_ucast_iff dest: bit_imp_le_length)

lemma fits_bytes: "list_all (fits 8) (map ucast (data :: 8 word list) :: 32 word list)"
  by (simp add: list_all_iff fits_ucast)

lemma bit_31: "bit (31 :: 32 word) i \<longleftrightarrow> i < 5" "bit (31 :: int) i \<longleftrightarrow> i < 5"
proof -
  show "bit (31 :: 32 word) i \<longleftrightarrow> i < 5" using bit_maxv [of 5 i] by (simp only: power_numeral) auto
  have "(31 :: int) = mask 5" by (simp add: mask_eq_exp_minus_1)
  then show "bit (31 :: int) i \<longleftrightarrow> i < 5" by (simp only: bit_mask_iff) simp
qed

lemma pad_bits:
  assumes "bits < 5"
  shows "to_bits 5 (push_bit (5 - bits) acc AND (2 ^ 5 - 1) :: 32 word) = to_bits bits acc @ replicate (5 - bits) False"
    "fits 5 (push_bit (5 - bits) acc AND (2 ^ 5 - 1) :: 32 word)"
proof -
  let ?t = "push_bit (5 - bits) acc AND (2 ^ 5 - 1) :: 32 word"
  have "to_bits 5 ?t = to_bits bits (drop_bit (5 - bits) ?t) @ to_bits (5 - bits) ?t" using to_bits_append [of bits "5 - bits" ?t] assms by simp
  moreover have "to_bits bits (drop_bit (5 - bits) ?t) = to_bits bits acc"
    using assms by (intro to_bits_cong) (auto simp: bit_drop_bit_eq bit_and_iff bit_push_bit_iff bit_31)
  moreover have "to_bits (5 - bits) ?t = replicate (5 - bits) False"
    by (auto simp: list_eq_iff_nth_eq nth_to_bits bit_and_iff bit_push_bit_iff)
  ultimately show "to_bits 5 ?t = to_bits bits acc @ replicate (5 - bits) False" by simp
  show "fits 5 ?t" by (auto simp: fits_def bit_and_iff bit_31)
qed

lemma convertBits_bits:
  assumes "list_all (fits 8) data"
  shows "\<exists>out k. convertBits data 8 5 True = Inr out \<and> k < 5 \<and> list_all (fits 5) out \<and>
    concat (map (to_bits 5) out) = concat (map (to_bits 8) data) @ replicate k False"
proof -
  obtain gs acc bits where r: "regroup 8 5 0 0 data = (gs, acc, bits)" by (cases "regroup 8 5 0 0 data")
  have b: "concat (map (to_bits 8) data) = concat (map (to_bits 5) gs) @ to_bits bits acc" "bits < 5" "list_all (fits 5) gs"
    using regroup_bits [OF r] assms by (simp_all add: to_bits_def)
  show ?thesis
  proof (cases "bits = 0")
    case True
    then show ?thesis using b by (intro exI [of _ gs] exI [of _ 0]) (simp add: convertBits_def r Let_def to_bits_def)
  next
    case False
    then show ?thesis using b pad_bits [OF b(2), of acc]
      by (intro exI [of _ "gs @ [push_bit (5 - bits) acc AND (2 ^ 5 - 1)]"] exI [of _ "5 - bits"]) (simp add: convertBits_def r Let_def push_bit_of_1)
  qed
qed

theorem regrouping_is_reversible:
  "\<exists>out. convertBits (map ucast data) 8 5 True = Inr out \<and> list_all (fits 5) out \<and> convertBitsBack out 5 8 = (data :: 8 word list)"
proof -
  obtain out k where out: "convertBits (map ucast data) 8 5 True = Inr out" "k < 5" "list_all (fits 5) out"
      "concat (map (to_bits 5) out) = concat (map (to_bits 8) (map ucast data :: 32 word list)) @ replicate k False"
    using convertBits_bits [OF fits_bytes, of data] by blast
  obtain gs acc bits where r: "regroup 5 8 0 0 out = (gs, acc, bits)" by (cases "regroup 5 8 0 0 out")
  have b: "concat (map (to_bits 5) out) = concat (map (to_bits 8) gs) @ to_bits bits acc" "bits < 8"
    using regroup_bits [OF r] out(3) by (simp_all add: to_bits_def)
  have "concat (map (to_bits 8) (map ucast gs :: 8 word list)) @ to_bits bits acc = concat (map (to_bits 8) data) @ replicate k False"
    using b(1) out(4) by (simp add: o_def to_bits_ucast)
  then have "map ucast gs = data" by (rule bytes_from_bits) (use b(2) out(2) in simp_all)
  then show ?thesis using out(1,3) r by (simp add: convertBitsBack_def)
qed
section \<open>The checksum is linear\<close>

text \<open>The generator terms a top symbol adds, and a step without input.\<close>

definition mixv :: "32 word \<Rightarrow> 32 word" where
  "mixv b = mixGen b 0"

definition shift_step :: "32 word \<Rightarrow> 32 word" where
  "shift_step c = polymod_step c 0"

lemma mixGen_xor: "mixGen b x = x XOR mixv b"
  by (simp add: mixGen_def mixv_def xor.assoc)

lemma polymod_step_xor: "polymod_step c v = shift_step c XOR v"
  by (simp add: polymod_step_def shift_step_def Let_def mixGen_xor ac_simps)

lemma if_xor: "(if p \<noteq> q then g else 0) = (if p then g else 0) XOR (if q then g else (0 :: 32 word))"
  by simp

lemma mixv_terms: "mixv b = (if bit b 0 then GEN ! 0 else 0) XOR (if bit b 1 then GEN ! 1 else 0) XOR (if bit b 2 then GEN ! 2 else 0) XOR
    (if bit b 3 then GEN ! 3 else 0) XOR (if bit b 4 then GEN ! 4 else 0)"
proof -
  have sd: "signed_drop_bit i b AND 1 \<noteq> 0 \<longleftrightarrow> bit b i" if "i < 32" for i
    using bit_signed_drop [of 0 i b] that by (simp add: and_one_eq odd_iff_mod_2_eq_one [symmetric] bit_0)
  have t: "(signed_drop_bit 0 b AND 1 \<noteq> 0) = bit b 0" "(signed_drop_bit 1 b AND 1 \<noteq> 0) = bit b 1" "(signed_drop_bit 2 b AND 1 \<noteq> 0) = bit b 2"
    "(signed_drop_bit 3 b AND 1 \<noteq> 0) = bit b 3" "(signed_drop_bit 4 b AND 1 \<noteq> 0) = bit b 4" by (rule sd, simp)+
  have pull: "(if p then c XOR g else c) = c XOR (if p then g else 0)" for p and c g :: "32 word" by simp
  show ?thesis unfolding mixv_def mixGen_def foldl.simps t pull by (simp only: xor.assoc xor.left_neutral)
qed

lemma mixv_xor: "mixv (a XOR b) = mixv a XOR mixv b"
  unfolding mixv_terms bit_xor_iff if_xor by (simp only: ac_simps)

lemma signed_drop_xor: "signed_drop_bit n (a XOR b :: 32 word) = signed_drop_bit n a XOR signed_drop_bit n b"
  by (rule bit_word_eqI) (simp add: bit_signed_drop_bit_iff bit_xor_iff)

lemma shift_step_xor: "shift_step (a XOR b) = shift_step a XOR shift_step b"
proof -
  have "push_bit 5 ((a XOR b) AND 0x1ffffff) = push_bit 5 (a AND 0x1ffffff) XOR push_bit 5 (b AND (0x1ffffff :: 32 word))"
    by (rule bit_word_eqI) (auto simp: bit_push_bit_iff bit_and_iff bit_xor_iff)
  then show ?thesis
    by (simp add: shift_step_def polymod_step_def Let_def mixGen_xor signed_drop_xor mixv_xor ac_simps)
qed

text \<open>Below \<open>2\<^sup>25\<close> a step only shifts.\<close>

lemma bit_low25: "bit (0x1ffffff :: 32 word) i \<longleftrightarrow> i < 25" "bit (0x1ffffff :: int) i \<longleftrightarrow> i < 25"
proof -
  have "(0x1ffffff :: 32 word) = mask 25" "(0x1ffffff :: int) = mask 25" by (simp_all add: mask_eq_exp_minus_1)
  then show "bit (0x1ffffff :: 32 word) i \<longleftrightarrow> i < 25" "bit (0x1ffffff :: int) i \<longleftrightarrow> i < 25"
    by (simp_all only: bit_mask_iff) auto
qed

lemma fits_high: "fits n w \<Longrightarrow> n \<le> 32 \<Longrightarrow> n \<le> i \<Longrightarrow> \<not> bit (w :: 32 word) i"
  by (simp add: fits_def)

lemma shift_small:
  assumes "fits 25 w"
  shows "shift_step w = push_bit 5 w"
proof -
  have "signed_drop_bit 25 w = 0" using assms by (intro bit_word_eqI) (auto simp: bit_signed_drop_bit_iff fits_def)
  moreover have "w AND 0x1ffffff = w" using assms by (intro bit_word_eqI) (metis bit_and_iff bit_low25(1) fits_def not_less)
  ultimately show ?thesis by (simp add: shift_step_def polymod_step_def Let_def mixGen_xor mixv_terms)
qed

lemma fits_push: "fits n w \<Longrightarrow> fits (n + k) (push_bit k (w :: 32 word))"
  by (auto simp: fits_def bit_push_bit_iff)

lemma fits_mono: "fits n w \<Longrightarrow> n \<le> m \<Longrightarrow> fits m w"
  by (auto simp: fits_def)

lemma fits_xor: "fits n a \<Longrightarrow> fits n b \<Longrightarrow> fits n (a XOR b)"
  by (auto simp: fits_def bit_xor_iff)
text \<open>Six symbols after a state: the state moved by six steps, plus the symbols side by side.\<close>

lemma shift_small5: "fits 5 d \<Longrightarrow> k \<le> 5 \<Longrightarrow> (shift_step ^^ k) d = push_bit (5 * k) d"
proof (induction k)
  case (Suc k)
  have "fits 25 (push_bit (5 * k) d)" by (rule fits_mono [OF fits_push [OF Suc.prems(1)]]) (use Suc.prems(2) in simp)
  then have "shift_step (push_bit (5 * k) d) = push_bit 5 (push_bit (5 * k) d)" by (rule shift_small)
  moreover have "(shift_step ^^ k) d = push_bit (5 * k) d" using Suc by simp
  ultimately show ?case by (simp add: push_bit_push_bit add.commute)
qed simp

lemma six_symbols:
  assumes "fits 5 a" "fits 5 b" "fits 5 c" "fits 5 d" "fits 5 e" "fits 5 f"
  shows "foldl polymod_step x [a, b, c, d, e, f] = foldl polymod_step x [0, 0, 0, 0, 0, 0] XOR
    (push_bit 25 a XOR push_bit 20 b XOR push_bit 15 c XOR push_bit 10 d XOR push_bit 5 e XOR f)"
proof -
  have p: "shift_step (shift_step (shift_step (shift_step (shift_step a)))) = push_bit 25 a" "shift_step (shift_step (shift_step (shift_step b))) = push_bit 20 b"
    "shift_step (shift_step (shift_step c)) = push_bit 15 c" "shift_step (shift_step d) = push_bit 10 d" "shift_step e = push_bit 5 e"
    using shift_small5 [OF assms(1), of 5] shift_small5 [OF assms(2), of 4] shift_small5 [OF assms(3), of 3] shift_small5 [OF assms(4), of 2] shift_small5 [OF assms(5), of 1]
    by (simp_all add: numeral_eq_Suc del: push_bit_Suc)
  show ?thesis by (simp only: foldl.simps polymod_step_xor shift_step_xor p xor.right_neutral) (simp only: ac_simps)
qed

text \<open>States stay below \<open>2\<^sup>30\<close>.\<close>

lemma fits_take: "take_bit n w = w \<Longrightarrow> fits n w"
  by (metis bit_take_bit_iff fits_def not_less)

lemma fits_GEN: "fits 30 (GEN ! 0)" "fits 30 (GEN ! 1)" "fits 30 (GEN ! 2)" "fits 30 (GEN ! 3)" "fits 30 (GEN ! 4)"
  by (rule fits_take, code_simp)+

lemma fits_if: "fits n g \<Longrightarrow> fits n (if p then g else 0)"
  by (simp add: fits_def)

lemma fits_mixv: "fits 30 (mixv b)"
  unfolding mixv_terms by (intro fits_xor fits_if fits_GEN)

lemma fits_low: "fits 25 (c AND 0x1ffffff :: 32 word)"
  by (simp add: fits_def bit_and_iff bit_low25)

lemma fits_shift: "fits 30 (shift_step c)"
  using fits_push [OF fits_low, of 5 c] fits_mixv by (simp add: shift_step_def polymod_step_def Let_def mixGen_xor fits_xor)

lemma fits_fold: "list_all (fits 30) values \<Longrightarrow> fits 30 c \<Longrightarrow> fits 30 (foldl polymod_step c values)"
  by (induction "values" arbitrary: c) (simp_all add: polymod_step_xor fits_xor fits_shift)

lemma fits_and31: "fits 5 (w AND 31 :: 32 word)"
  by (simp add: fits_def bit_and_iff bit_31)

lemma fits_symbols: "list_all (fits 5) (ds :: 32 word list) \<Longrightarrow> list_all (fits 30) ds"
  by (auto simp: list_all_iff intro: fits_mono [where n = 5])

lemma fits_charCode: "fits 8 (charCode c)"
proof -
  have "(of_char c :: nat) < 2 ^ 8" by simp
  then have "take_bit 8 (charCode c) = charCode c"
    by (metis charCode_def of_nat_take_bit take_bit_nat_eq_self)
  then show ?thesis by (rule fits_take)
qed

lemma fits_hrp: "list_all (fits 30) (hrpExpand hrp)"
proof -
  have "fits 30 (signed_drop_bit 5 (charCode c))" for c
    using fits_charCode [of c] by (auto simp: fits_def bit_signed_drop_bit_iff)
  moreover have "fits 30 (0 :: 32 word)" by (simp add: fits_def)
  ultimately show ?thesis by (auto simp: hrpExpand_def list_all_iff intro: fits_mono [OF fits_and31])
qed

lemma group_bit: "k \<le> 25 \<Longrightarrow> bit (signed_drop_bit k (pm :: 32 word) AND 31) i \<longleftrightarrow> i < 5 \<and> bit pm (i + k)"
  by (auto simp: bit_and_iff bit_31 bit_signed_drop)

lemma groups_of_30:
  assumes "fits 30 pm"
  shows "push_bit 25 (signed_drop_bit 25 pm AND 31) XOR push_bit 20 (signed_drop_bit 20 pm AND 31) XOR push_bit 15 (signed_drop_bit 15 pm AND 31) XOR
    push_bit 10 (signed_drop_bit 10 pm AND 31) XOR push_bit 5 (signed_drop_bit 5 pm AND 31) XOR (signed_drop_bit 0 pm AND 31) = (pm :: 32 word)"
proof (rule bit_word_eqI)
  fix n assume n: "n < LENGTH(32)"
  consider "n < 5" | "5 \<le> n" "n < 10" | "10 \<le> n" "n < 15" | "15 \<le> n" "n < 20" | "20 \<le> n" "n < 25" | "25 \<le> n" "n < 30" | "30 \<le> n" by linarith
  then show "bit (push_bit 25 (signed_drop_bit 25 pm AND 31) XOR push_bit 20 (signed_drop_bit 20 pm AND 31) XOR push_bit 15 (signed_drop_bit 15 pm AND 31) XOR
    push_bit 10 (signed_drop_bit 10 pm AND 31) XOR push_bit 5 (signed_drop_bit 5 pm AND 31) XOR (signed_drop_bit 0 pm AND 31)) n = bit pm n"
    using n assms unfolding bit_xor_iff bit_push_bit_iff
    by cases (auto simp: group_bit fits_def simp del: signed_drop_bit_0)
qed

lemma fits_const: "fits 30 BECH32M_CONST"
  by (rule fits_take) code_simp

text \<open>The checksum of an encoding verifies.\<close>

lemma checksum_verifies:
  assumes "list_all (fits 5) data"
  shows "verifyChecksum hrp (data @ createChecksum hrp data)"
proof -
  define x where "x = foldl polymod_step 1 (hrpExpand hrp @ data)"
  define p where "p = foldl polymod_step x [0, 0, 0, 0, 0, 0]"
  have one: "fits 30 (1 :: 32 word)" by (rule fits_take) simp
  have "fits 30 x" unfolding x_def by (rule fits_fold [OF _ one]) (simp add: fits_hrp fits_symbols [OF assms])
  then have "fits 30 p" unfolding p_def by (rule fits_fold [rotated]) (simp add: fits_def)
  then have pm: "fits 30 (p XOR BECH32M_CONST)" by (rule fits_xor [OF _ fits_const])
  have c: "createChecksum hrp data = [signed_drop_bit 25 (p XOR BECH32M_CONST) AND 31, signed_drop_bit 20 (p XOR BECH32M_CONST) AND 31,
      signed_drop_bit 15 (p XOR BECH32M_CONST) AND 31, signed_drop_bit 10 (p XOR BECH32M_CONST) AND 31, signed_drop_bit 5 (p XOR BECH32M_CONST) AND 31,
      signed_drop_bit 0 (p XOR BECH32M_CONST) AND 31]"
    by (simp add: createChecksum_def polymod_def Let_def p_def x_def)
  have "polymod (hrpExpand hrp @ data @ createChecksum hrp data) = foldl polymod_step x (createChecksum hrp data)"
    by (simp add: polymod_def x_def)
  also have "\<dots> = p XOR (p XOR BECH32M_CONST)" unfolding c six_symbols [OF fits_and31 fits_and31 fits_and31 fits_and31 fits_and31 fits_and31]
    p_def [symmetric] groups_of_30 [OF pm] ..
  finally show ?thesis by (simp add: verifyChecksum_def xor.assoc [symmetric])
qed
section \<open>A wrong symbol changes the checksum\<close>

lemma fold_difference: "foldl polymod_step a ys XOR foldl polymod_step b ys = (shift_step ^^ length ys) (a XOR b)"
  by (induction ys arbitrary: a b) (simp_all add: polymod_step_xor shift_step_xor [symmetric] funpow_swap1 ac_simps)

lemma shift_zero [simp]: "shift_step 0 = 0"
  using shift_small [of 0] by (simp add: fits_def)

lemma fits_unat: "fits n w \<Longrightarrow> unat (w :: 32 word) < 2 ^ n"
proof -
  assume "fits n w"
  then have "take_bit n w = w" by (intro bit_word_eqI) (metis bit_take_bit_iff fits_def not_less)
  then show ?thesis by (metis take_bit_nat_less_exp unsigned_take_bit_eq)
qed

lemma mixv_low: "fits 5 b \<Longrightarrow> mixv b AND 31 = 0 \<Longrightarrow> b = 0"
proof -
  assume b: "fits 5 b" "mixv b AND 31 = 0"
  have "\<forall>k \<in> set [0..<32]. mixv (of_nat k) AND 31 = 0 \<longrightarrow> k = 0" by code_simp
  moreover have "unat b \<in> set [0..<32]" using fits_unat [OF b(1)] by simp
  moreover have "of_nat (unat b) = b" by simp
  ultimately have "unat b = 0" using b(2) by metis
  then show ?thesis by (simp add: unat_eq_zero)
qed

lemma shift_inject:
  assumes "fits 30 c" "shift_step c = 0"
  shows "c = 0"
proof -
  have b: "fits 5 (signed_drop_bit 25 c)" using assms(1) by (auto simp: fits_def bit_signed_drop_bit_iff)
  have z: "push_bit 5 (c AND 0x1ffffff) XOR mixv (signed_drop_bit 25 c) = 0"
    using assms(2) by (simp add: shift_step_def polymod_step_def Let_def mixGen_xor)
  have "mixv (signed_drop_bit 25 c) AND 31 = 0"
  proof (rule bit_word_eqI)
    fix n
    have "bit (push_bit 5 (c AND 0x1ffffff) XOR mixv (signed_drop_bit 25 c)) n = False" using z by simp
    then show "bit (mixv (signed_drop_bit 25 c) AND 31) n = bit 0 n"
      by (auto simp: bit_and_iff bit_xor_iff bit_push_bit_iff bit_31)
  qed
  then have zero: "signed_drop_bit 25 c = 0" by (rule mixv_low [OF b])
  have "fits 25 c"
    unfolding fits_def
  proof (intro allI impI)
    fix i :: nat assume "25 \<le> i"
    then have "i < 32 \<Longrightarrow> bit c i = bit (signed_drop_bit 25 c) (i - 25)" by (simp add: bit_signed_drop)
    then show "\<not> bit c i" using zero bit_imp_le_length [of c i] by auto
  qed
  then have "push_bit 5 c = 0" using shift_small assms(2) by simp
  moreover have "bit (push_bit 5 c) (n + 5) = bit c n" if "n < 25" for n using that by (simp add: bit_push_bit_iff)
  ultimately have "\<not> bit c n" if "n < 25" for n using that by (metis bit_0_eq bot_apply bot_bool_def)
  then show ?thesis using \<open>fits 25 c\<close> by (intro bit_word_eqI) (metis bit_0_eq bot_apply bot_bool_def fits_def not_less)
qed
lemma shift_power_inject: "fits 30 c \<Longrightarrow> (shift_step ^^ k) c = 0 \<Longrightarrow> c = 0"
  by (induction k arbitrary: c) (auto simp: funpow_swap1 fits_shift dest: shift_inject)

lemma symbol_change_detected:
  assumes "fits 5 x" "fits 5 y" "x \<noteq> y"
  shows "\<not> (verifyChecksum hrp (xs @ x # ys) \<and> verifyChecksum hrp (xs @ y # ys))"
proof
  assume "verifyChecksum hrp (xs @ x # ys) \<and> verifyChecksum hrp (xs @ y # ys)"
  define c where "c = foldl polymod_step 1 (hrpExpand hrp @ xs)"
  have "foldl polymod_step (polymod_step c x) ys = foldl polymod_step (polymod_step c y) ys"
    using \<open>verifyChecksum hrp (xs @ x # ys) \<and> verifyChecksum hrp (xs @ y # ys)\<close> by (simp add: verifyChecksum_def polymod_def c_def)
  then have "(shift_step ^^ length ys) (polymod_step c x XOR polymod_step c y) = 0"
    using fold_difference [of "polymod_step c x" ys "polymod_step c y"] by simp
  moreover have d: "polymod_step c x XOR polymod_step c y = x XOR y" by (simp add: polymod_step_xor ac_simps)
  moreover have "fits 30 (x XOR y)" by (rule fits_mono [OF fits_xor [OF assms(1,2)]]) simp
  ultimately have "x XOR y = 0" using shift_power_inject by metis
  then show False using assms(3) by (metis xor.assoc xor.left_neutral xor.right_neutral xor_self_eq)
qed

section \<open>Characters\<close>

lemma indexOf_char_Some: "indexOf_char c s = Some i \<Longrightarrow> i < length s \<and> s ! i = c"
  by (induction s arbitrary: i) (auto split: if_splits)

lemma charset_index: "d < 32 \<Longrightarrow> indexOf_char (CHARSET ! d) CHARSET = Some d"
proof -
  have "\<forall>d \<in> set [0..<32]. indexOf_char (CHARSET ! d) CHARSET = Some d" by code_simp
  then show "d < 32 \<Longrightarrow> indexOf_char (CHARSET ! d) CHARSET = Some d" by simp
qed

lemma charset_facts: "length CHARSET = 32" "toLowerCase CHARSET = CHARSET" "CHR ''1'' \<notin> set CHARSET"
  by code_simp+

lemma symbol_char:
  fixes d :: "32 word"
  assumes "fits 5 d"
  shows "indexOf_char (CHARSET ! unat d) CHARSET = Some (unat d)" "CHARSET ! unat d \<noteq> CHR ''1''" "lower_char (CHARSET ! unat d) = CHARSET ! unat d"
proof -
  have d: "unat d < 32" using fits_unat [OF assms] by simp
  then show "indexOf_char (CHARSET ! unat d) CHARSET = Some (unat d)" by (rule charset_index)
  show "CHARSET ! unat d \<noteq> CHR ''1''" using charset_facts(1,3) d nth_mem by metis
  show "lower_char (CHARSET ! unat d) = CHARSET ! unat d" using charset_facts(1,2) d unfolding toLowerCase_def by (metis nth_map)
qed

lemma decodeChars_symbols: "list_all (fits 5) ds \<Longrightarrow> decodeChars (map (\<lambda>d. CHARSET ! unat d) ds) = Inr ds"
  by (induction ds) (simp_all add: symbol_char)

lemma lastIndexOf_Some:
  assumes "c \<notin> set cs"
  shows "lastIndexOf_char c (hrp @ c # cs) = Some (length hrp)"
proof -
  have "indexOf_char c (xs @ c # ys) = Some (length xs)" if "c \<notin> set xs" for xs ys using that by (induction xs) auto
  then show ?thesis using assms by (simp add: lastIndexOf_char_def)
qed

lemma length_createChecksum [simp]: "length (createChecksum hrp data) = 6"
  by (simp add: createChecksum_def Let_def)

lemma fits_createChecksum: "list_all (fits 5) (createChecksum hrp data)"
  by (simp add: createChecksum_def Let_def fits_and31)

text \<open>Every byte string survives encoding and decoding.\<close>

lemma bech32m_round_trip:
  assumes "hrp \<noteq> ''''" "toLowerCase hrp = hrp"
  shows "\<exists>a. bech32mEncode hrp data = Inr (hrp @ ''1'' @ a) \<and> length a \<ge> 6 \<and> bech32mDecode (hrp @ ''1'' @ a) = Inr (hrp, data)"
proof -
  obtain out where out: "convertBits (map ucast data) 8 5 True = Inr out" "list_all (fits 5) out" "convertBitsBack out 5 8 = data"
    using regrouping_is_reversible by blast
  let ?ds = "out @ createChecksum hrp out"
  let ?a = "map (\<lambda>d. CHARSET ! unat d) ?ds"
  have ds: "list_all (fits 5) ?ds" using out(2) fits_createChecksum by simp
  have one: "CHR ''1'' \<notin> set ?a" using ds by (auto simp: list_all_iff dest: symbol_char(2) [THEN not_sym])
  have "toLowerCase ?a = ?a" using ds symbol_char(3) by (auto simp: toLowerCase_def list_all_iff)
  then have lower: "toLowerCase (hrp @ ''1'' @ ?a) = hrp @ ''1'' @ ?a" using assms(2) by (simp add: toLowerCase_def)
  have "lastIndexOf_char (CHR ''1'') (hrp @ ''1'' @ ?a) = Some (length hrp)" using lastIndexOf_Some [OF one] by simp
  then have "bech32mDecode (hrp @ ''1'' @ ?a) = Inr (hrp, data)"
    using assms(1) decodeChars_symbols [OF ds] checksum_verifies [OF out(2)] out(3) unfolding bech32mDecode_def Let_def lower by simp
  then show ?thesis using out(1) by (intro exI [of _ ?a]) (simp add: bech32mEncode_def)
qed

lemma lower_char_one: "lower_char c = CHR ''1'' \<longleftrightarrow> c = CHR ''1''"
  by (cases c) (auto simp: Let_def split: if_splits)

lemma decodeChars_append:
  "decodeChars (u @ v) = (case decodeChars u of Inl e \<Rightarrow> Inl e | Inr xs \<Rightarrow> (case decodeChars v of Inl e \<Rightarrow> Inl e | Inr ys \<Rightarrow> Inr (xs @ ys)))"
  by (induction u) (auto split: option.splits sum.splits)

lemma decodeChars_mid:
  "decodeChars (u @ c # v) = Inr ds \<longleftrightarrow> (\<exists>xs i ys. decodeChars u = Inr xs \<and> indexOf_char c CHARSET = Some i \<and> decodeChars v = Inr ys \<and> ds = xs @ of_nat i # ys)"
  by (auto simp: decodeChars_append split: option.splits sum.splits)

lemma fits_symbol: "indexOf_char c CHARSET = Some i \<Longrightarrow> i < 32 \<and> fits 5 (of_nat i :: 32 word) \<and> CHARSET ! i = c"
proof -
  assume "indexOf_char c CHARSET = Some i"
  then have i: "i < 32" "CHARSET ! i = c" using indexOf_char_Some charset_facts(1) by force+
  have "\<forall>i \<in> set [0..<32]. (of_nat i :: 32 word) AND 31 = of_nat i" by code_simp
  then have "(of_nat i :: 32 word) AND 31 = of_nat i" using i(1) by simp
  then show ?thesis using i fits_and31 [of "of_nat i"] by simp
qed

text \<open>What decoding comes to when the last separator is known.\<close>

lemma decode_at_separator:
  assumes "CHR ''1'' \<notin> set a"
  shows "bech32mDecode (hrp @ CHR ''1'' # a) = Inr r \<longleftrightarrow> (\<exists>ds. hrp \<noteq> [] \<and> 6 \<le> length a \<and> decodeChars (toLowerCase a) = Inr ds \<and>
    verifyChecksum (toLowerCase hrp) ds \<and> r = (toLowerCase hrp, convertBitsBack (take (length ds - 6) ds) 5 8))"
proof -
  have "CHR ''1'' \<notin> set (toLowerCase a)" 
    unfolding toLowerCase_def set_map image_iff using assms lower_char_one by metis
  then have pos: "lastIndexOf_char (CHR ''1'') (toLowerCase hrp @ CHR ''1'' # toLowerCase a) = Some (length (toLowerCase hrp))"
    by (rule lastIndexOf_Some)
  have lower: "toLowerCase (hrp @ CHR ''1'' # a) = toLowerCase hrp @ CHR ''1'' # toLowerCase a" by (simp add: toLowerCase_def)
  show ?thesis unfolding bech32mDecode_def Let_def lower pos option.case
    by (cases "decodeChars (toLowerCase a)") auto
qed

lemma decode_rejects_typo:
  assumes "bech32mDecode (hrp @ CHR ''1'' # u @ c # v) = Inr r" "CHR ''1'' \<notin> set (u @ c # v)" "lower_char c' \<noteq> lower_char c" "c' \<noteq> CHR ''1''"
  shows "\<exists>e. bech32mDecode (hrp @ CHR ''1'' # u @ c' # v) = Inl e"
proof (rule ccontr)
  assume "\<nexists>e. bech32mDecode (hrp @ CHR ''1'' # u @ c' # v) = Inl e"
  then obtain r' where r': "bech32mDecode (hrp @ CHR ''1'' # u @ c' # v) = Inr r'" by (metis sum.exhaust)
  have lower: "toLowerCase (u @ x # v) = toLowerCase u @ lower_char x # toLowerCase v" for x by (simp add: toLowerCase_def)
  obtain ds where ds: "decodeChars (toLowerCase u @ lower_char c # toLowerCase v) = Inr ds" "verifyChecksum (toLowerCase hrp) ds"
    using decode_at_separator [OF assms(2), THEN iffD1, OF assms(1)] unfolding lower by blast
  have c': "CHR ''1'' \<notin> set (u @ c' # v)" using assms(2,4) by auto
  obtain ds' where ds': "decodeChars (toLowerCase u @ lower_char c' # toLowerCase v) = Inr ds'" "verifyChecksum (toLowerCase hrp) ds'"
    using decode_at_separator [OF c', THEN iffD1, OF r'] unfolding lower by blast
  obtain xs i ys where i: "indexOf_char (lower_char c) CHARSET = Some i" "ds = xs @ of_nat i # ys" "decodeChars (toLowerCase u) = Inr xs" "decodeChars (toLowerCase v) = Inr ys"
    using ds(1) unfolding decodeChars_mid by blast
  obtain j where j: "indexOf_char (lower_char c') CHARSET = Some j" "ds' = xs @ of_nat j # ys"
    using ds'(1) i(3,4) unfolding decodeChars_mid by auto
  have "i \<noteq> j" using i(1) j(1) assms(3) fits_symbol by metis
  moreover have "unat (of_nat k :: 32 word) = k" if "k < 32" for k using that by (simp add: unat_of_nat)
  ultimately have "(of_nat i :: 32 word) \<noteq> of_nat j" using i(1) j(1) fits_symbol by metis
  then show False using symbol_change_detected fits_symbol [OF i(1)] fits_symbol [OF j(1)] ds(2) ds'(2) i(2) j(2) by blast
qed

section \<open>Hexadecimal text\<close>

lemma hex_char:
  assumes "d < 16"
  defines "c \<equiv> ''0123456789abcdef'' ! d"
  shows "lower_char c = c" "\<not> js_space c" "c \<notin> set ''+-x''" "hex_digit_value c = Some d"
proof -
  have "\<forall>d \<in> set [0..<16]. let c = ''0123456789abcdef'' ! d in lower_char c = c \<and> \<not> js_space c \<and> c \<notin> set ''+-x'' \<and> hex_digit_value c = Some d"
    by code_simp
  then show "lower_char c = c" "\<not> js_space c" "c \<notin> set ''+-x''" "hex_digit_value c = Some d"
    using assms(1) unfolding c_def Let_def by simp_all
qed

lemma hexByte_chars:
  assumes "i < 16" "j < 16"
  shows "hexByte [''0123456789abcdef'' ! i, ''0123456789abcdef'' ! j] = of_nat (16 * i + j)"
proof -
  obtain c d where c: "c = ''0123456789abcdef'' ! i" and d: "d = ''0123456789abcdef'' ! j" by blast
  note facts = hex_char [OF assms(1), folded c] hex_char [OF assms(2), folded d]
  have "parseInt16 [c, d] = Some (int (16 * i + j))"
    using facts by (simp add: parseInt16_def toLowerCase_def trimStart_def Let_def)
  then show ?thesis unfolding c [symmetric] d [symmetric] hexByte_def by simp
qed

lemma hexByte_digits: "hexByte [''0123456789abcdef'' ! (unat b div 16), ''0123456789abcdef'' ! (unat b mod 16)] = (b :: 8 word)"
proof -
  have "unat b < 2 ^ LENGTH(8)" by (rule unsigned_less)
  then have "unat b div 16 < 16" by simp
  then have "hexByte [''0123456789abcdef'' ! (unat b div 16), ''0123456789abcdef'' ! (unat b mod 16)] = of_nat (16 * (unat b div 16) + unat b mod 16)"
    by (rule hexByte_chars) simp
  then show ?thesis by (simp only: mult_div_mod_eq of_nat_unat ucast_id)
qed

lemma hexToBytes_step: "hexToBytes (c # d # s) = hexByte [c, d] # hexToBytes s"
proof -
  have "[0..<Suc n] = 0 # map Suc [0..<n]" for n by (metis map_Suc_upt upt_conv_Cons zero_less_Suc)
  then show ?thesis by (simp add: hexToBytes_def comp_def)
qed

lemma hex_round_trip [simp]: "hexToBytes (bytesToHex bs) = bs"
proof (induction bs)
  case Nil
  show ?case by (simp add: hexToBytes_def bytesToHex_def)
next
  case (Cons b bs)
  then show ?case by (simp add: bytesToHex_def hexToBytes_step hexByte_digits)
qed

section \<open>The two guarantees of an address\<close>

lemma rouge_round_trip:
  "\<exists>a. bech32mEncode HRP data = Inr a \<and> isRougeAddress a \<and> addressToHash a = Inr (bytesToHex data)"
proof -
  have HRP: "HRP \<noteq> ''''" "toLowerCase HRP = HRP" "HRP = ''rouge''" by (simp_all add: HRP_def toLowerCase_def)
  obtain a where a: "bech32mEncode HRP data = Inr (HRP @ ''1'' @ a)" "length a \<ge> 6" "bech32mDecode (HRP @ ''1'' @ a) = Inr (HRP, data)"
    using bech32m_round_trip [OF HRP(1,2)] by blast
  then show ?thesis unfolding HRP(3) by (intro exI [of _ "''rouge1'' @ a"]) (simp add: isRougeAddress_def addressToHash_def toLowerCase_def)
qed

text \<open>C37: an address stands for exactly the bytes it was made from. Every hash, and the digest of every public key whatever the hash function, has an
  address; \<open>isRougeAddress\<close> recognises it, and \<open>addressToHash\<close> reads the same bytes back out of it.\<close>

theorem address_round_trip:
  "(\<exists>a. hashToAddress (bytesToHex hash) = Inr a \<and> isRougeAddress a \<and> addressToHash a = Inr (bytesToHex hash)) \<and>
   (\<exists>a. pubkeyToAddress sha256 publicKeyHex = Inr a \<and> isRougeAddress a \<and> addressToHash a = Inr (bytesToHex (sha256 (hexToBytes publicKeyHex))))"
  unfolding hashToAddress_def pubkeyToAddress_def hex_round_trip using rouge_round_trip by blast

text \<open>C38: a mistyped address is refused. If an address is accepted, then replacing any one character after the separator by a different one (other than
  the separator itself, and not merely the other case) gives a text that \<open>addressToHash\<close> throws on and \<open>isRougeAddress\<close> rejects.\<close>

theorem address_typo_detected:
  assumes "addressToHash (''rouge1'' @ u @ c # v) = Inr h" "CHR ''1'' \<notin> set (u @ c # v)" "lower_char c' \<noteq> lower_char c" "c' \<noteq> CHR ''1''"
  shows "(\<exists>e. addressToHash (''rouge1'' @ u @ c' # v) = Inl e) \<and> \<not> isRougeAddress (''rouge1'' @ u @ c' # v)"
proof -
  have sep: "''rouge1'' @ x = ''rouge'' @ CHR ''1'' # x" for x by simp
  obtain r where "bech32mDecode (''rouge'' @ CHR ''1'' # u @ c # v) = Inr r" using assms(1) unfolding addressToHash_def sep by (auto split: sum.splits)
  then obtain e where "bech32mDecode (''rouge'' @ CHR ''1'' # u @ c' # v) = Inl e" using decode_rejects_typo assms(2-4) by blast
  then show ?thesis unfolding addressToHash_def isRougeAddress_def sep by simp
qed

theorem address_typo_detected_witness:
  "addressToHash (''rouge1'' @ ''qrl'' @ CHR ''s'' # ''c4wh0h'') = Inr ''00ff'' \<and> \<not> isRougeAddress (''rouge1'' @ ''qrl'' @ CHR ''5'' # ''c4wh0h'')"
proof -
  have ok: "addressToHash (''rouge1'' @ ''qrl'' @ CHR ''s'' # ''c4wh0h'') = Inr ''00ff''" by code_simp
  show ?thesis using ok address_typo_detected [OF ok, of "CHR ''5''"] by simp
qed

text \<open>The encoder agrees with the published test vector, in either case; and a text whose data part is two bytes, or whose prefix is not \<open>rouge\<close>, is
  decoded like an address.\<close>

lemma bech32m_vectors:
  "bech32mEncode ''a'' [] = Inr ''a1lqfn3a''" "bech32mDecode ''A1LQFN3A'' = Inr (''a'', [])"
  "addressToHash ''a1lqfn3a'' = Inr ''''" "isRougeAddress ''rouge1qrlsc4wh0h''"
  by code_simp+
end
