(* ===== verification/Spec2Isabelle.thy ===== *)
theory Spec2Isabelle
  imports Relayer_Loop Finality_Verify Btc_Relayer Rouge_Address
begin

text \<open>
  A verification of the bridge relayer of rougechain-node.
\<close>

section \<open>The relayer and the daemon agree\<close>



end
